(* ===== verification/Prelude.thy ===== *)
theory Prelude
  imports Main "HOL-Library.Char_ord" "HOL-Library.List_Lexorder" "HOL-Library.Sublist"
    "HOL-Library.AList" "HOL-Library.State_Monad" "HOL-Library.Multiset"
begin

text \<open>
  What every component shares: Go's fixed-width integers, the byte-string functions of the
  packages strings and strconv that the sources call, string-keyed maps, and the lemma
  collections of the development.  Go strings are byte sequences; here a string is a list of
  \<open>char\<close>, one byte each, compared bytewise as Go does.
\<close>

named_theorems run_simps \<open>running the state computations of the client and the controllers\<close>
named_theorems traces \<open>what an operation sends and what it then returns\<close>
named_theorems dec_simps \<open>decoding JSON values into wire records\<close>

type_synonym ('s, 'a) io = "('s, 'a) state"
type_synonym strmap = "(string \<times> string) list"

abbreviation ret :: "'a \<Rightarrow> ('s, 'a) io" where
  "ret \<equiv> State_Monad.return"

declare run_state_bind [run_simps] run_state_return [run_simps]

lemma run_fst: "fst (run_state m s) = x \<Longrightarrow> run_state m s = (x, snd (run_state m s))"
  by (cases "run_state m s") simp

lemma run_Inr: "\<not> isl (fst (run_state m s)) \<Longrightarrow> \<exists>x s'. run_state m s = (Inr x, s')"
  by (cases "run_state m s"; cases "fst (run_state m s)") auto

section \<open>64-bit integers\<close>

text \<open>Go's \<open>int\<close>, \<open>int64\<close> and \<open>time.Duration\<close> wrap around at 64 bits, two's complement.\<close>

definition wrap64 :: "int \<Rightarrow> int" where
  "wrap64 x = (x + 2 ^ 63) mod 2 ^ 64 - 2 ^ 63"

definition in_int64 :: "int \<Rightarrow> bool" where
  "in_int64 x \<longleftrightarrow> - (2 ^ 63) \<le> x \<and> x < 2 ^ 63"

lemma wrap64_id [simp]: "in_int64 x \<Longrightarrow> wrap64 x = x"
  by (simp add: wrap64_def in_int64_def)

lemma wrap64_range: "in_int64 (wrap64 x)"
proof -
  have "0 \<le> (x + 2 ^ 63) mod 2 ^ 64" "(x + 2 ^ 63) mod 2 ^ 64 < (2 :: int) ^ 64"
    by simp_all
  then show ?thesis by (simp add: wrap64_def in_int64_def)
qed

section \<open>Decimal numerals\<close>

definition digit_char :: "nat \<Rightarrow> char" where
  "digit_char d = char_of (48 + d)"

definition is_digit :: "char \<Rightarrow> bool" where
  "is_digit c \<longleftrightarrow> 48 \<le> (of_char c :: nat) \<and> (of_char c :: nat) \<le> 57"

definition digit_val :: "char \<Rightarrow> nat" where
  "digit_val c = of_char c - 48"

fun nat_digits :: "nat \<Rightarrow> string" where
  "nat_digits n = (if n < 10 then [digit_char n] else nat_digits (n div 10) @ [digit_char (n mod 10)])"

declare nat_digits.simps [simp del]

text \<open>\<open>strconv.Itoa\<close> and \<open>strconv.FormatInt(_, 10)\<close>.\<close>

definition itoa :: "int \<Rightarrow> string" where
  "itoa i = (if i < 0 then CHR ''-'' # nat_digits (nat (- i)) else nat_digits (nat i))"

fun digits_value :: "nat \<Rightarrow> string \<Rightarrow> nat" where
  "digits_value acc [] = acc"
| "digits_value acc (c # cs) = digits_value (10 * acc + digit_val c) cs"

text \<open>\<open>strconv.Atoi\<close> and \<open>strconv.ParseInt(_, 10, 64)\<close>: an optional sign, at least one
  digit, nothing else, and a value that fits in 64 bits.\<close>

definition split_sign :: "string \<Rightarrow> bool \<times> string" where
  "split_sign s = (case s of [] \<Rightarrow> (False, [])
     | c # cs \<Rightarrow> if c = CHR ''-'' then (True, cs) else if c = CHR ''+'' then (False, cs) else (False, s))"

definition atoi :: "string \<Rightarrow> int option" where
  "atoi s = (case split_sign s of (neg, ds) \<Rightarrow>
     if ds = [] \<or> \<not> list_all is_digit ds then None
     else let v = (if neg then - int (digits_value 0 ds) else int (digits_value 0 ds))
          in if in_int64 v then Some v else None)"

lemma of_char_digit: "d < 10 \<Longrightarrow> of_char (digit_char d) = (48 + d :: nat)"
  by (simp add: digit_char_def)

lemma is_digit_digit_char [simp]: "d < 10 \<Longrightarrow> is_digit (digit_char d)"
  by (simp add: is_digit_def of_char_digit)

lemma digit_val_digit_char [simp]: "d < 10 \<Longrightarrow> digit_val (digit_char d) = d"
  by (simp add: digit_val_def of_char_digit)

lemma nat_digits_not_Nil [simp]: "nat_digits n \<noteq> []"
  by (subst nat_digits.simps) simp

lemma nat_digits_digits: "list_all is_digit (nat_digits n)"
proof (induction n rule: nat_digits.induct)
  case (1 n)
  then show ?case by (subst nat_digits.simps) auto
qed

lemma digits_value_append: "digits_value acc (xs @ [c]) = 10 * digits_value acc xs + digit_val c"
  by (induction xs arbitrary: acc) auto

lemma digits_value_nat_digits [simp]: "digits_value 0 (nat_digits n) = n"
proof (induction n rule: nat_digits.induct)
  case (1 n)
  show ?case
  proof (cases "n < 10")
    case True
    then show ?thesis by (subst nat_digits.simps) simp
  next
    case False
    with 1 have "digits_value 0 (nat_digits (n div 10)) = n div 10" by simp
    with False show ?thesis by (subst nat_digits.simps) (simp add: digits_value_append)
  qed
qed

lemma is_digit_no_sign: "is_digit c \<Longrightarrow> c \<noteq> CHR ''-'' \<and> c \<noteq> CHR ''+''"
  by (auto simp: is_digit_def)

lemma split_sign_nat_digits: "split_sign (nat_digits n) = (False, nat_digits n)"
proof (cases "nat_digits n")
  case Nil
  then show ?thesis by simp
next
  case (Cons c cs)
  then have "is_digit c" using nat_digits_digits [of n] by simp
  then show ?thesis using Cons by (auto simp: split_sign_def dest: is_digit_no_sign)
qed

lemma atoi_itoa: "in_int64 i \<Longrightarrow> atoi (itoa i) = Some i"
proof (cases "i < 0")
  case True
  then have "split_sign (itoa i) = (True, nat_digits (nat (- i)))"
    by (simp add: itoa_def split_sign_def)
  with True show "in_int64 i \<Longrightarrow> atoi (itoa i) = Some i"
    by (simp add: atoi_def nat_digits_digits)
next
  case False
  then have "split_sign (itoa i) = (False, nat_digits (nat i))"
    by (simp add: itoa_def split_sign_nat_digits)
  with False show "in_int64 i \<Longrightarrow> atoi (itoa i) = Some i"
    by (simp add: atoi_def nat_digits_digits)
qed

section \<open>Bytes and strings\<close>

definition to_lower :: "char \<Rightarrow> char" where
  "to_lower c = (if 65 \<le> (of_char c :: nat) \<and> (of_char c :: nat) \<le> 90
                 then char_of ((of_char c :: nat) + 32) else c)"

text \<open>\<open>strings.Contains\<close>.\<close>

fun contains_sub :: "string \<Rightarrow> string \<Rightarrow> bool" where
  "contains_sub [] sub = (sub = [])"
| "contains_sub (c # cs) sub = (prefix sub (c # cs) \<or> contains_sub cs sub)"

lemma contains_sub_iff: "contains_sub s sub \<longleftrightarrow> sublist sub s"
  by (induction s) (auto simp: sublist_Cons_right)

text \<open>
  \<open>strings.TrimSpace\<close> removes leading and trailing Unicode white space.  The white-space runes
  are listed by their UTF-8 bytes.
\<close>

definition space_runes :: "string list" where
  "space_runes =
    [[CHR 0x09], [CHR 0x0A], [CHR 0x0B], [CHR 0x0C], [CHR 0x0D], [CHR 0x20],
     [CHR 0xC2, CHR 0x85], [CHR 0xC2, CHR 0xA0], [CHR 0xE1, CHR 0x9A, CHR 0x80],
     [CHR 0xE2, CHR 0x80, CHR 0x80], [CHR 0xE2, CHR 0x80, CHR 0x81], [CHR 0xE2, CHR 0x80, CHR 0x82],
     [CHR 0xE2, CHR 0x80, CHR 0x83], [CHR 0xE2, CHR 0x80, CHR 0x84], [CHR 0xE2, CHR 0x80, CHR 0x85],
     [CHR 0xE2, CHR 0x80, CHR 0x86], [CHR 0xE2, CHR 0x80, CHR 0x87], [CHR 0xE2, CHR 0x80, CHR 0x88],
     [CHR 0xE2, CHR 0x80, CHR 0x89], [CHR 0xE2, CHR 0x80, CHR 0x8A], [CHR 0xE2, CHR 0x80, CHR 0xA8],
     [CHR 0xE2, CHR 0x80, CHR 0xA9], [CHR 0xE2, CHR 0x80, CHR 0xAF], [CHR 0xE2, CHR 0x81, CHR 0x9F],
     [CHR 0xE3, CHR 0x80, CHR 0x80]]"

function trim_by :: "string list \<Rightarrow> string \<Rightarrow> string" where
  "trim_by ps s = (case find (\<lambda>p. p \<noteq> [] \<and> prefix p s) ps of
      None \<Rightarrow> s
    | Some p \<Rightarrow> trim_by ps (drop (length p) s))"
  by pat_completeness auto
termination
  by (relation "measure (\<lambda>(ps, s). length s)") (auto simp: find_Some_iff prefix_def)

declare trim_by.simps [simp del]

definition trim_space :: "string \<Rightarrow> string" where
  "trim_space s = rev (trim_by (map rev space_runes) (rev (trim_by space_runes s)))"

lemma trim_by_suffix: "\<exists>p. s = p @ trim_by ps s"
proof (induction ps s rule: trim_by.induct)
  case (1 ps s)
  show ?case
  proof (cases "find (\<lambda>p. p \<noteq> [] \<and> prefix p s) ps")
    case None
    then show ?thesis by (simp add: trim_by.simps)
  next
    case (Some p)
    then have "prefix p s" by (auto simp: find_Some_iff)
    then have s: "s = p @ drop (length p) s" by (auto simp: prefix_def)
    from 1 [OF Some] obtain q where "drop (length p) s = q @ trim_by ps (drop (length p) s)" ..
    with s Some have "s = (p @ q) @ trim_by ps s" by (simp add: trim_by.simps [of ps s])
    then show ?thesis ..
  qed
qed

lemma trim_space_length: "length (trim_space s) \<le> length s"
proof -
  have "length (trim_by ps s) \<le> length s" for ps s
    using trim_by_suffix [of s ps] by (metis length_append le_add2)
  then show ?thesis unfolding trim_space_def
    by (metis length_rev order_trans)
qed

lemma trim_space_Nil [simp]: "trim_space [] = []"
  using trim_space_length [of "[]"] by simp

text \<open>Sorted copies without duplicates and empty entries, as the code builds them.\<close>

definition sorted_set :: "string list \<Rightarrow> string list" where
  "sorted_set xs = sort (remdups (filter (\<lambda>x. x \<noteq> []) xs))"

lemma set_sorted_set [simp]: "set (sorted_set xs) = set xs - {[]}"
  by (auto simp: sorted_set_def)

lemma sorted_set_props: "sorted (sorted_set xs)" "distinct (sorted_set xs)"
  by (simp_all add: sorted_set_def)

lemma sorted_set_cong: "set xs = set ys \<Longrightarrow> sorted_set xs = sorted_set ys"
  by (rule sorted_distinct_set_unique) (simp_all add: sorted_set_props)

lemma sorted_set_idem [simp]: "sorted_set (sorted_set xs) = sorted_set xs"
  by (rule sorted_distinct_set_unique) (simp_all add: sorted_set_props)

lemma sorted_set_Nil_iff: "sorted_set xs = [] \<longleftrightarrow> set xs \<subseteq> {[]}"
  by (metis Diff_eq_empty_iff set_empty set_sorted_set)

lemma map_sort_key: "map f (sort_key f xs) = sort (map f xs)"
  by (rule sym, rule properties_for_sort) simp_all

section \<open>String-keyed maps\<close>

text \<open>A Go \<open>map[string]string\<close> is an association list; reading a missing key gives the zero
  value, the empty string.\<close>

definition mget :: "strmap \<Rightarrow> string \<Rightarrow> string" where
  "mget m k = (case map_of m k of None \<Rightarrow> [] | Some v \<Rightarrow> v)"

definition mset_key :: "string \<Rightarrow> string \<Rightarrow> strmap \<Rightarrow> strmap" where
  "mset_key k v m = AList.update k v m"

definition wf_map :: "('k \<times> 'v) list \<Rightarrow> bool" where
  "wf_map m \<longleftrightarrow> distinct (map fst m)"

lemma map_of_mset_key [simp]: "map_of (mset_key k v m) = (map_of m)(k \<mapsto> v)"
  by (simp add: mset_key_def update_conv')

lemma wf_mset_key [simp]: "wf_map m \<Longrightarrow> wf_map (mset_key k v m)"
  by (simp add: wf_map_def mset_key_def distinct_update)

lemma wf_map_Nil [simp]: "wf_map []"
  by (simp add: wf_map_def)

text \<open>\<open>firstNonEmpty\<close> and similar fallbacks.\<close>

fun firstNonEmpty :: "string list \<Rightarrow> string" where
  "firstNonEmpty [] = []"
| "firstNonEmpty (v # vs) = (if v \<noteq> [] then v else firstNonEmpty vs)"

section \<open>Association-list equality\<close>

lemma card_keys: "wf_map m \<Longrightarrow> card (dom (map_of m)) = length m"
proof -
  assume "wf_map m"
  then have "card (set (map fst m)) = length (map fst m)"
    unfolding wf_map_def by (rule distinct_card)
  then show ?thesis by (simp add: dom_map_of_conv_image_fst)
qed

lemma map_of_le_eq:
  assumes "wf_map a" "wf_map b" "length a = length b" "map_of a \<subseteq>\<^sub>m map_of b"
  shows "map_of a = map_of b"
proof -
  have "dom (map_of a) \<subseteq> dom (map_of b)" using assms(4) by (rule map_le_implies_dom_le)
  moreover have "card (dom (map_of a)) = card (dom (map_of b))"
    using assms by (simp add: card_keys)
  ultimately have "dom (map_of a) = dom (map_of b)"
    by (simp add: card_subset_eq finite_dom_map_of)
  with assms(4) show ?thesis by (simp add: map_le_antisym map_le_def)
qed

end
