(* ===== verification/GoTime.thy ===== *)
theory GoTime
  imports Prelude
begin

text \<open>
  What the sources use of package time, in UTC.  An instant is an \<open>int\<close>, nanoseconds since the
  Unix epoch; the zero \<open>time.Time\<close> is midnight on 1 January of year 1.  \<open>time.Duration\<close> is an
  int64 of nanoseconds.  Dates are those of the proleptic Gregorian calendar.
\<close>

section \<open>Instants\<close>

abbreviation second :: int where
  "second \<equiv> 1000000000"

abbreviation minute :: int where
  "minute \<equiv> 60 * second"

abbreviation hour :: int where
  "hour \<equiv> 60 * minute"

definition zero_time :: int where
  "zero_time = - 62135596800 * second"

text \<open>\<open>time.Unix(sec, 0)\<close> keeps seconds since year 1 in an int64, which wraps around.\<close>

definition time_Unix :: "int \<Rightarrow> int" where
  "time_Unix sec = (wrap64 (sec + 62135596800) - 62135596800) * second"

definition time_UnixMilli :: "int \<Rightarrow> int" where
  "time_UnixMilli ms = time_Unix (ms div 1000) + ms mod 1000 * 1000000"

definition unix_secs :: "int \<Rightarrow> int" where
  "unix_secs t = t div second"

definition unix_millis :: "int \<Rightarrow> int" where
  "unix_millis t = t div 1000000"

definition plausible :: "int \<Rightarrow> bool" where
  "plausible t \<longleftrightarrow> - (2 ^ 62) \<le> t \<and> t < 2 ^ 62"

lemma time_Unix_id: "- (2 ^ 62) \<le> sec \<Longrightarrow> sec < 2 ^ 62 \<Longrightarrow> time_Unix sec = sec * second"
  by (simp add: time_Unix_def in_int64_def)

lemma unix_secs_mono: "s \<le> t \<Longrightarrow> unix_secs s \<le> unix_secs t"
  by (simp add: unix_secs_def zdiv_mono1)

lemma unix_secs_bounds: "unix_secs t * second \<le> t \<and> t < (unix_secs t + 1) * second"
  unfolding unix_secs_def using pos_mod_bound [of second t] pos_mod_sign [of second t]
    div_mult_mod_eq [of t second] by (simp add: algebra_simps) linarith

lemma unix_secs_int64: "- (2 ^ 63) \<le> t \<Longrightarrow> t < 2 ^ 63 \<Longrightarrow> in_int64 (unix_secs t)"
  using conjunct1 [OF unix_secs_bounds [of t]] conjunct2 [OF unix_secs_bounds [of t]]
  by (simp add: in_int64_def)

section \<open>The calendar\<close>

text \<open>Days from 1 January of year 1 to 1 January of year \<open>y\<close>, and the year a day falls in: an
  estimate from the mean year, off by at most one.\<close>

definition before_year :: "int \<Rightarrow> int" where
  "before_year y = 365 * (y - 1) + (y - 1) div 4 - (y - 1) div 100 + (y - 1) div 400"

definition year_of :: "int \<Rightarrow> int" where
  "year_of n = (let y = 1 + 400 * n div 146097 in
     if n < before_year y then y - 1 else if n \<ge> before_year (y + 1) then y + 1 else y)"

definition leap_year :: "int \<Rightarrow> bool" where
  "leap_year y \<longleftrightarrow> y mod 4 = 0 \<and> (y mod 100 \<noteq> 0 \<or> y mod 400 = 0)"

definition month_lengths :: "int \<Rightarrow> int list" where
  "month_lengths y = [31, if leap_year y then 29 else 28, 31, 30, 31, 30, 31, 31, 30, 31, 30, 31]"

fun find_month :: "int \<Rightarrow> int list \<Rightarrow> int \<Rightarrow> int \<times> int" where
  "find_month m [] d = (m, d)"
| "find_month m (l # ls) d = (if d < l then (m, d) else find_month (m + 1) ls (d - l))"

text \<open>Days since 1 January 1970 of a date, and the date of a day.\<close>

definition days_of_civil :: "int \<Rightarrow> int \<Rightarrow> int \<Rightarrow> int" where
  "days_of_civil y m d =
     before_year y + sum_list (take (nat (m - 1)) (month_lengths y)) + (d - 1) - 719162"

definition civil_of_days :: "int \<Rightarrow> int \<times> int \<times> int" where
  "civil_of_days z =
     (let n = z + 719162; y = year_of n
      in case find_month 1 (month_lengths y) (n - before_year y) of (m, r) \<Rightarrow> (y, m, r + 1))"

definition day_of :: "int \<Rightarrow> int" where
  "day_of t = t div (24 * hour)"

definition Year :: "int \<Rightarrow> int" where "Year t = fst (civil_of_days (day_of t))"
definition Month :: "int \<Rightarrow> int" where "Month t = fst (snd (civil_of_days (day_of t)))"
definition Day :: "int \<Rightarrow> int" where "Day t = snd (snd (civil_of_days (day_of t)))"

text \<open>\<open>time.Date(y, m, d, 0, 0, 0, 0, time.UTC)\<close>: a month or day out of range carries over.\<close>

definition Date_days :: "int \<Rightarrow> int \<Rightarrow> int \<Rightarrow> int" where
  "Date_days y m d = days_of_civil (y + (m - 1) div 12) ((m - 1) mod 12 + 1) 1 + (d - 1)"

definition Date_utc :: "int \<Rightarrow> int \<Rightarrow> int \<Rightarrow> int" where
  "Date_utc y m d = Date_days y m d * (24 * hour)"

definition AddDate :: "int \<Rightarrow> int \<Rightarrow> int \<Rightarrow> int \<Rightarrow> int" where
  "AddDate t ys ms ds = Date_utc (Year t + ys) (Month t + ms) (Day t + ds) + t mod (24 * hour)"

text \<open>\<open>Format(time.RFC3339)\<close> in UTC.\<close>

definition pad :: "nat \<Rightarrow> int \<Rightarrow> string" where
  "pad w i = (let ds = nat_digits (nat \<bar>i\<bar>)
     in (if i < 0 then ''-'' else []) @ replicate (w - length ds) (CHR ''0'') @ ds)"

definition format_RFC3339 :: "int \<Rightarrow> string" where
  "format_RFC3339 t = pad 4 (Year t) @ ''-'' @ pad 2 (Month t) @ ''-'' @ pad 2 (Day t) @ ''T''
     @ pad 2 (t div hour mod 24) @ '':'' @ pad 2 (t div minute mod 60) @ '':''
     @ pad 2 (t div second mod 60) @ ''Z''"

section \<open>Facts about the calendar\<close>

lemma div_succ:
  fixes k c :: int
  assumes "c > 0"
  shows "(k + 1) div c = k div c + (if (k + 1) mod c = 0 then 1 else 0)"
proof (cases "(k + 1) mod c = 0")
  case True
  then have a: "(k + 1) div c * c = k + 1" using div_mult_mod_eq [of "k + 1" c] by simp
  have "k div c = (k + 1) div c - 1"
    by (rule int_div_pos_eq [of _ _ _ "c - 1"]) (use a \<open>c > 0\<close> in \<open>auto simp: algebra_simps\<close>)
  with True show ?thesis by simp
next
  case False
  have b: "(k + 1) div c * c + (k + 1) mod c = k + 1" by (rule div_mult_mod_eq)
  have "0 < (k + 1) mod c" "(k + 1) mod c < c" using False \<open>c > 0\<close>
    by (simp_all add: le_neq_trans)
  then have "k div c = (k + 1) div c"
    by (intro int_div_pos_eq [of _ _ _ "(k + 1) mod c - 1"]) (use b in \<open>auto simp: algebra_simps\<close>)
  with False show ?thesis by simp
qed

lemma leap_count:
  fixes p q r p' q' r' :: int
  assumes "p = p' + (if a then 1 else 0)" "q = q' + (if b then 1 else 0)" "r = r' + (if c then 1 else 0)"
    and "b \<longrightarrow> a" "c \<longrightarrow> b"
  shows "p - q + r = p' - q' + r' + (if a \<and> (\<not> b \<or> c) then 1 else 0)"
  unfolding assms(1-3) using assms(4,5) by (cases a; cases b; cases c) simp_all

lemma year_step:
  fixes p q r p' q' r' k :: int
  assumes "p - q + r = p' - q' + r' + (if l then 1 else 0)" "k' = k"
  shows "365 * (k + 1) + p - q + r = 365 * k' + p' - q' + r' + (if l then 366 else 365)"
  using assms by (cases l) simp_all

lemma before_year_Suc: "before_year (y + 1) = before_year y + (if leap_year y then 366 else 365)"
proof -
  define k where "k = y - 1"
  then have y: "k + 1 = y" by simp
  have "y div 4 = k div 4 + (if y mod 4 = 0 then 1 else 0)"
    "y div 100 = k div 100 + (if y mod 100 = 0 then 1 else 0)"
    "y div 400 = k div 400 + (if y mod 400 = 0 then 1 else 0)"
    using div_succ [of 4 k] div_succ [of 100 k] div_succ [of 400 k] unfolding y
    by (simp_all only: zero_less_numeral simp_thms)
  note steps = this
  have "y mod 100 = 0 \<longrightarrow> y mod 4 = 0" "y mod 400 = 0 \<longrightarrow> y mod 100 = 0"
    using mod_mod_cancel [of 4 100 y] mod_mod_cancel [of 100 400 y] by auto
  from year_step [OF leap_count [OF steps this], of k k]
  have "365 * y + y div 4 - y div 100 + y div 400
      = 365 * k + k div 4 - k div 100 + k div 400 + (if leap_year y then 366 else 365)"
    unfolding leap_year_def y by (simp only: simp_thms)
  moreover have "before_year y = 365 * k + k div 4 - k div 100 + k div 400"
    "before_year (y + 1) = 365 * y + y div 4 - y div 100 + y div 400"
    by (simp_all only: before_year_def k_def add_diff_cancel_right')
  ultimately show ?thesis by (simp only:)
qed

lemma div_bounds: "0 < c \<Longrightarrow> c * (a div c) \<le> a \<and> a < c * (a div c) + (c :: int)"
  using mult_div_mod_eq [of c a] pos_mod_sign [of c a] pos_mod_bound [of c a] by linarith

lemma before_year_mean:
  "400 * before_year y \<ge> 146097 * (y - 1) - 800 \<and> 400 * before_year y \<le> 146097 * (y - 1) + 800"
  using div_bounds [of 4 "y - 1"] div_bounds [of 100 "y - 1"] div_bounds [of 400 "y - 1"]
  unfolding before_year_def by simp

lemma year_of_spec: "before_year (year_of n) \<le> n" "n < before_year (year_of n + 1)"
proof -
  define y where "y = 1 + 400 * n div 146097"
  have e: "146097 * (y - 1) \<le> 400 * n" "400 * n < 146097 * y"
    using div_bounds [of 146097 "400 * n"] by (simp_all add: y_def)
  have lo: "before_year (y - 1) \<le> n" using before_year_mean [of "y - 1", THEN conjunct2] e by (simp add: algebra_simps)
  have hi: "n < before_year (2 + y)" using before_year_mean [of "2 + y", THEN conjunct1] e by (simp add: algebra_simps)
  show "before_year (year_of n) \<le> n" "n < before_year (year_of n + 1)"
    using lo hi by (auto simp: year_of_def Let_def simp flip: y_def)
qed

lemma before_year_mono: "y \<le> z \<Longrightarrow> before_year y \<le> before_year z"
proof -
  assume "y \<le> z"
  moreover have "before_year y \<le> before_year (y + int k)" for k
  proof (induction k)
    case (Suc k)
    then show ?case using before_year_Suc [of "y + int k"] by (simp add: algebra_simps split: if_splits)
  qed simp
  from this [of "nat (z - y)"] \<open>y \<le> z\<close> show ?thesis by simp
qed

lemma year_of_unique:
  assumes "before_year y \<le> n" "n < before_year (y + 1)" shows "year_of n = y"
proof (rule antisym)
  show "year_of n \<le> y"
    using before_year_mono [of "y + 1" "year_of n"] year_of_spec(1) [of n] assms(2) by linarith
  show "y \<le> year_of n"
    using before_year_mono [of "year_of n + 1" y] year_of_spec(2) [of n] assms(1) by linarith
qed

lemma find_month_spec:
  assumes "0 \<le> d" "d < sum_list ls" "list_all (\<lambda>l. 0 \<le> l) ls"
  shows "case find_month m ls d of (m', r) \<Rightarrow>
     m \<le> m' \<and> nat (m' - m) < length ls \<and> 0 \<le> r \<and> r < ls ! nat (m' - m)
     \<and> sum_list (take (nat (m' - m)) ls) + r = d"
  using assms
proof (induction ls arbitrary: m d)
  case Nil
  then show ?case by simp
next
  case (Cons l ls)
  show ?case
  proof (cases "d < l")
    case True
    with Cons.prems show ?thesis by simp
  next
    case False
    obtain m' r where mr: "find_month (m + 1) ls (d - l) = (m', r)" by fastforce
    from Cons.IH [of "d - l" "m + 1"] Cons.prems False mr
    have IH: "m + 1 \<le> m'" "nat (m' - (m + 1)) < length ls" "0 \<le> r" "r < ls ! nat (m' - (m + 1))"
      "sum_list (take (nat (m' - (m + 1))) ls) + r = d - l" by auto
    then have n: "nat (m' - m) = Suc (nat (m' - (m + 1)))" by simp
    show ?thesis using False mr IH by (simp add: n)
  qed
qed

lemma find_month_inv:
  assumes "k < length ls" "0 \<le> r" "r < ls ! k" "list_all (\<lambda>l. 0 \<le> l) ls"
  shows "find_month m ls (sum_list (take k ls) + r) = (m + int k, r)"
  using assms
proof (induction ls arbitrary: m k)
  case Nil
  then show ?case by simp
next
  case (Cons l ls)
  show ?case
  proof (cases k)
    case 0
    with Cons show ?thesis by simp
  next
    case (Suc k')
    have "0 \<le> sum_list (take k' ls)"
      using Cons.prems(4) by (intro sum_list_nonneg) (auto simp: list_all_iff dest: in_set_takeD)
    with Cons Suc show ?thesis by simp
  qed
qed

lemma month_lengths_facts:
  "length (month_lengths y) = 12" "list_all (\<lambda>l. 28 \<le> l \<and> l \<le> 31) (month_lengths y)"
  "list_all (\<lambda>l. 0 \<le> l) (month_lengths y)"
  "sum_list (month_lengths y) = before_year (y + 1) - before_year y"
  by (simp_all add: month_lengths_def before_year_Suc)

text \<open>The fields of a date, and their ranges.\<close>

definition valid_date :: "int \<Rightarrow> int \<Rightarrow> int \<Rightarrow> bool" where
  "valid_date y m d \<longleftrightarrow> 1 \<le> m \<and> m \<le> 12 \<and> 1 \<le> d \<and> d \<le> month_lengths y ! nat (m - 1)"

lemma civil_of_days_spec:
  assumes "civil_of_days z = (y, m, d)"
  shows "valid_date y m d \<and> days_of_civil y m d = z"
proof -
  define n where "n = z + 719162"
  have y: "y = year_of n" using assms by (auto simp: civil_of_days_def Let_def n_def split: prod.splits)
  obtain r where r: "find_month 1 (month_lengths y) (n - before_year y) = (m, r)" "d = r + 1"
    using assms y by (auto simp: civil_of_days_def Let_def n_def split: prod.splits)
  from year_of_spec [of n] y have "0 \<le> n - before_year y" "n - before_year y < sum_list (month_lengths y)"
    by (simp_all add: month_lengths_facts)
  from find_month_spec [OF this month_lengths_facts(3), of 1] r
  show ?thesis by (auto simp: valid_date_def days_of_civil_def month_lengths_facts n_def)
qed

lemma civil_of_days_of_civil:
  assumes "valid_date y m d"
  shows "civil_of_days (days_of_civil y m d) = (y, m, d)"
proof -
  let ?k = "nat (m - 1)" and ?ls = "month_lengths y"
  from assms have k: "?k < length ?ls" "0 \<le> d - 1" "d - 1 < ?ls ! ?k" "m = 1 + int ?k"
    by (auto simp: valid_date_def month_lengths_facts)
  have "sum_list ?ls = sum_list (take (Suc ?k) ?ls) + sum_list (drop (Suc ?k) ?ls)"
    by (metis append_take_drop_id sum_list_append)
  moreover have "0 \<le> sum_list (drop (Suc ?k) ?ls)" "0 \<le> sum_list (take ?k ?ls)"
    using month_lengths_facts(3) [of y]
    by (auto intro!: sum_list_nonneg simp: list_all_iff dest: in_set_takeD in_set_dropD)
  ultimately have "0 \<le> sum_list (take ?k ?ls) + (d - 1)" "sum_list (take ?k ?ls) + (d - 1) < sum_list ?ls"
    using k by (simp_all add: take_Suc_conv_app_nth)
  then have "year_of (before_year y + (sum_list (take ?k ?ls) + (d - 1))) = y"
    by (intro year_of_unique) (simp_all add: month_lengths_facts)
  then show ?thesis
    using find_month_inv [OF k(1-3) month_lengths_facts(3), of 1] k(4)
    by (simp add: civil_of_days_def days_of_civil_def Let_def algebra_simps)
qed

lemma Date_utc_civil: "1 \<le> m \<Longrightarrow> m \<le> 12 \<Longrightarrow> Date_utc y m d = days_of_civil y m d * (24 * hour)"
  by (simp add: Date_utc_def Date_days_def days_of_civil_def)

lemma date_fields: "valid_date (Year t) (Month t) (Day t)"
  "days_of_civil (Year t) (Month t) (Day t) = day_of t"
proof -
  obtain y m d where "civil_of_days (day_of t) = (y, m, d)" by (cases "civil_of_days (day_of t)")
  with civil_of_days_spec show "valid_date (Year t) (Month t) (Day t)"
    "days_of_civil (Year t) (Month t) (Day t) = day_of t"
    by (simp_all add: Year_def Month_def Day_def)
qed

lemma fields_of_date:
  assumes "valid_date y m d" "0 \<le> u" "u < 24 * hour"
  shows "Year (Date_utc y m d + u) = y" "Month (Date_utc y m d + u) = m" "Day (Date_utc y m d + u) = d"
proof -
  from assms have "Date_utc y m d = days_of_civil y m d * (24 * hour)"
    by (intro Date_utc_civil) (auto simp: valid_date_def)
  then have "day_of (Date_utc y m d + u) = days_of_civil y m d"
    using assms(2,3) by (simp add: day_of_def)
  then show "Year (Date_utc y m d + u) = y" "Month (Date_utc y m d + u) = m" "Day (Date_utc y m d + u) = d"
    by (simp_all add: Year_def Month_def Day_def civil_of_days_of_civil [OF assms(1)])
qed

end
