(* ===== verification/Errors.thy ===== *)
theory Errors
  imports GoTime
begin

text \<open>
  internal/amberflo/errors.go and the error classifier of internal/amberflo/metrics.go.  A Go
  error is a value of \<open>goerr\<close>: a plain error, one of the package's sentinels, the two
  classified errors with the error they wrap, or a \<open>fmt.Errorf\<close> text around \<open>%w\<close>.
  \<open>errors.As\<close> and \<open>errors.Is\<close> walk that chain.  \<open>http.ParseTime\<close> is the parameter
  \<open>http_date\<close> (an instant in nanoseconds since the epoch, or none).
\<close>

section \<open>Error values\<close>

datatype sentinel =
    ErrCustomerNotFound
  | ErrMeterNotFound
  | ErrInvoiceNotFound
  | ErrProductPlanNotFound
  | ErrCustomerPlanNotFound

datatype goerr =
    Plain string
  | Sentinel sentinel
  | TransientError (te_Err: goerr) (te_StatusCode: int) (te_RetryAfter: int)
  | PermanentError (pe_Err: goerr) (pe_StatusCode: int) (pe_ResponseBody: string)
  | Wrap string goerr string

fun sentinel_text :: "sentinel \<Rightarrow> string" where
  "sentinel_text ErrCustomerNotFound = ''amberflo: customer not found''"
| "sentinel_text ErrMeterNotFound = ''amberflo: meter not found''"
| "sentinel_text ErrInvoiceNotFound = ''amberflo: invoice not found''"
| "sentinel_text ErrProductPlanNotFound = ''amberflo: product plan not found''"
| "sentinel_text ErrCustomerPlanNotFound = ''amberflo: customer plan not found''"

text \<open>The two \<open>Error\<close> methods, and the text of every other error.\<close>

fun err_text :: "goerr \<Rightarrow> string" where
  "err_text (Plain t) = t"
| "err_text (Sentinel k) = sentinel_text k"
| "err_text (TransientError e st ra) =
     (if st \<noteq> 0 then ''amberflo: transient error (status='' @ itoa st @ ''): '' @ err_text e
      else ''amberflo: transient error: '' @ err_text e)"
| "err_text (PermanentError e st body) =
     (if st \<noteq> 0 then ''amberflo: permanent error (status='' @ itoa st @ ''): '' @ err_text e
      else ''amberflo: permanent error: '' @ err_text e)"
| "err_text (Wrap pre e post) = pre @ err_text e @ post"

text \<open>The \<open>Unwrap\<close> methods.\<close>

fun unwrap :: "goerr \<Rightarrow> goerr option" where
  "unwrap (TransientError e st ra) = Some e"
| "unwrap (PermanentError e st body) = Some e"
| "unwrap (Wrap pre e post) = Some e"
| "unwrap _ = None"

text \<open>\<open>errors.As\<close> for the two classified errors: the first one along the chain.\<close>

fun as_transient :: "goerr \<Rightarrow> goerr option" where
  "as_transient (TransientError e st ra) = Some (TransientError e st ra)"
| "as_transient (PermanentError e st body) = as_transient e"
| "as_transient (Wrap pre e post) = as_transient e"
| "as_transient _ = None"

fun as_permanent :: "goerr \<Rightarrow> goerr option" where
  "as_permanent (PermanentError e st body) = Some (PermanentError e st body)"
| "as_permanent (TransientError e st ra) = as_permanent e"
| "as_permanent (Wrap pre e post) = as_permanent e"
| "as_permanent _ = None"

fun errors_Is :: "goerr \<Rightarrow> sentinel \<Rightarrow> bool" where
  "errors_Is (Sentinel k) t = (k = t)"
| "errors_Is (TransientError e st ra) t = errors_Is e t"
| "errors_Is (PermanentError e st body) t = errors_Is e t"
| "errors_Is (Wrap pre e post) t = errors_Is e t"
| "errors_Is (Plain x) t = False"

definition IsTransient :: "goerr \<Rightarrow> bool" where
  "IsTransient err \<longleftrightarrow> as_transient err \<noteq> None"

definition IsPermanent :: "goerr \<Rightarrow> bool" where
  "IsPermanent err \<longleftrightarrow> as_permanent err \<noteq> None"

text \<open>The pattern \<open>errors.As(err, &perm) && perm.StatusCode == http.StatusNotFound\<close>.\<close>

definition perm_status :: "goerr \<Rightarrow> int option" where
  "perm_status err = map_option pe_StatusCode (as_permanent err)"

definition is_404 :: "goerr \<Rightarrow> bool" where
  "is_404 err \<longleftrightarrow> perm_status err = Some 404"

text \<open>The text the duplicate-name recognisers look at: the captured response body, or else the
  text of the wrapped error.\<close>

definition perm_message :: "goerr \<Rightarrow> string option" where
  "perm_message err = map_option
     (\<lambda>p. if pe_ResponseBody p = [] then err_text (pe_Err p) else pe_ResponseBody p)
     (as_permanent err)"

definition perm_contains :: "goerr \<Rightarrow> string \<Rightarrow> bool" where
  "perm_contains err sub = (case perm_message err of None \<Rightarrow> False | Some m \<Rightarrow> contains_sub m sub)"

abbreviation permanent :: "string \<Rightarrow> goerr" where
  "permanent msg \<equiv> PermanentError (Plain msg) 0 []"

lemma IsTransient_simps [simp]:
  "\<not> IsTransient (Plain t)" "\<not> IsTransient (Sentinel k)"
  "IsTransient (TransientError e st ra)"
  "IsTransient (PermanentError e st body) = IsTransient e"
  "IsTransient (Wrap pre e post) = IsTransient e"
  by (simp_all add: IsTransient_def)

lemma IsPermanent_simps [simp]:
  "\<not> IsPermanent (Plain t)" "\<not> IsPermanent (Sentinel k)"
  "IsPermanent (PermanentError e st body)"
  "IsPermanent (TransientError e st ra) = IsPermanent e"
  "IsPermanent (Wrap pre e post) = IsPermanent e"
  by (simp_all add: IsPermanent_def)

lemma perm_status_simps [simp]:
  "perm_status (Plain t) = None" "perm_status (Sentinel k) = None"
  "perm_status (PermanentError e st body) = Some st"
  "perm_status (TransientError e st ra) = perm_status e"
  "perm_status (Wrap pre e post) = perm_status e"
  by (simp_all add: perm_status_def)

lemma is_404_IsPermanent: "is_404 e \<Longrightarrow> IsPermanent e"
  by (auto simp: is_404_def perm_status_def IsPermanent_def)

lemma as_transient_shape: "as_transient e = Some t \<Longrightarrow> \<exists>i st ra. t = TransientError i st ra"
  by (induction e) auto

lemma as_permanent_shape: "as_permanent e = Some t \<Longrightarrow> \<exists>i st b. t = PermanentError i st b"
  by (induction e) auto

section \<open>Classifying an HTTP outcome\<close>

text \<open>What \<open>httpClient.Do\<close> gives: a network-level failure with its text, or a response with its
  status, its \<open>Retry-After\<close> header (empty when absent) and its body.\<close>

datatype http_outcome =
    NetError string
  | Response (rs_StatusCode: int) (rs_RetryAfter: string) (rs_Body: string)

definition parseRetryAfter :: "(string \<Rightarrow> int option) \<Rightarrow> int \<Rightarrow> string \<Rightarrow> int" where
  "parseRetryAfter http_date now h =
     (let h' = trim_space h in
      if h' = [] then 0
      else case atoi h' of
        Some secs \<Rightarrow>
          if secs \<ge> 0 then wrap64 (secs * second)
          else (case http_date h' of None \<Rightarrow> 0 | Some t \<Rightarrow> max 0 (min (t - now) (2 ^ 63 - 1)))
      | None \<Rightarrow>
          (case http_date h' of None \<Rightarrow> 0 | Some t \<Rightarrow> max 0 (min (t - now) (2 ^ 63 - 1))))"

definition maxBody :: nat where
  "maxBody = 4096"

definition body_snippet :: "string \<Rightarrow> string" where
  "body_snippet body =
     (let b = trim_space body in
      if length b > maxBody then take maxBody b @ ''...(truncated)'' else b)"

definition classify :: "(string \<Rightarrow> int option) \<Rightarrow> int \<Rightarrow> http_outcome \<Rightarrow> goerr option" where
  "classify http_date now out = (case out of
     NetError t \<Rightarrow> Some (TransientError (Plain t) 0 0)
   | Response status ra body \<Rightarrow>
      (let snippet = body_snippet body in
       if 200 \<le> status \<and> status < 300 then None
       else if status = 429 then
         Some (TransientError (Plain (''rate limited by amberflo: '' @ snippet)) status
                 (parseRetryAfter http_date now ra))
       else if status = 401 \<or> status = 403 then
         Some (PermanentError (Plain (''amberflo rejected authentication (status='' @ itoa status
                 @ ''); verify X-API-KEY is set and valid: '' @ snippet)) status snippet)
       else if status \<ge> 500 then
         Some (TransientError (Plain (''amberflo server error: '' @ snippet)) status
                 (parseRetryAfter http_date now ra))
       else if status \<ge> 400 then
         Some (PermanentError (Plain (''amberflo rejected request: '' @ snippet)) status snippet)
       else
         Some (PermanentError (Plain (''unexpected status from amberflo (status='' @ itoa status
                 @ ''): '' @ snippet)) status snippet)))"

text \<open>The specification the classifier meets: what is worth retrying.\<close>

definition success_outcome :: "http_outcome \<Rightarrow> bool" where
  "success_outcome out = (case out of NetError t \<Rightarrow> False | Response st ra b \<Rightarrow> 200 \<le> st \<and> st < 300)"

definition retryable_outcome :: "http_outcome \<Rightarrow> bool" where
  "retryable_outcome out = (case out of NetError t \<Rightarrow> True | Response st ra b \<Rightarrow> st = 429 \<or> st \<ge> 500)"

lemma classify_None_iff: "classify pd now out = None \<longleftrightarrow> success_outcome out"
  by (cases out) (auto simp: classify_def success_outcome_def Let_def)

lemma classify_Some_iff:
  "classify pd now out = Some e \<Longrightarrow>
     (IsTransient e \<longleftrightarrow> retryable_outcome out) \<and> (IsPermanent e \<longleftrightarrow> \<not> retryable_outcome out)"
  by (cases out) (auto simp: classify_def retryable_outcome_def Let_def split: if_splits)

lemma classify_status:
  "classify pd now (Response st ra b) = Some e \<Longrightarrow> IsPermanent e \<Longrightarrow> perm_status e = Some st"
  by (auto simp: classify_def Let_def split: if_splits)

lemma body_snippet_length: "length (body_snippet b) \<le> maxBody + 14"
  by (auto simp: body_snippet_def Let_def)

lemma parseRetryAfter_int64: "in_int64 (parseRetryAfter pd now h)"
proof -
  have "in_int64 (max 0 (min x (2 ^ 63 - 1)))" for x
    by (auto simp: in_int64_def)
  moreover have "in_int64 0" by (simp add: in_int64_def)
  ultimately show ?thesis
    by (simp add: parseRetryAfter_def Let_def wrap64_range split: option.split)
qed

section \<open>Metric labels\<close>

definition classifyForMetrics :: "goerr option \<Rightarrow> string \<times> string" where
  "classifyForMetrics err = (case err of
     None \<Rightarrow> (''success'', ''2xx'')
   | Some e \<Rightarrow>
      (if errors_Is e ErrCustomerNotFound \<or> errors_Is e ErrMeterNotFound \<or> errors_Is e ErrInvoiceNotFound
          \<or> errors_Is e ErrProductPlanNotFound \<or> errors_Is e ErrCustomerPlanNotFound
       then (''not_found'', ''4xx'')
       else case as_permanent e of
         Some p \<Rightarrow>
           (if pe_StatusCode p \<ge> 400 \<and> pe_StatusCode p < 500 then (''permanent'', ''4xx'')
            else if pe_StatusCode p \<ge> 500 then (''permanent'', ''5xx'')
            else (''permanent'', ''unknown''))
       | None \<Rightarrow>
          (case as_transient e of
             Some t \<Rightarrow>
               (if te_StatusCode t = 0 then (''transient'', ''network'')
                else if te_StatusCode t \<ge> 500 then (''transient'', ''5xx'')
                else if te_StatusCode t \<ge> 400 then (''transient'', ''4xx'')
                else (''transient'', ''unknown''))
           | None \<Rightarrow> (''unknown'', ''unknown''))))"

text \<open>The metric class of an outcome follows the status the server answered with.\<close>

definition status_class :: "http_outcome \<Rightarrow> string" where
  "status_class out = (case out of
     NetError t \<Rightarrow> ''network''
   | Response st ra b \<Rightarrow>
      (if 200 \<le> st \<and> st < 300 then ''2xx'' else if 400 \<le> st \<and> st < 500 then ''4xx''
       else if st \<ge> 500 then ''5xx'' else ''unknown''))"

section \<open>Properties\<close>

text \<open>
  Every HTTP outcome is classified in exactly one way: no error for a 2xx, a transient error
  for a network failure, 429 or 5xx, a permanent error for everything else, and the metric label
  of the error is the class of the status the server answered with.
\<close>

theorem classify_partition:
  "(classify pd now out = None \<longleftrightarrow> success_outcome out)
   \<and> (\<exists>e. classify pd now out = Some e \<and> IsTransient e \<and> \<not> IsPermanent e) = retryable_outcome out
   \<and> (\<exists>e. classify pd now out = Some e \<and> IsPermanent e \<and> \<not> IsTransient e)
       = (\<not> success_outcome out \<and> \<not> retryable_outcome out)
   \<and> snd (classifyForMetrics (classify pd now out)) = status_class out"
proof (cases out)
  case (NetError t)
  then show ?thesis
    by (simp add: classify_def success_outcome_def retryable_outcome_def classifyForMetrics_def status_class_def)
next
  case (Response st ra b)
  have "snd (classifyForMetrics (classify pd now out)) = status_class out"
    using Response by (simp add: classify_def classifyForMetrics_def status_class_def Let_def)
  moreover have "success_outcome out \<Longrightarrow> \<not> retryable_outcome out"
    using Response by (auto simp: success_outcome_def retryable_outcome_def)
  ultimately show ?thesis
    using classify_None_iff [of pd now out] classify_Some_iff [of pd now out]
    by (cases "classify pd now out") auto
qed

end
