(* ===== verification/Transport.thy ===== *)
theory Transport
  imports Errors
begin

text \<open>
  internal/amberflo/client.go and ratelimit.go: how one Amberflo call becomes HTTP requests.
  The outside world is a state of any type \<open>'w\<close>; \<open>client\<close> holds the client's configuration and
  the operations it performs on the world: sending a request, asking the context whether it is
  cancelled, waiting for the rate limiter, sleeping, drawing jitter and reading the clock.  The
  client's own state is \<open>net\<close>: the world and the log of what was sent and how long it slept.
\<close>

section \<open>Requests and client\<close>

record http_req =
  rq_Method :: string
  rq_Path :: string
  rq_RawQuery :: string
  rq_Headers :: strmap
  rq_Body :: "string option"

datatype activity = Sent http_req http_outcome | Slept int

record 'w net =
  net_world :: 'w
  net_log :: "activity list"

record 'w client =
  cl_apiKey :: string
  cl_userAgent :: string
  cl_retries :: int
  cl_do :: "http_req \<Rightarrow> 'w \<Rightarrow> http_outcome \<times> 'w"
  cl_ctx_err :: "'w \<Rightarrow> goerr option"
  cl_wait :: "'w \<Rightarrow> goerr option \<times> 'w"
  cl_sleep :: "int \<Rightarrow> 'w \<Rightarrow> goerr option \<times> 'w"
  cl_jitter :: "int \<Rightarrow> 'w \<Rightarrow> int \<times> 'w"
  cl_now :: "'w \<Rightarrow> int"
  cl_http_date :: "string \<Rightarrow> int option"

text \<open>A request body: none, the marshalled bytes, or the error of \<open>json.Marshal\<close>.\<close>

datatype body_arg = NoBody | Encoded string | EncodeError goerr

record 'a reply =
  rp_status :: int
  rp_body :: string
  rp_err :: "goerr option"
  rp_val :: 'a

section \<open>Options and constants\<close>

definition defaultRetryAttempts :: int where
  "defaultRetryAttempts = 4"

definition retryBaseDelay :: int where
  "retryBaseDelay = 100000000"

definition retryMaxDelay :: int where
  "retryMaxDelay = 2 * second"

definition normalizeRetries :: "int \<Rightarrow> int" where
  "normalizeRetries n = (if n \<le> 0 then defaultRetryAttempts else n)"

definition newRateLimiter :: "int \<Rightarrow> int \<times> int" where
  "newRateLimiter perSec = (let r = (if perSec \<le> 0 then 10 else perSec) in (r, r))"

text \<open>\<open>NewClient\<close>: the options are checked and defaulted.  \<open>url.Parse\<close> is the parameter \<open>parse_url\<close>, which
  gives the scheme and host; the world the client works on is \<open>env\<close>.\<close>

record ClientOptions =
  op_APIKey :: string
  op_BaseURL :: string
  op_UserAgent :: string
  op_RetryAttempts :: int
  op_RateLimitPerSec :: int

definition defaultBaseURL :: string where
  "defaultBaseURL = ''https://app.amberflo.io''"

definition defaultUserAgent :: string where
  "defaultUserAgent = ''amberflo-provider/dev''"

definition NewClient :: "(string \<Rightarrow> (string \<times> string) option) \<Rightarrow> 'w client \<Rightarrow> ClientOptions \<Rightarrow> goerr + 'w client" where
  "NewClient parse_url env opts =
     (if trim_space (op_APIKey opts) = [] then Inl (Plain ''amberflo: APIKey is required'')
      else case parse_url (if op_BaseURL opts = [] then defaultBaseURL else op_BaseURL opts) of
        None \<Rightarrow> Inl (Plain ''amberflo: invalid BaseURL'')
      | Some (scheme, host) \<Rightarrow>
          if scheme = [] \<or> host = [] then Inl (Plain ''amberflo: invalid BaseURL'')
          else Inr (env\<lparr>cl_apiKey := op_APIKey opts,
            cl_userAgent := (if op_UserAgent opts = [] then defaultUserAgent else op_UserAgent opts),
            cl_retries := normalizeRetries (op_RetryAttempts opts)\<rparr>))"

text \<open>\<open>resolve\<close>: the path gets a leading slash and is split at its first question mark.\<close>

fun split_query :: "string \<Rightarrow> string \<times> string" where
  "split_query [] = ([], [])"
| "split_query (c # cs) =
     (if c = CHR ''?'' then ([], cs) else (case split_query cs of (p, q) \<Rightarrow> (c # p, q)))"

definition resolve :: "string \<Rightarrow> string \<times> string" where
  "resolve relPath = split_query (if prefix ''/'' relPath then relPath else ''/'' @ relPath)"

text \<open>\<open>http.NewRequestWithContext\<close> refuses a URL with a control byte; \<open>resolve\<close> leaves the query
  unescaped, so that is where one can be.\<close>

definition is_ctl :: "char \<Rightarrow> bool" where
  "is_ctl c \<longleftrightarrow> (of_char c :: nat) < 32 \<or> (of_char c :: nat) = 127"

definition build_request :: "'w client \<Rightarrow> string \<Rightarrow> string \<Rightarrow> string option \<Rightarrow> http_req option" where
  "build_request c meth path body = (case resolve path of (p, q) \<Rightarrow>
     if list_ex is_ctl q then None
     else Some \<lparr> rq_Method = meth, rq_Path = p, rq_RawQuery = q,
       rq_Headers = [(''X-API-KEY'', cl_apiKey c), (''Accept'', ''application/json''),
                     (''User-Agent'', cl_userAgent c)]
                    @ (case body of None \<Rightarrow> [] | Some b \<Rightarrow> [(''Content-Type'', ''application/json'')]),
       rq_Body = body \<rparr>)"

section \<open>Retrying\<close>

text \<open>\<open>retryBaseDelay << (attempt-1)\<close> is a 64-bit shift.\<close>

definition base_delay :: "int \<Rightarrow> int" where
  "base_delay attempt =
     (let delay = wrap64 (retryBaseDelay * 2 ^ nat (attempt - 1))
      in if delay > retryMaxDelay \<or> delay < 0 then retryMaxDelay else delay)"

definition honour_retry_after :: "goerr \<Rightarrow> int \<Rightarrow> int" where
  "honour_retry_after err delay = (case as_transient err of
     Some te \<Rightarrow> (if te_RetryAfter te > 0 \<and> te_RetryAfter te > delay then te_RetryAfter te else delay)
   | None \<Rightarrow> delay)"

definition on_world :: "('w \<Rightarrow> 'a \<times> 'w) \<Rightarrow> ('w net, 'a) io" where
  "on_world f = State (\<lambda>s. case f (net_world s) of (x, w) \<Rightarrow> (x, s\<lparr>net_world := w\<rparr>))"

definition log_act :: "activity \<Rightarrow> ('w net, unit) io" where
  "log_act a = State (\<lambda>s. ((), s\<lparr>net_log := net_log s @ [a]\<rparr>))"

definition ctx_Err :: "'w client \<Rightarrow> ('w net, goerr option) io" where
  "ctx_Err c = State (\<lambda>s. (cl_ctx_err c (net_world s), s))"

definition now_of :: "'w client \<Rightarrow> ('w net, int) io" where
  "now_of c = State (\<lambda>s. (cl_now c (net_world s), s))"

definition send :: "'w client \<Rightarrow> http_req \<Rightarrow> ('w net, http_outcome) io" where
  "send c req = do {
     out \<leftarrow> on_world (cl_do c req);
     _ \<leftarrow> log_act (Sent req out);
     ret out
   }"

definition sleep :: "'w client \<Rightarrow> int \<Rightarrow> ('w net, goerr option) io" where
  "sleep c d = do { _ \<leftarrow> log_act (Slept d); on_world (cl_sleep c d) }"

definition backoff :: "'w client \<Rightarrow> int \<Rightarrow> goerr \<Rightarrow> ('w net, int) io" where
  "backoff c attempt err = do {
     delay \<leftarrow> on_world (cl_jitter c (base_delay attempt));
     ret (honour_retry_after err delay)
   }"

definition outcome_status :: "http_outcome \<Rightarrow> int" where
  "outcome_status out = (case out of NetError t \<Rightarrow> 0 | Response st ra b \<Rightarrow> st)"

definition outcome_body :: "http_outcome \<Rightarrow> string" where
  "outcome_body out = (case out of NetError t \<Rightarrow> [] | Response st ra b \<Rightarrow> b)"

definition decode_reply :: "(string \<Rightarrow> 'a option) \<Rightarrow> 'a \<Rightarrow> int \<Rightarrow> string \<Rightarrow> 'a reply" where
  "decode_reply dec zero status body =
     (if body = [] then \<lparr>rp_status = status, rp_body = body, rp_err = None, rp_val = zero\<rparr>
      else case dec body of
        Some v \<Rightarrow> \<lparr>rp_status = status, rp_body = body, rp_err = None, rp_val = v\<rparr>
      | None \<Rightarrow> \<lparr>rp_status = status, rp_body = body,
          rp_err = Some (PermanentError (Plain ''decode response body'') status body), rp_val = zero\<rparr>)"

definition fail_reply :: "'a \<Rightarrow> int \<Rightarrow> string \<Rightarrow> goerr \<Rightarrow> 'a reply" where
  "fail_reply zero status body e = \<lparr>rp_status = status, rp_body = body, rp_err = Some e, rp_val = zero\<rparr>"

text \<open>The loop of \<open>doJSON\<close>; \<open>n\<close> counts the attempts that are left, the current one included.\<close>

fun attempt_loop :: "'w client \<Rightarrow> string \<Rightarrow> string \<Rightarrow> string option \<Rightarrow> (string \<Rightarrow> 'a option) \<Rightarrow> 'a
    \<Rightarrow> nat \<Rightarrow> int \<Rightarrow> ('w net, 'a reply) io" where
  "attempt_loop c meth path body dec zero 0 attempt =
     ret \<lparr>rp_status = 0, rp_body = [], rp_err = None, rp_val = zero\<rparr>"
| "attempt_loop c meth path body dec zero (Suc n) attempt = do {
     cancelled \<leftarrow> ctx_Err c;
     case cancelled of Some e \<Rightarrow> ret (fail_reply zero 0 [] e) | None \<Rightarrow> do {
     waited \<leftarrow> on_world (cl_wait c);
     case waited of Some e \<Rightarrow> ret (fail_reply zero 0 [] e) | None \<Rightarrow>
     case build_request c meth path body of
       None \<Rightarrow> ret (fail_reply zero 0 [] (permanent ''build request''))
     | Some req \<Rightarrow> do {
         out \<leftarrow> send c req;
         now \<leftarrow> now_of c;
         case classify (cl_http_date c) now out of
           None \<Rightarrow> ret (decode_reply dec zero (outcome_status out) (outcome_body out))
         | Some e \<Rightarrow>
             if IsPermanent e \<or> n = 0
             then ret (fail_reply zero (outcome_status out) (outcome_body out) e)
             else do {
               delay \<leftarrow> backoff c attempt e;
               woken \<leftarrow> sleep c delay;
               case woken of
                 Some e' \<Rightarrow> ret (fail_reply zero (outcome_status out) (outcome_body out) e')
               | None \<Rightarrow> attempt_loop c meth path body dec zero n (attempt + 1)
             }
       }
     }
   }"

definition doJSON :: "'w client \<Rightarrow> string \<Rightarrow> string \<Rightarrow> body_arg \<Rightarrow> (string \<Rightarrow> 'a option) \<Rightarrow> 'a
    \<Rightarrow> ('w net, 'a reply) io" where
  "doJSON c meth path body dec zero = (case body of
     EncodeError e \<Rightarrow>
       ret (fail_reply zero 0 [] (PermanentError (Wrap ''encode request body: '' e []) 0 []))
   | NoBody \<Rightarrow> attempt_loop c meth path None dec zero (nat (cl_retries c)) 1
   | Encoded b \<Rightarrow> attempt_loop c meth path (Some b) dec zero (nat (cl_retries c)) 1)"

text \<open>The decoder used when the caller passes no target.\<close>

definition dec_none :: "string \<Rightarrow> unit option" where
  "dec_none s = Some ()"

section \<open>Running the primitives\<close>

lemma run_on_world [run_simps]:
  "run_state (on_world f) s = (fst (f (net_world s)), s\<lparr>net_world := snd (f (net_world s))\<rparr>)"
  by (simp add: on_world_def case_prod_beta)

lemma run_log_act [run_simps]: "run_state (log_act a) s = ((), s\<lparr>net_log := net_log s @ [a]\<rparr>)"
  by (simp add: log_act_def)

lemma run_ctx_Err [run_simps]: "run_state (ctx_Err c) s = (cl_ctx_err c (net_world s), s)"
  by (simp add: ctx_Err_def)

lemma run_now_of [run_simps]: "run_state (now_of c) s = (cl_now c (net_world s), s)"
  by (simp add: now_of_def)

lemma run_send [run_simps]:
  "run_state (send c req) s =
     (fst (cl_do c req (net_world s)),
      s\<lparr>net_world := snd (cl_do c req (net_world s)),
        net_log := net_log s @ [Sent req (fst (cl_do c req (net_world s)))]\<rparr>)"
  by (simp add: send_def run_simps)

lemma run_sleep [run_simps]:
  "run_state (sleep c d) s =
     (fst (cl_sleep c d (net_world s)),
      s\<lparr>net_world := snd (cl_sleep c d (net_world s)), net_log := net_log s @ [Slept d]\<rparr>)"
  by (simp add: sleep_def run_simps)

lemma run_backoff [run_simps]:
  "run_state (backoff c attempt e) s =
     (honour_retry_after e (fst (cl_jitter c (base_delay attempt) (net_world s))),
      s\<lparr>net_world := snd (cl_jitter c (base_delay attempt) (net_world s))\<rparr>)"
  by (simp add: backoff_def run_simps)

lemma run_if [run_simps]: "run_state (if b then m else n) s = (if b then run_state m s else run_state n s)"
  by simp

lemma decode_reply_simps [simp]:
  "rp_status (decode_reply dec z st b) = st" "rp_body (decode_reply dec z st b) = b"
  by (auto simp: decode_reply_def split: option.split)

lemma decode_reply_None:
  "rp_err (decode_reply dec z st b) = None \<longleftrightarrow> b = [] \<or> dec b \<noteq> None"
  by (auto simp: decode_reply_def split: option.split)

lemma decode_reply_val:
  "dec b = Some v \<Longrightarrow> b \<noteq> [] \<Longrightarrow> decode_reply dec z st b =
     \<lparr>rp_status = st, rp_body = b, rp_err = None, rp_val = v\<rparr>"
  by (simp add: decode_reply_def)

lemma decode_reply_err:
  "rp_err (decode_reply dec z st b) = Some e \<Longrightarrow> IsPermanent e \<and> perm_status e = Some st"
  by (auto simp: decode_reply_def split: option.splits if_splits)

lemma fail_reply_simps [simp]:
  "rp_status (fail_reply z st b e) = st" "rp_body (fail_reply z st b e) = b"
  "rp_err (fail_reply z st b e) = Some e" "rp_val (fail_reply z st b e) = z"
  by (simp_all add: fail_reply_def)

lemma attempt_loop_Suc:
  "run_state (attempt_loop c meth path body dec z (Suc n) attempt) s =
   (case cl_ctx_err c (net_world s) of Some e \<Rightarrow> (fail_reply z 0 [] e, s) | None \<Rightarrow>
    let s1 = s\<lparr>net_world := snd (cl_wait c (net_world s))\<rparr> in
    case fst (cl_wait c (net_world s)) of Some e \<Rightarrow> (fail_reply z 0 [] e, s1) | None \<Rightarrow>
    case build_request c meth path body of None \<Rightarrow> (fail_reply z 0 [] (permanent ''build request''), s1)
    | Some req \<Rightarrow>
      let out = fst (cl_do c req (net_world s1));
          s2 = s1\<lparr>net_world := snd (cl_do c req (net_world s1)), net_log := net_log s @ [Sent req out]\<rparr> in
      case classify (cl_http_date c) (cl_now c (net_world s2)) out of
        None \<Rightarrow> (decode_reply dec z (outcome_status out) (outcome_body out), s2)
      | Some e \<Rightarrow>
         if IsPermanent e \<or> n = 0 then (fail_reply z (outcome_status out) (outcome_body out) e, s2)
         else let d = honour_retry_after e (fst (cl_jitter c (base_delay attempt) (net_world s2)));
                  w3 = snd (cl_jitter c (base_delay attempt) (net_world s2));
                  s4 = s2\<lparr>net_world := snd (cl_sleep c d w3),
                          net_log := net_log s @ [Sent req out, Slept d]\<rparr> in
              case fst (cl_sleep c d w3) of
                Some e' \<Rightarrow> (fail_reply z (outcome_status out) (outcome_body out) e', s4)
              | None \<Rightarrow> run_state (attempt_loop c meth path body dec z n (attempt + 1)) s4)"
  by (simp add: run_simps Let_def split: option.split)

declare attempt_loop.simps [simp del]

lemma attempt_loop_0 [simp]:
  "run_state (attempt_loop c meth path body dec z 0 attempt) s =
     (\<lparr>rp_status = 0, rp_body = [], rp_err = None, rp_val = z\<rparr>, s)"
  by (simp add: attempt_loop.simps run_simps)

section \<open>What one call sends\<close>

text \<open>
  The log one call leaves: the same request again and again, each answered by an outcome worth
  retrying and followed by a sleep, except for the last.
\<close>

fun call_log :: "http_req \<Rightarrow> nat \<Rightarrow> activity list \<Rightarrow> bool" where
  "call_log req n [] = True"
| "call_log req n [Sent r out] = (n \<ge> 1 \<and> r = req)"
| "call_log req n (Sent r out # Slept d # L) =
     (n \<ge> 2 \<and> r = req \<and> retryable_outcome out \<and> call_log req (n - 1) L)"
| "call_log req n _ = False"

fun sends :: "activity list \<Rightarrow> http_req list" where
  "sends [] = []"
| "sends (Sent r out # L) = r # sends L"
| "sends (Slept d # L) = sends L"

fun sleeps :: "activity list \<Rightarrow> int list" where
  "sleeps [] = []"
| "sleeps (Sent r out # L) = sleeps L"
| "sleeps (Slept d # L) = d # sleeps L"

fun outcomes :: "activity list \<Rightarrow> http_outcome list" where
  "outcomes [] = []"
| "outcomes (Sent r out # L) = out # outcomes L"
| "outcomes (Slept d # L) = outcomes L"

lemma sends_append [simp]: "sends (L @ M) = sends L @ sends M"
  by (induction L rule: sends.induct) auto

lemma call_log_sends: "call_log req n L \<Longrightarrow> \<exists>k\<le>n. sends L = replicate k req \<and> length (sleeps L) \<le> n - 1"
proof (induction req n L rule: call_log.induct)
  case (2 req n r out)
  then show ?case by (intro exI [of _ 1]) auto
next
  case (3 req n r out d L)
  then obtain k where "k \<le> n - 1" "sends L = replicate k req" "length (sleeps L) \<le> n - 1 - 1" by auto
  with 3 show ?case by (intro exI [of _ "Suc k"]) auto
qed auto

lemma attempt_loop_log:
  "build_request c meth path body = Some req \<Longrightarrow>
   run_state (attempt_loop c meth path body dec z n attempt) s = (r, s') \<Longrightarrow>
   \<exists>L. net_log s' = net_log s @ L \<and> call_log req n L"
proof (induction n arbitrary: attempt s)
  case 0
  then show ?case by simp
next
  case (Suc n)
  note IH = Suc.IH [OF Suc.prems(1)]
  have ret: "\<exists>L. l @ [Sent req out, Slept d] @ L' = l @ L \<and> call_log req (Suc n) L"
    if "call_log req n L'" "n \<noteq> 0" "retryable_outcome out" for l L' d out
    using that by (intro exI [of _ "Sent req out # Slept d # L'"]) simp
  from Suc.prems show ?case
    by (auto simp: attempt_loop_Suc Let_def split: option.splits if_splits
        dest!: IH classify_Some_iff intro!: ret)
qed

text \<open>The call is refused before anything is sent when the request cannot be built.\<close>

lemma attempt_loop_unbuildable:
  "build_request c meth path body = None \<Longrightarrow>
   run_state (attempt_loop c meth path body dec z n attempt) s = (r, s') \<Longrightarrow> net_log s' = net_log s"
  by (cases n) (auto simp: attempt_loop_Suc Let_def split: option.splits)

section \<open>What one call returns\<close>

text \<open>The reply a final outcome stands for.\<close>

definition reply_for :: "(string \<Rightarrow> 'a option) \<Rightarrow> 'a \<Rightarrow> http_outcome \<Rightarrow> 'a reply \<Rightarrow> bool" where
  "reply_for dec z out r \<longleftrightarrow>
     (if success_outcome out then r = decode_reply dec z (outcome_status out) (outcome_body out)
      else \<exists>e. r = fail_reply z (outcome_status out) (outcome_body out) e
             \<and> (IsTransient e \<longleftrightarrow> retryable_outcome out) \<and> (IsPermanent e \<longleftrightarrow> \<not> retryable_outcome out))"

lemma reply_for_ok:
  "success_outcome out \<Longrightarrow> reply_for dec z out (decode_reply dec z (outcome_status out) (outcome_body out))"
  by (simp add: reply_for_def)

lemma reply_for_fail:
  "\<not> success_outcome out \<Longrightarrow> IsTransient e = retryable_outcome out \<Longrightarrow>
   IsPermanent e = (\<not> retryable_outcome out) \<Longrightarrow>
   reply_for dec z out (fail_reply z (outcome_status out) (outcome_body out) e)"
  by (auto simp: reply_for_def)

text \<open>The context never ends: no cancellation, no limiter error, no interrupted sleep.\<close>

definition undisturbed :: "'w client \<Rightarrow> bool" where
  "undisturbed c \<longleftrightarrow> (\<forall>w. cl_ctx_err c w = None \<and> fst (cl_wait c w) = None)
     \<and> (\<forall>d w. fst (cl_sleep c d w) = None)"

lemma attempt_loop_result:
  "undisturbed c \<Longrightarrow> build_request c meth path body = Some req \<Longrightarrow> n \<noteq> 0 \<Longrightarrow>
   run_state (attempt_loop c meth path body dec z n attempt) s = (r, s') \<Longrightarrow>
   \<exists>L. net_log s' = net_log s @ L \<and> outcomes L \<noteq> []
     \<and> (\<forall>out\<in>set (butlast (outcomes L)). retryable_outcome out)
     \<and> reply_for dec z (last (outcomes L)) r
     \<and> (retryable_outcome (last (outcomes L)) \<longrightarrow> length (outcomes L) = n)"
proof (induction n arbitrary: attempt s)
  case 0
  then show ?case by simp
next
  case (Suc n)
  note IH = Suc.IH [OF Suc.prems(1,2)]
  have ret: "\<exists>L. l @ Sent req out # Slept d # L' = l @ L \<and> outcomes L \<noteq> []
     \<and> (\<forall>out\<in>set (butlast (outcomes L)). retryable_outcome out)
     \<and> reply_for dec z (last (outcomes L)) r
     \<and> (retryable_outcome (last (outcomes L)) \<longrightarrow> length (outcomes L) = Suc n)"
    if "retryable_outcome out" "outcomes L' \<noteq> []" "\<forall>out\<in>set (butlast (outcomes L')). retryable_outcome out"
      "reply_for dec z (last (outcomes L')) r"
      "retryable_outcome (last (outcomes L')) \<longrightarrow> length (outcomes L') = n" for l L' d out
    using that by (intro exI [of _ "Sent req out # Slept d # L'"]) auto
  have stop: "\<exists>L. l @ [Sent req out] = l @ L \<and> outcomes L \<noteq> []
     \<and> (\<forall>out\<in>set (butlast (outcomes L)). retryable_outcome out)
     \<and> reply_for dec z (last (outcomes L)) r'
     \<and> (retryable_outcome (last (outcomes L)) \<longrightarrow> length (outcomes L) = Suc n)"
    if "reply_for dec z out r'" "retryable_outcome out \<longrightarrow> n = 0" for l out r'
    using that by (intro exI [of _ "[Sent req out]"]) auto
  let ?w = "snd (cl_wait c (net_world s))"
  let ?out = "fst (cl_do c req ?w)"
  let ?cl = "classify (cl_http_date c) (cl_now c (snd (cl_do c req ?w))) ?out"
  have u [simp]: "cl_ctx_err c w = None" "fst (cl_wait c w) = None" "fst (cl_sleep c d w) = None" for d w
    using Suc.prems(1) by (simp_all add: undisturbed_def)
  show ?case
  proof (cases ?cl)
    case None
    then have ok: "success_outcome ?out" by (simp add: classify_None_iff)
    then have "\<not> retryable_outcome ?out"
      by (auto simp: success_outcome_def retryable_outcome_def split: http_outcome.splits)
    with None ok Suc.prems show ?thesis
      by (auto simp: attempt_loop_Suc Let_def intro!: stop reply_for_ok)
  next
    case (Some e)
    then have e: "IsTransient e \<longleftrightarrow> retryable_outcome ?out" "IsPermanent e \<longleftrightarrow> \<not> retryable_outcome ?out"
      by (auto dest: classify_Some_iff)
    from Some have nok: "\<not> success_outcome ?out" by (metis classify_None_iff option.distinct(1))
    show ?thesis
    proof (cases "IsPermanent e \<or> n = 0")
      case True
      with Some e nok Suc.prems show ?thesis
        by (auto simp: attempt_loop_Suc Let_def intro!: stop reply_for_fail)
    next
      case False
      then have "n \<noteq> 0" by simp
      note IH' = IH [OF this]
      from False Some e nok Suc.prems show ?thesis
        by (auto simp: attempt_loop_Suc Let_def dest!: IH' intro!: ret)
    qed
  qed
qed

section \<open>Laws of a call\<close>

text \<open>A client as \<open>NewClient\<close> builds it: at least one attempt, and errors of the context, the
  limiter and the sleep that are not classified Amberflo errors.\<close>

definition wf_client :: "'w client \<Rightarrow> bool" where
  "wf_client c \<longleftrightarrow> cl_retries c \<ge> 1
     \<and> (\<forall>w e. cl_ctx_err c w = Some e \<longrightarrow> \<not> IsPermanent e \<and> \<not> IsTransient e)
     \<and> (\<forall>w e. fst (cl_wait c w) = Some e \<longrightarrow> \<not> IsPermanent e \<and> \<not> IsTransient e)
     \<and> (\<forall>d w e. fst (cl_sleep c d w) = Some e \<longrightarrow> \<not> IsPermanent e \<and> \<not> IsTransient e)"

lemma normalizeRetries_pos: "normalizeRetries n \<ge> 1"
  by (simp add: normalizeRetries_def defaultRetryAttempts_def)

lemma undisturbed_wf: "undisturbed c \<Longrightarrow> cl_retries c \<ge> 1 \<Longrightarrow> wf_client c"
  by (simp add: undisturbed_def wf_client_def)

definition reply_law :: "(string \<Rightarrow> 'a option) \<Rightarrow> 'a \<Rightarrow> 'a reply \<Rightarrow> bool" where
  "reply_law dec z r \<longleftrightarrow>
     (case rp_err r of
        None \<Rightarrow> 200 \<le> rp_status r \<and> rp_status r < 300
          \<and> (if rp_body r = [] then rp_val r = z else dec (rp_body r) = Some (rp_val r))
      | Some e \<Rightarrow> (is_404 e \<longrightarrow> rp_status r = 404) \<and> \<not> (IsTransient e \<and> IsPermanent e))"

lemma decode_reply_law: "200 \<le> st \<Longrightarrow> st < 300 \<Longrightarrow> reply_law dec z (decode_reply dec z st b)"
  by (auto simp: reply_law_def decode_reply_def is_404_def split: option.splits)

lemma success_range:
  "success_outcome out \<Longrightarrow> 200 \<le> outcome_status out \<and> outcome_status out < 300"
  by (auto simp: success_outcome_def outcome_status_def split: http_outcome.splits)

lemma classify_law:
  "classify pd now out = Some e \<Longrightarrow> reply_law dec z (fail_reply z (outcome_status out) b e)"
  by (cases out)
    (auto simp: reply_law_def outcome_status_def is_404_def classify_def Let_def split: if_splits)

lemma plain_law: "\<not> IsPermanent e \<Longrightarrow> reply_law dec z (fail_reply z st b e)"
  by (auto simp: reply_law_def dest: is_404_IsPermanent)

lemma build_law: "reply_law dec z (fail_reply z st b (permanent msg))"
  by (auto simp: reply_law_def is_404_def)

lemma attempt_loop_law:
  assumes "wf_client c" "n \<noteq> 0" "run_state (attempt_loop c meth path body dec z n attempt) s = (r, s')"
  shows "reply_law dec z r"
  using assms(2,3)
proof (induction n arbitrary: attempt s)
  case 0
  then show ?case by simp
next
  case (Suc n)
  have plain: "cl_ctx_err c w = Some e \<Longrightarrow> \<not> IsPermanent e" "fst (cl_wait c w) = Some e \<Longrightarrow> \<not> IsPermanent e"
    "fst (cl_sleep c d w) = Some e \<Longrightarrow> \<not> IsPermanent e" for w d e
    using assms(1) by (auto simp: wf_client_def)
  from Suc show ?case
    by (auto simp: attempt_loop_Suc Let_def classify_None_iff split: option.splits if_splits
        intro: plain_law build_law classify_law decode_reply_law dest: plain success_range)
qed

text \<open>The contract of one JSON call, by client and path, as the operations above it use it.\<close>

locale json_call =
  fixes call :: "'w client \<Rightarrow> string \<Rightarrow> ('w net, 'a reply) io"
    and dec :: "string \<Rightarrow> 'a option"
    and zero :: 'a
  assumes call_law: "wf_client c \<Longrightarrow> run_state (call c path) s = (r, s') \<Longrightarrow> reply_law dec zero r"
begin

lemma ok_status:
  "wf_client c \<Longrightarrow> run_state (call c path) s = (r, s') \<Longrightarrow> rp_err r = None
     \<Longrightarrow> 200 \<le> rp_status r \<and> rp_status r < 300"
  by (drule (1) call_law) (simp add: reply_law_def)

lemma ok_value:
  "wf_client c \<Longrightarrow> run_state (call c path) s = (r, s') \<Longrightarrow> rp_err r = None \<Longrightarrow> rp_body r \<noteq> []
     \<Longrightarrow> dec (rp_body r) = Some (rp_val r)"
  by (drule (1) call_law) (simp add: reply_law_def)

lemma ok_empty:
  "wf_client c \<Longrightarrow> run_state (call c path) s = (r, s') \<Longrightarrow> rp_err r = None \<Longrightarrow> rp_body r = []
     \<Longrightarrow> rp_val r = zero"
  by (drule (1) call_law) (simp add: reply_law_def)

lemma not_found_status:
  "wf_client c \<Longrightarrow> run_state (call c path) s = (r, s') \<Longrightarrow> rp_err r = Some e \<Longrightarrow> is_404 e
     \<Longrightarrow> rp_status r = 404"
  by (drule (1) call_law) (simp add: reply_law_def)

lemma error_exclusive:
  "wf_client c \<Longrightarrow> run_state (call c path) s = (r, s') \<Longrightarrow> rp_err r = Some e
     \<Longrightarrow> \<not> (IsTransient e \<and> IsPermanent e)"
  by (drule (1) call_law) (simp add: reply_law_def)

end

section \<open>Facts about doJSON\<close>

lemma doJSON_law:
  assumes "wf_client c" "run_state (doJSON c meth path body dec z) s = (r, s')"
    and "\<And>e. body = EncodeError e \<Longrightarrow> \<not> IsTransient e"
  shows "reply_law dec z r"
proof -
  from assms(1) have n: "nat (cl_retries c) \<noteq> 0" by (simp add: wf_client_def)
  show ?thesis
  proof (cases body)
    case (EncodeError e)
    with assms show ?thesis by (auto simp: doJSON_def reply_law_def is_404_def run_simps)
  next
    case NoBody
    with assms(2) show ?thesis by (simp add: doJSON_def attempt_loop_law [OF assms(1) n])
  next
    case (Encoded b)
    with assms(2) show ?thesis by (simp add: doJSON_def attempt_loop_law [OF assms(1) n])
  qed
qed

definition body_bytes :: "body_arg \<Rightarrow> string option" where
  "body_bytes body = (case body of Encoded b \<Rightarrow> Some b | _ \<Rightarrow> None)"

lemma doJSON_log:
  assumes "build_request c meth path (body_bytes body) = Some req"
    and "run_state (doJSON c meth path body dec z) s = (r, s')"
  shows "\<exists>L. net_log s' = net_log s @ L \<and> call_log req (nat (cl_retries c)) L"
proof (cases body)
  case (EncodeError e)
  with assms have "net_log s' = net_log s @ []" by (auto simp: doJSON_def run_simps)
  then show ?thesis by (intro exI [of _ "[]"]) simp
next
  case NoBody
  with assms show ?thesis by (auto simp: doJSON_def body_bytes_def intro: attempt_loop_log)
next
  case (Encoded b)
  with assms show ?thesis by (auto simp: doJSON_def body_bytes_def intro: attempt_loop_log)
qed

lemma outcomes_sends: "length (outcomes L) = length (sends L)"
  by (induction L rule: sends.induct) auto

lemma call_log_append_sends:
  "call_log req n L \<Longrightarrow> sends L = replicate (length (outcomes L)) req \<and> length (outcomes L) \<le> n"
  by (metis call_log_sends length_replicate outcomes_sends)

text \<open>A call that succeeds ends with the exchange that answered it.\<close>

lemma attempt_loop_ok:
  assumes "run_state (attempt_loop c meth path body dec z n attempt) s = (r, s')" "rp_err r = None" "n \<noteq> 0"
  shows "\<exists>req w out. build_request c meth path body = Some req \<and> cl_do c req w = (out, net_world s')
    \<and> success_outcome out \<and> r = decode_reply dec z (outcome_status out) (outcome_body out)"
  using assms
proof (induction n arbitrary: attempt s)
  case 0
  then show ?case by simp
next
  case (Suc n)
  show ?case
  proof (cases "build_request c meth path body")
    case None
    with Suc.prems show ?thesis by (auto simp: attempt_loop_Suc Let_def split: option.splits)
  next
    case (Some req)
    have fin: "\<exists>w out. cl_do c req w = (out, net_world s') \<and> success_outcome out
        \<and> r = decode_reply dec z (outcome_status out) (outcome_body out)"
      using Suc.prems Some Suc.IH
      by (auto simp: attempt_loop_Suc Let_def classify_None_iff split: option.splits if_splits)
        (metis prod.collapse)
    with Some show ?thesis by blast
  qed
qed

lemma doJSON_ok:
  assumes "run_state (doJSON c meth path body dec z) s = (r, s')" "rp_err r = None" "cl_retries c \<ge> 1"
  shows "\<exists>req w out. build_request c meth path (body_bytes body) = Some req
    \<and> cl_do c req w = (out, net_world s') \<and> success_outcome out
    \<and> r = decode_reply dec z (outcome_status out) (outcome_body out)"
proof (cases body)
  case (EncodeError e)
  with assms show ?thesis by (auto simp: doJSON_def run_simps)
qed (use assms attempt_loop_ok [of c meth path _ dec z "nat (cl_retries c)" 1 s r s'] in
      \<open>auto simp: doJSON_def body_bytes_def\<close>)

definition ends_well :: "activity list \<Rightarrow> bool" where
  "ends_well L \<longleftrightarrow> outcomes L \<noteq> [] \<and> success_outcome (last (outcomes L))"

lemma ends_well_one: "success_outcome out \<Longrightarrow> ends_well [Sent req out]"
  by (simp add: ends_well_def)

lemma ends_well_more: "ends_well L \<Longrightarrow> ends_well (Sent req out # Slept d # L)"
  by (simp add: ends_well_def)

lemma attempt_loop_ok_log:
  "run_state (attempt_loop c meth path body dec z n attempt) s = (r, s') \<Longrightarrow> rp_err r = None \<Longrightarrow> n \<noteq> 0
     \<Longrightarrow> \<exists>L. net_log s' = net_log s @ L \<and> ends_well L"
proof (induction n arbitrary: attempt s)
  case 0
  then show ?case by simp
next
  case (Suc n)
  from Suc.prems show ?case
    by (auto simp: attempt_loop_Suc Let_def classify_None_iff split: option.splits if_splits
        dest!: Suc.IH intro: ends_well_one ends_well_more)
qed

lemma doJSON_ok_log:
  assumes "run_state (doJSON c meth path body dec z) s = (r, s')" "rp_err r = None" "cl_retries c \<ge> 1"
  shows "\<exists>L. net_log s' = net_log s @ L \<and> ends_well L"
proof (cases body)
  case (EncodeError e)
  with assms show ?thesis by (auto simp: doJSON_def run_simps)
qed (use assms attempt_loop_ok_log [of c meth path _ dec z "nat (cl_retries c)" 1 s r s'] in
      \<open>auto simp: doJSON_def\<close>)

text \<open>A call that is answered well at once.\<close>

lemma doJSON_first:
  assumes "undisturbed c" "cl_retries c \<ge> 1" "build_request c meth path (body_bytes body) = Some req"
    and "\<forall>e. body \<noteq> EncodeError e" "cl_wait c (net_world s) = (None, net_world s)"
    and "cl_do c req (net_world s) = (out, w)" "success_outcome out"
  shows "run_state (doJSON c meth path body dec z) s =
    (decode_reply dec z (outcome_status out) (outcome_body out),
     s\<lparr>net_world := w, net_log := net_log s @ [Sent req out]\<rparr>)"
proof -
  obtain n where n: "nat (cl_retries c) = Suc n" using assms(2) by (cases "nat (cl_retries c)") auto
  have "run_state (attempt_loop c meth path (body_bytes body) dec z (Suc n) 1) s =
    (decode_reply dec z (outcome_status out) (outcome_body out),
     s\<lparr>net_world := w, net_log := net_log s @ [Sent req out]\<rparr>)"
    using assms classify_None_iff [of "cl_http_date c" "cl_now c w" out]
    by (simp add: attempt_loop_Suc Let_def undisturbed_def)
  with n assms(4) show ?thesis by (cases body) (simp_all add: doJSON_def body_bytes_def)
qed

lemma split_query_plain: "CHR ''?'' \<notin> set p \<Longrightarrow> split_query p = (p, [])"
  by (induction p) auto

lemma build_request_path:
  "build_request c meth path body = Some req \<Longrightarrow>
     rq_Method req = meth \<and> rq_Path req = fst (resolve path) \<and> rq_RawQuery req = snd (resolve path)
     \<and> rq_Body req = body"
  by (auto simp: build_request_def split: prod.splits if_splits)

lemma build_request_plain:
  "prefix ''/'' path \<Longrightarrow> CHR ''?'' \<notin> set path \<Longrightarrow>
     \<exists>req. build_request c meth path body = Some req \<and> rq_Method req = meth \<and> rq_Path req = path"
  by (simp add: build_request_def resolve_def split_query_plain)

section \<open>What an operation sends and returns\<close>

text \<open>
  \<open>traced P m Q\<close>: whatever the world does, \<open>m\<close> sends only requests that satisfy \<open>P\<close>, and its
  result satisfies \<open>Q\<close>.  The rules follow the structure of an operation.
\<close>

definition traced :: "(http_req \<Rightarrow> bool) \<Rightarrow> ('w net, 'a) io \<Rightarrow> ('a \<Rightarrow> bool) \<Rightarrow> bool" where
  "traced P m Q \<longleftrightarrow> (\<forall>s x s'. run_state m s = (x, s') \<longrightarrow>
     (\<exists>L. net_log s' = net_log s @ L \<and> (\<forall>r\<in>set (sends L). P r)) \<and> Q x)"

abbreviation sends_only :: "(http_req \<Rightarrow> bool) \<Rightarrow> ('w net, 'a) io \<Rightarrow> bool" where
  "sends_only P m \<equiv> traced P m (\<lambda>_. True)"

lemma tracedD:
  "traced P m Q \<Longrightarrow> run_state m s = (x, s') \<Longrightarrow>
     (\<exists>L. net_log s' = net_log s @ L \<and> (\<forall>r\<in>set (sends L). P r)) \<and> Q x"
  unfolding traced_def by blast

lemma traced_weaken: "traced P m Q \<Longrightarrow> (\<And>r. P r \<Longrightarrow> P' r) \<Longrightarrow> (\<And>x. Q x \<Longrightarrow> Q' x) \<Longrightarrow> traced P' m Q'"
  unfolding traced_def by blast

lemma traced_ret: "Q x \<Longrightarrow> traced P (ret x) Q"
  unfolding traced_def by (auto simp: run_simps intro: exI [of _ "[]"])

lemma traced_bind:
  assumes "traced P m R" "\<And>x. R x \<Longrightarrow> traced P (f x) Q"
  shows "traced P (State_Monad.bind m f) Q"
proof (unfold traced_def, intro allI impI)
  fix s y s' assume run: "run_state (State_Monad.bind m f) s = (y, s')"
  obtain x s1 where m: "run_state m s = (x, s1)" by fastforce
  with run have f: "run_state (f x) s1 = (y, s')" by (simp add: run_simps)
  from tracedD [OF assms(1) m] obtain L1 where L1: "net_log s1 = net_log s @ L1" "\<forall>r\<in>set (sends L1). P r" "R x"
    by blast
  from tracedD [OF assms(2) [OF L1(3)] f] obtain L2 where L2: "net_log s' = net_log s1 @ L2" "\<forall>r\<in>set (sends L2). P r" "Q y"
    by blast
  from L1 L2 have "net_log s' = net_log s @ (L1 @ L2)" "\<forall>r\<in>set (sends (L1 @ L2)). P r" by auto
  with L2(3) show "(\<exists>L. net_log s' = net_log s @ L \<and> (\<forall>r\<in>set (sends L). P r)) \<and> Q y" by blast
qed

lemma traced_if:
  "(b \<Longrightarrow> traced P m Q) \<Longrightarrow> (\<not> b \<Longrightarrow> traced P n Q) \<Longrightarrow> traced P (if b then m else n) Q"
  by simp

lemma traced_option:
  "(x = None \<Longrightarrow> traced P m Q) \<Longrightarrow> (\<And>y. x = Some y \<Longrightarrow> traced P (f y) Q)
     \<Longrightarrow> traced P (case x of None \<Rightarrow> m | Some y \<Rightarrow> f y) Q"
  by (cases x) auto

lemma traced_sum:
  "(\<And>e. x = Inl e \<Longrightarrow> traced P (f e) Q) \<Longrightarrow> (\<And>y. x = Inr y \<Longrightarrow> traced P (g y) Q)
     \<Longrightarrow> traced P (case x of Inl e \<Rightarrow> f e | Inr y \<Rightarrow> g y) Q"
  by (cases x) auto

lemma traced_now: "sends_only P (now_of c)"
  unfolding traced_def by (auto simp: run_simps intro: exI [of _ "[]"])

lemma sends_only_bind:
  "sends_only P m \<Longrightarrow> (\<And>x. sends_only P (f x)) \<Longrightarrow> sends_only P (State_Monad.bind m f)"
  by (rule traced_bind)

lemma sends_only_ret: "sends_only P (ret x)"
  by (rule traced_ret) simp

lemmas sends_intros = sends_only_ret sends_only_bind traced_if traced_option traced_sum traced_now

lemmas traced_intros = traced_ret traced_bind traced_if traced_option traced_sum

text \<open>One call sends copies of the request it builds, or nothing.\<close>

lemma doJSON_unbuilt:
  assumes "build_request c meth path (body_bytes body) = None"
    and "run_state (doJSON c meth path body dec z) s = (r, s')"
  shows "net_log s' = net_log s"
  using assms by (cases body) (auto simp: doJSON_def body_bytes_def run_simps dest: attempt_loop_unbuildable)

lemma traced_doJSON:
  assumes "\<And>req. rq_Method req = meth \<Longrightarrow> rq_Path req = fst (resolve path) \<Longrightarrow> rq_RawQuery req = snd (resolve path)
      \<Longrightarrow> rq_Body req = body_bytes body \<Longrightarrow> P req"
    and "\<And>s r s'. run_state (doJSON c meth path body dec z) s = (r, s') \<Longrightarrow> Q r"
  shows "traced P (doJSON c meth path body dec z) Q"
proof (unfold traced_def, intro allI impI conjI)
  fix s r s' assume run: "run_state (doJSON c meth path body dec z) s = (r, s')"
  show "\<exists>L. net_log s' = net_log s @ L \<and> (\<forall>r\<in>set (sends L). P r)"
  proof (cases "build_request c meth path (body_bytes body)")
    case None
    with doJSON_unbuilt [OF _ run] show ?thesis by (intro exI [of _ "[]"]) simp
  next
    case (Some req)
    from doJSON_log [OF Some run] obtain L where L: "net_log s' = net_log s @ L" "call_log req (nat (cl_retries c)) L"
      by blast
    from call_log_append_sends [OF L(2)] have "set (sends L) \<subseteq> {req}" by auto
    with L(1) assms(1) build_request_path [OF Some] show ?thesis by blast
  qed
  from run show "Q r" by (rule assms(2))
qed

lemma sends_only_doJSON:
  "(\<And>req. rq_Method req = meth \<Longrightarrow> rq_Path req = fst (resolve path) \<Longrightarrow> rq_RawQuery req = snd (resolve path)
      \<Longrightarrow> rq_Body req = body_bytes body \<Longrightarrow> P req)
   \<Longrightarrow> sends_only P (doJSON c meth path body dec z)"
  by (rule traced_doJSON) simp_all

section \<open>Backoff\<close>

lemma base_delay_shift:
  assumes "attempt \<ge> 57"
  shows "base_delay attempt = 0"
proof -
  define k where "k = nat (attempt - 1) - 56"
  have e: "nat (attempt - 1) = 56 + k" using assms by (simp add: k_def)
  have "retryBaseDelay * 2 ^ nat (attempt - 1) = (390625 * 2 ^ k) * 2 ^ 64"
    by (simp add: e retryBaseDelay_def power_add)
  then have "(retryBaseDelay * 2 ^ nat (attempt - 1) + 2 ^ 63) mod 2 ^ 64 = ((2 ^ 63) :: int)"
    by (metis add.commute mod_mult_self1 mod_pos_pos_trivial
        zero_le_power zero_le_numeral numeral_power_less_of_nat_cancel_iff power_strict_increasing_iff
        one_less_numeral_iff semiring_norm(76) numeral_less_iff semiring_norm(78) semiring_norm(81))
  then show ?thesis by (simp add: base_delay_def wrap64_def Let_def retryMaxDelay_def)
qed

lemma base_delay_table: "list_all (\<lambda>k. retryBaseDelay \<le> base_delay (int k) \<and> base_delay (int k) \<le> retryMaxDelay) [1..<57]"
  by code_simp

lemma base_delay_range:
  assumes "1 \<le> attempt" "attempt \<le> 56"
  shows "retryBaseDelay \<le> base_delay attempt \<and> base_delay attempt \<le> retryMaxDelay"
proof -
  have "nat attempt \<in> set [1..<57]" using assms by auto
  with base_delay_table have "retryBaseDelay \<le> base_delay (int (nat attempt)) \<and> base_delay (int (nat attempt)) \<le> retryMaxDelay"
    by (simp only: list_all_iff)
  with assms show ?thesis by simp
qed

lemma honour_retry_after_max:
  "honour_retry_after err d = (case as_transient err of
      Some te \<Rightarrow> if te_RetryAfter te > 0 then max d (te_RetryAfter te) else d | None \<Rightarrow> d)"
  by (auto simp: honour_retry_after_def max_def split: option.split)

section \<open>A scripted world\<close>

text \<open>The world is the list of outcomes still to come; a sleep and the limiter never fail and
  jitter leaves a delay as it is.  Concrete runs use it.\<close>

definition scripted :: "int \<Rightarrow> http_outcome list client" where
  "scripted n = \<lparr> cl_apiKey = ''key'', cl_userAgent = ''amberflo-provider/dev'', cl_retries = n,
     cl_do = (\<lambda>req w. case w of [] \<Rightarrow> (NetError ''connection refused'', []) | out # outs \<Rightarrow> (out, outs)),
     cl_ctx_err = (\<lambda>w. None), cl_wait = (\<lambda>w. (None, w)), cl_sleep = (\<lambda>d w. (None, w)),
     cl_jitter = (\<lambda>d w. (d, w)), cl_now = (\<lambda>w. 0), cl_http_date = (\<lambda>h. None) \<rparr>"

definition fresh :: "'w \<Rightarrow> 'w net" where
  "fresh w = \<lparr>net_world = w, net_log = []\<rparr>"

lemma scripted_undisturbed [simp]: "undisturbed (scripted n)"
  by (simp add: undisturbed_def scripted_def)

lemma scripted_retries [simp]: "cl_retries (scripted n) = n"
  by (simp add: scripted_def)

lemma scripted_wf [simp]: "n \<ge> 1 \<Longrightarrow> wf_client (scripted n)"
  by (rule undisturbed_wf) simp_all

section \<open>Properties\<close>

text \<open>
  C13.  \<open>doJSON\<close> implements retry-on-transient exactly: as long as nothing disturbs the call, it
  sends one and the same request until an outcome is not worth retrying or the attempts are used
  up; every outcome but the last was retryable; the reply is the one the last outcome stands for
  (the decoded body of a 2xx, a transient error, or a permanent error); and a call that ends on a
  retryable outcome has used every attempt.
\<close>

theorem doJSON_retry_spec:
  assumes "undisturbed c" "cl_retries c \<ge> 1"
    and "build_request c meth path (body_bytes body) = Some req" "\<forall>e. body \<noteq> EncodeError e"
    and "run_state (doJSON c meth path body dec z) s = (r, s')"
  shows "\<exists>L. net_log s' = net_log s @ L \<and> outcomes L \<noteq> []
     \<and> sends L = replicate (length (outcomes L)) req \<and> length (outcomes L) \<le> nat (cl_retries c)
     \<and> (\<forall>out\<in>set (butlast (outcomes L)). retryable_outcome out)
     \<and> reply_for dec z (last (outcomes L)) r
     \<and> (retryable_outcome (last (outcomes L)) \<longrightarrow> length (outcomes L) = nat (cl_retries c))"
proof -
  have run: "run_state (attempt_loop c meth path (body_bytes body) dec z (nat (cl_retries c)) 1) s = (r, s')"
    using assms(4,5) by (cases body) (auto simp: doJSON_def body_bytes_def)
  from assms(2) have "nat (cl_retries c) \<noteq> 0" by simp
  from attempt_loop_result [OF assms(1,3) this run] obtain L where L: "net_log s' = net_log s @ L"
    "outcomes L \<noteq> []" "\<forall>out\<in>set (butlast (outcomes L)). retryable_outcome out"
    "reply_for dec z (last (outcomes L)) r"
    "retryable_outcome (last (outcomes L)) \<longrightarrow> length (outcomes L) = nat (cl_retries c)" by blast
  from attempt_loop_log [OF assms(3) run] L(1) have "call_log req (nat (cl_retries c)) L" by auto
  with L call_log_append_sends show ?thesis by metis
qed

theorem doJSON_retry_spec_witness:
  "\<exists>L. net_log (snd (run_state (doJSON (scripted 4) ''GET'' ''/x'' NoBody dec_none ())
       (fresh [Response 503 [] [], Response 200 [] ''{}'']))) = [] @ L \<and> outcomes L \<noteq> []"
proof -
  let ?s = "fresh [Response 503 [] [], Response 200 [] ''{}'']"
  obtain r s' where run: "run_state (doJSON (scripted 4) ''GET'' ''/x'' NoBody dec_none ()) ?s = (r, s')"
    by (cases "run_state (doJSON (scripted 4) ''GET'' ''/x'' NoBody dec_none ()) ?s")
  obtain req where req: "build_request (scripted 4) ''GET'' ''/x'' (body_bytes NoBody) = Some req"
    by (simp add: build_request_def resolve_def)
  from doJSON_retry_spec [OF _ _ req _ run] obtain L where
    "net_log s' = net_log ?s @ L" "outcomes L \<noteq> []"
    by (auto simp: scripted_def undisturbed_def)
  then show ?thesis using run by (auto simp: fresh_def)
qed

text \<open>
  Whatever the context, the limiter or the sleep do, one call sends only copies of one
  request, at most as many as the configured attempts, and sleeps at most once less often.
\<close>

theorem doJSON_sends_bounded:
  assumes "build_request c meth path (body_bytes body) = Some req" "cl_retries c \<ge> 1"
    and "run_state (doJSON c meth path body dec z) s = (r, s')"
  shows "\<exists>L k. net_log s' = net_log s @ L \<and> sends L = replicate k req \<and> int k \<le> cl_retries c
     \<and> int (length (sleeps L)) \<le> cl_retries c - 1"
proof -
  from doJSON_log [OF assms(1,3)] obtain L where L: "net_log s' = net_log s @ L"
    "call_log req (nat (cl_retries c)) L" by blast
  from call_log_sends [OF L(2)] obtain k where "k \<le> nat (cl_retries c)" "sends L = replicate k req"
    "length (sleeps L) \<le> nat (cl_retries c) - 1" by blast
  with L(1) assms(2) show ?thesis by (intro exI [of _ L] exI [of _ k]) auto
qed

theorem doJSON_sends_bounded_witness:
  "\<exists>L k. net_log (snd (run_state (doJSON (scripted 2) ''GET'' ''/x'' NoBody dec_none ())
       (fresh [NetError ''reset'', NetError ''reset'']))) = [] @ L \<and> int k \<le> 2 \<and> length (sends L) = k"
proof -
  let ?s = "fresh [NetError ''reset'', NetError ''reset'']"
  obtain r s' where run: "run_state (doJSON (scripted 2) ''GET'' ''/x'' NoBody dec_none ()) ?s = (r, s')"
    by (cases "run_state (doJSON (scripted 2) ''GET'' ''/x'' NoBody dec_none ()) ?s")
  obtain req where req: "build_request (scripted 2) ''GET'' ''/x'' (body_bytes NoBody) = Some req"
    by (simp add: build_request_def resolve_def)
  from doJSON_sends_bounded [OF req _ run] show ?thesis
    using run by (auto simp: fresh_def scripted_def)
qed

text \<open>
  The delay before the next attempt: within the first 56 attempts it is the jittered
  exponential delay, which before jitter lies between the base delay of 100 ms and the cap of
  2 s, and it is never shorter than the Retry-After the server asked for.
\<close>

theorem backoff_bounds:
  assumes "1 \<le> attempt" "attempt \<le> 56"
    and "run_state (backoff c attempt e) s = (d, s')"
  shows "retryBaseDelay \<le> base_delay attempt \<and> base_delay attempt \<le> retryMaxDelay
     \<and> d \<ge> fst (cl_jitter c (base_delay attempt) (net_world s))
     \<and> (\<forall>te. as_transient e = Some te \<longrightarrow> te_RetryAfter te > 0 \<longrightarrow> d \<ge> te_RetryAfter te)"
proof -
  from assms(3) have d: "d = honour_retry_after e (fst (cl_jitter c (base_delay attempt) (net_world s)))"
    by (simp add: run_simps)
  show ?thesis
    using base_delay_range [OF assms(1,2)] d by (auto simp: honour_retry_after_max split: option.split)
qed

theorem backoff_bounds_witness:
  "fst (run_state (backoff (scripted 4) 3 (TransientError (Plain []) 429 (7 * second))) (fresh [])) \<ge> 7 * second"
  using backoff_bounds [of 3 "scripted 4" "TransientError (Plain []) 429 (7 * second)" "fresh []"]
  by (auto simp: run_simps scripted_def fresh_def)

text \<open>
  Beyond the 56th attempt the 64-bit shift has pushed every set bit out: the exponential
  delay is zero there, not the 2 s cap, so a client configured with that many attempts would
  retry without any pause.
\<close>

theorem backoff_vanishes:
  "attempt \<ge> 57 \<Longrightarrow> base_delay attempt = 0"
  by (rule base_delay_shift)

theorem backoff_vanishes_witness: "base_delay 60 = 0"
  by (rule backoff_vanishes) simp

text \<open>
  A client is only built with an API key and an absolute base URL, and then it always makes
  at least one attempt per call, four unless configured otherwise.
\<close>

theorem NewClient_valid:
  assumes "NewClient parse_url env opts = Inr c"
  shows "trim_space (cl_apiKey c) \<noteq> [] \<and> cl_userAgent c \<noteq> [] \<and> cl_retries c \<ge> 1
    \<and> (op_RetryAttempts opts \<le> 0 \<longrightarrow> cl_retries c = 4)
    \<and> (\<exists>scheme host. parse_url (if op_BaseURL opts = [] then defaultBaseURL else op_BaseURL opts)
          = Some (scheme, host) \<and> scheme \<noteq> [] \<and> host \<noteq> [])"
  using assms normalizeRetries_pos [of "op_RetryAttempts opts"]
  by (auto simp: NewClient_def defaultUserAgent_def normalizeRetries_def defaultRetryAttempts_def
      split: if_splits option.splits prod.splits)

theorem NewClient_valid_witness:
  "\<exists>c. NewClient (\<lambda>u. Some (''https'', ''app.amberflo.io'')) (scripted 1)
     \<lparr>op_APIKey = ''k'', op_BaseURL = [], op_UserAgent = [], op_RetryAttempts = 0, op_RateLimitPerSec = 0\<rparr> = Inr c
     \<and> cl_retries c = 4"
proof -
  have "trim_space ''k'' = ''k''" by code_simp
  then obtain c where "NewClient (\<lambda>u. Some (''https'', ''app.amberflo.io'')) (scripted 1)
     \<lparr>op_APIKey = ''k'', op_BaseURL = [], op_UserAgent = [], op_RetryAttempts = 0, op_RateLimitPerSec = 0\<rparr> = Inr c"
    by (simp add: NewClient_def)
  with NewClient_valid [OF this] show ?thesis by auto
qed

end
