(* ===== verification/Json.thy ===== *)
theory Json
  imports Prelude
begin

text \<open>
  What the sources use of encoding/json: JSON values, the compact encoder of \<open>json.Marshal\<close> (with
  its HTML escapes) and the decoder of \<open>json.Unmarshal\<close>, first from text to values, then from
  values into records with Go's rules (absent and unknown keys, null, case-insensitive key match,
  type mismatches).  Strings are valid UTF-8, as every string of the Kubernetes API is; the
  decoder's replacement of invalid bytes is not modelled.  A number keeps its literal text.
\<close>

section \<open>Values and their text\<close>

datatype json =
    JNull
  | JBool bool
  | JNum string
  | JStr string
  | JArr "json list"
  | JObj "(string \<times> json) list"

abbreviation quot :: char where "quot \<equiv> CHR 0x22"
abbreviation bslash :: char where "bslash \<equiv> CHR 0x5C"

definition hex_digit :: "nat \<Rightarrow> char" where
  "hex_digit d = (if d < 10 then char_of (48 + d) else char_of (87 + d))"

definition esc_char :: "char \<Rightarrow> string" where
  "esc_char c = (let n = (of_char c :: nat) in
     if n = 0x22 \<or> n = 0x5C then [bslash, c]
     else if n = 8 then [bslash, CHR ''b''] else if n = 12 then [bslash, CHR ''f'']
     else if n = 10 then [bslash, CHR ''n''] else if n = 13 then [bslash, CHR ''r'']
     else if n = 9 then [bslash, CHR ''t'']
     else if n < 32 \<or> n = 0x3C \<or> n = 0x3E \<or> n = 0x26
       then [bslash, CHR ''u'', CHR ''0'', CHR ''0'', hex_digit (n div 16), hex_digit (n mod 16)]
     else [c])"

text \<open>U+2028 and U+2029, the two line separators, are escaped too.\<close>

definition line_sep :: "string \<Rightarrow> char option" where
  "line_sep s = (if prefix [CHR 0xE2, CHR 0x80, CHR 0xA8] s then Some (CHR ''8'')
                 else if prefix [CHR 0xE2, CHR 0x80, CHR 0xA9] s then Some (CHR ''9'') else None)"

fun esc :: "string \<Rightarrow> string" where
  "esc [] = []"
| "esc (c # cs) = (case line_sep (c # cs) of
      Some d \<Rightarrow> [bslash, CHR ''u'', CHR ''2'', CHR ''0'', CHR ''2'', d] @ esc (drop 2 cs)
    | None \<Rightarrow> esc_char c @ esc cs)"

fun join :: "string list \<Rightarrow> string" where
  "join [] = []"
| "join [x] = x"
| "join (x # y # xs) = x @ CHR '','' # join (y # xs)"

definition print_str :: "string \<Rightarrow> string" where
  "print_str s = quot # esc s @ [quot]"

fun print :: "json \<Rightarrow> string" where
  "print JNull = ''null''"
| "print (JBool b) = (if b then ''true'' else ''false'')"
| "print (JNum n) = n"
| "print (JStr s) = print_str s"
| "print (JArr js) = CHR ''['' # join (map print js) @ '']''"
| "print (JObj ms) = CHR ''{'' # join (map (\<lambda>(k, j). print_str k @ CHR '':'' # print j) ms) @ ''}''"

section \<open>Parsing text\<close>

definition is_ws :: "char \<Rightarrow> bool" where
  "is_ws c \<longleftrightarrow> (of_char c :: nat) \<in> {0x20, 0x09, 0x0A, 0x0D}"

abbreviation skip_ws :: "string \<Rightarrow> string" where
  "skip_ws \<equiv> dropWhile is_ws"

definition utf8 :: "nat \<Rightarrow> string" where
  "utf8 v = (if v < 0x80 then [char_of v]
     else if v < 0x800 then [char_of (0xC0 + v div 64), char_of (0x80 + v mod 64)]
     else if v < 0x10000 then
       [char_of (0xE0 + v div 4096), char_of (0x80 + v div 64 mod 64), char_of (0x80 + v mod 64)]
     else [char_of (0xF0 + v div 262144), char_of (0x80 + v div 4096 mod 64),
           char_of (0x80 + v div 64 mod 64), char_of (0x80 + v mod 64)])"

definition hex_val :: "char \<Rightarrow> nat option" where
  "hex_val c = (let n = (of_char c :: nat) in
     if 48 \<le> n \<and> n \<le> 57 then Some (n - 48)
     else if 97 \<le> n \<and> n \<le> 102 then Some (n - 87)
     else if 65 \<le> n \<and> n \<le> 70 then Some (n - 55) else None)"

fun hex4 :: "string \<Rightarrow> (nat \<times> string) option" where
  "hex4 (a # b # c # d # r) =
     (case (hex_val a, hex_val b, hex_val c, hex_val d) of
        (Some w, Some x, Some y, Some z) \<Rightarrow> Some (w * 4096 + x * 256 + y * 16 + z, r)
      | _ \<Rightarrow> None)"
| "hex4 _ = None"

definition low_surrogate :: "string \<Rightarrow> (nat \<times> string) option" where
  "low_surrogate s =
     (if prefix [bslash, CHR ''u''] s then
        (case hex4 (drop 2 s) of
           Some (w, r) \<Rightarrow> if 0xDC00 \<le> w \<and> w < 0xE000 then Some (w, r) else None
         | None \<Rightarrow> None)
      else None)"

definition parse_unicode :: "string \<Rightarrow> (string \<times> string) option" where
  "parse_unicode s = (case hex4 s of
      None \<Rightarrow> None
    | Some (v, r) \<Rightarrow>
        if 0xD800 \<le> v \<and> v < 0xDC00 then
          (case low_surrogate r of
             Some (w, r') \<Rightarrow> Some (utf8 (0x10000 + (v - 0xD800) * 1024 + (w - 0xDC00)), r')
           | None \<Rightarrow> Some (utf8 0xFFFD, r))
        else if 0xDC00 \<le> v \<and> v < 0xE000 then Some (utf8 0xFFFD, r)
        else Some (utf8 v, r))"

fun parse_escape :: "string \<Rightarrow> (string \<times> string) option" where
  "parse_escape [] = None"
| "parse_escape (c # r) =
     (if c = quot \<or> c = bslash \<or> c = CHR ''/'' then Some ([c], r)
      else if c = CHR ''b'' then Some ([CHR 0x08], r)
      else if c = CHR ''f'' then Some ([CHR 0x0C], r)
      else if c = CHR ''n'' then Some ([CHR 0x0A], r)
      else if c = CHR ''r'' then Some ([CHR 0x0D], r)
      else if c = CHR ''t'' then Some ([CHR 0x09], r)
      else if c = CHR ''u'' then parse_unicode r
      else None)"

lemma hex4_length: "hex4 s = Some (v, r) \<Longrightarrow> length r < length s"
  by (cases s rule: hex4.cases) (auto split: option.splits)

lemma low_surrogate_length: "low_surrogate s = Some (v, r) \<Longrightarrow> length r < length s"
  by (auto simp: low_surrogate_def split: if_splits option.splits dest!: hex4_length)

lemma parse_escape_length: "parse_escape s = Some (b, r) \<Longrightarrow> length r < length s"
  by (cases s)
    (auto simp: parse_unicode_def split: if_splits option.splits dest!: hex4_length low_surrogate_length)

text \<open>The rest of a string literal, after its opening quote.\<close>

function parse_str :: "string \<Rightarrow> (string \<times> string) option" where
  "parse_str [] = None"
| "parse_str (c # cs) =
     (if c = quot then Some ([], cs)
      else if c = bslash then
        (case parse_escape cs of
           None \<Rightarrow> None
         | Some (b, r) \<Rightarrow> map_option (\<lambda>(x, q). (b @ x, q)) (parse_str r))
      else if (of_char c :: nat) < 32 then None
      else map_option (\<lambda>(x, q). (c # x, q)) (parse_str cs))"
  by pat_completeness auto
termination
  by (relation "measure length") (auto dest: parse_escape_length)

text \<open>Number literals: sign, integer part, fraction, exponent.\<close>

definition num_int :: "string \<Rightarrow> (string \<times> string) option" where
  "num_int s = (case s of
      [] \<Rightarrow> None
    | c # cs \<Rightarrow> if c = CHR ''0'' then Some ([c], cs)
               else if is_digit c then Some (takeWhile is_digit s, dropWhile is_digit s) else None)"

definition num_frac :: "string \<Rightarrow> (string \<times> string) option" where
  "num_frac s = (case s of
      c # cs \<Rightarrow> if c = CHR ''.'' then
          (if takeWhile is_digit cs = [] then None
           else Some (c # takeWhile is_digit cs, dropWhile is_digit cs))
        else Some ([], s)
    | [] \<Rightarrow> Some ([], []))"

definition num_exp :: "string \<Rightarrow> (string \<times> string) option" where
  "num_exp s = (case s of
      c # cs \<Rightarrow> if c = CHR ''e'' \<or> c = CHR ''E'' then
          (let (sg, ds) = (case cs of
               d # r \<Rightarrow> if d = CHR ''+'' \<or> d = CHR ''-'' then ([d], r) else ([], cs) | [] \<Rightarrow> ([], []))
           in if takeWhile is_digit ds = [] then None
              else Some (c # sg @ takeWhile is_digit ds, dropWhile is_digit ds))
        else Some ([], s)
    | [] \<Rightarrow> Some ([], []))"

definition parse_num :: "string \<Rightarrow> (string \<times> string) option" where
  "parse_num s =
     (let (sg, s1) = (case s of c # cs \<Rightarrow> if c = CHR ''-'' then ([c], cs) else ([], s) | [] \<Rightarrow> ([], []))
      in case num_int s1 of None \<Rightarrow> None | Some (i, s2) \<Rightarrow>
         case num_frac s2 of None \<Rightarrow> None | Some (f, s3) \<Rightarrow>
         case num_exp s3 of None \<Rightarrow> None | Some (e, s4) \<Rightarrow> Some (sg @ i @ f @ e, s4))"

definition parse_scalar :: "string \<Rightarrow> (json \<times> string) option" where
  "parse_scalar s =
     (if prefix ''null'' s then Some (JNull, drop 4 s)
      else if prefix ''true'' s then Some (JBool True, drop 4 s)
      else if prefix ''false'' s then Some (JBool False, drop 5 s)
      else map_option (\<lambda>(n, r). (JNum n, r)) (parse_num s))"

fun first_is :: "char \<Rightarrow> string \<Rightarrow> bool" where
  "first_is c [] = False"
| "first_is c (d # s) = (c = d)"

fun parse_value :: "nat \<Rightarrow> string \<Rightarrow> (json \<times> string) option"
  and parse_elems :: "nat \<Rightarrow> string \<Rightarrow> (json list \<times> string) option"
  and parse_members :: "nat \<Rightarrow> string \<Rightarrow> ((string \<times> json) list \<times> string) option" where
  "parse_value 0 s = None"
| "parse_value (Suc f) s = (case skip_ws s of
      [] \<Rightarrow> None
    | c # cs \<Rightarrow>
       if c = quot then map_option (\<lambda>(x, r). (JStr x, r)) (parse_str cs)
       else if c = CHR ''['' then
         (if first_is (CHR '']'') (skip_ws cs) then Some (JArr [], tl (skip_ws cs))
          else map_option (\<lambda>(js, r). (JArr js, r)) (parse_elems f cs))
       else if c = CHR ''{'' then
         (if first_is (CHR ''}'') (skip_ws cs) then Some (JObj [], tl (skip_ws cs))
          else map_option (\<lambda>(ms, r). (JObj ms, r)) (parse_members f cs))
       else parse_scalar (c # cs))"
| "parse_elems 0 s = None"
| "parse_elems (Suc f) s = (case parse_value f s of
      None \<Rightarrow> None
    | Some (j, r) \<Rightarrow>
       (if first_is (CHR '','') (skip_ws r)
        then map_option (\<lambda>(js, q). (j # js, q)) (parse_elems f (tl (skip_ws r)))
        else if first_is (CHR '']'') (skip_ws r) then Some ([j], tl (skip_ws r)) else None))"
| "parse_members 0 s = None"
| "parse_members (Suc f) s =
     (if \<not> first_is quot (skip_ws s) then None
      else case parse_str (tl (skip_ws s)) of
        None \<Rightarrow> None
      | Some (k, r) \<Rightarrow>
         (if \<not> first_is (CHR '':'') (skip_ws r) then None
          else case parse_value f (tl (skip_ws r)) of
            None \<Rightarrow> None
          | Some (j, q) \<Rightarrow>
             (if first_is (CHR '','') (skip_ws q)
              then map_option (\<lambda>(ms, t). ((k, j) # ms, t)) (parse_members f (tl (skip_ws q)))
              else if first_is (CHR ''}'') (skip_ws q) then Some ([(k, j)], tl (skip_ws q)) else None)))"

definition json_parse :: "string \<Rightarrow> json option" where
  "json_parse s = (case parse_value (2 * length s + 2) s of
      Some (j, r) \<Rightarrow> if skip_ws r = [] then Some j else None
    | None \<Rightarrow> None)"

section \<open>The fuel is enough\<close>

text \<open>Every value takes at least one character, so fuel beyond twice the length changes nothing.\<close>

lemma ws_length: "length (skip_ws s) \<le> length s"
  by (rule length_dropWhile_le)

lemma ws_tl_length: "length (tl (skip_ws s)) \<le> length s"
  using ws_length [of s] by simp

lemma parse_str_length: "parse_str s = Some (x, r) \<Longrightarrow> length r < length s"
proof (induction s arbitrary: x r rule: parse_str.induct)
  case (2 c cs)
  show ?case
  proof (cases "c = bslash \<and> c \<noteq> quot")
    case True
    with 2(3) obtain y q z where q: "parse_escape cs = Some (y, q)" "parse_str q = Some (z, r)"
      by (auto split: option.splits)
    with True 2(1) [of "(y, q)" y q z r] have "length r < length q" by simp
    with parse_escape_length [OF q(1)] show ?thesis by simp
  next
    case False
    with 2(2,3) show ?thesis by (cases "c = quot") (auto split: if_splits intro: less_SucI)
  qed
qed simp

lemma parse_num_length:
  assumes "parse_num s = Some (x, r)"
  shows "length r < length s"
proof -
  have int: "length r < length s" if "num_int s = Some (i, r)" for s i r
    using that by (cases s) (auto simp: num_int_def less_Suc_eq_le length_dropWhile_le split: if_splits)
  have frac: "length r \<le> length s" if "num_frac s = Some (i, r)" for s i r
    using that by (cases s) (auto simp: num_frac_def intro: le_SucI length_dropWhile_le split: if_splits)
  have exp: "length r \<le> length s" if "num_exp s = Some (i, r)" for s i r
    using that
    by (cases s) (auto simp: num_exp_def Let_def split: if_splits list.splits
        intro: le_SucI length_dropWhile_le order_trans [OF length_dropWhile_le])
  from assms show ?thesis
    by (cases s) (auto simp: parse_num_def Let_def split: option.splits if_splits dest!: int frac exp)
qed

lemma parse_scalar_length: "parse_scalar s = Some (j, r) \<Longrightarrow> length r < length s"
  by (auto simp: parse_scalar_def prefix_def split: if_splits dest!: parse_num_length)

lemma parse_shortens:
  "(\<forall>j r. parse_value f s = Some (j, r) \<longrightarrow> length r < length s)
   \<and> (\<forall>js r. parse_elems f s = Some (js, r) \<longrightarrow> length r < length s)
   \<and> (\<forall>ms r. parse_members f s = Some (ms, r) \<longrightarrow> length r < length s)"
proof (induction f arbitrary: s)
  case (Suc f)
  have V: "length r < length t" if "parse_value f t = Some (j, r)" for j r t using Suc that by blast
  have E: "length r < length t" if "parse_elems f t = Some (js, r)" for js r t using Suc that by blast
  have M: "length r < length t" if "parse_members f t = Some (ms, r)" for ms r t using Suc that by blast
  show ?case
  proof (intro conjI allI impI)
    fix j r assume p: "parse_value (Suc f) s = Some (j, r)"
    then obtain c cs where s: "skip_ws s = c # cs" by (cases "skip_ws s") auto
    with p have "length r < length (c # cs)"
      using ws_tl_length [of cs]
      by (auto split: if_splits dest!: parse_str_length parse_scalar_length E M)
    with ws_length [of s] show "length r < length s" unfolding s by simp
  next
    fix js r assume p: "parse_elems (Suc f) s = Some (js, r)"
    then obtain j q where q: "parse_value f s = Some (j, q)" by (auto split: option.splits)
    with p ws_tl_length [of q] V [OF q] show "length r < length s" by (auto split: if_splits dest!: E)
  next
    fix ms r assume p: "parse_members (Suc f) s = Some (ms, r)"
    then obtain k q where q: "first_is quot (skip_ws s)" "parse_str (tl (skip_ws s)) = Some (k, q)"
      by (auto split: if_splits option.splits)
    with p obtain j u where u: "first_is (CHR '':'') (skip_ws q)" "parse_value f (tl (skip_ws q)) = Some (j, u)"
      by (auto split: if_splits option.splits)
    have "length u < length s"
      using V [OF u(2)] ws_tl_length [of q] parse_str_length [OF q(2)] ws_tl_length [of s] by simp
    with p q u ws_tl_length [of u] show "length r < length s" by (auto split: if_splits dest!: M)
  qed
qed simp

lemma parse_stable:
  "(2 * length s < f \<longrightarrow> parse_value (Suc f) s = parse_value f s)
   \<and> (2 * length s + 1 < f \<longrightarrow> parse_elems (Suc f) s = parse_elems f s)
   \<and> (2 * length s + 1 < f \<longrightarrow> parse_members (Suc f) s = parse_members f s)"
proof (induction f arbitrary: s)
  case (Suc f)
  have V: "2 * length t < f \<Longrightarrow> parse_value (Suc f) t = parse_value f t" for t using Suc by blast
  have E: "2 * length t + 1 < f \<Longrightarrow> parse_elems (Suc f) t = parse_elems f t" for t using Suc by blast
  have M: "2 * length t + 1 < f \<Longrightarrow> parse_members (Suc f) t = parse_members f t" for t using Suc by blast
  have rest: "2 * length (tl (skip_ws r)) + 1 < f" if "length r < length s" "2 * length s + 1 < Suc f" for r
    using that ws_tl_length [of r] by linarith
  show ?case
  proof (intro conjI impI)
    assume f: "2 * length s < Suc f"
    show "parse_value (Suc (Suc f)) s = parse_value (Suc f) s"
    proof (cases "skip_ws s")
      case Nil
      then show ?thesis by (simp only: parse_value.simps(2) list.case)
    next
      case (Cons c cs)
      with ws_length [of s] f have "2 * length cs + 1 < f" by simp
      with Cons show ?thesis by (simp only: parse_value.simps(2) E M list.case)
    qed
  next
    assume f: "2 * length s + 1 < Suc f"
    then have v: "parse_value (Suc f) s = parse_value f s" by (intro V) simp
    show "parse_elems (Suc (Suc f)) s = parse_elems (Suc f) s"
    proof (cases "parse_value f s")
      case None
      then show ?thesis by (simp only: parse_elems.simps(2) v option.case)
    next
      case (Some p)
      then obtain j r where p: "p = (j, r)" by (cases p)
      with Some have "length r < length s" using parse_shortens [of f s] by blast
      from E [OF rest [OF this f]] show ?thesis
        by (simp only: parse_elems.simps(2) v Some p option.case prod.case)
    qed
  next
    assume f: "2 * length s + 1 < Suc f"
    show "parse_members (Suc (Suc f)) s = parse_members (Suc f) s"
    proof (cases "parse_str (tl (skip_ws s))")
      case None
      then show ?thesis by (simp only: parse_members.simps(2) option.case)
    next
      case (Some p)
      then obtain k q where p: "p = (k, q)" by (cases p)
      with Some have "length q < length s" using parse_str_length [of "tl (skip_ws s)" k q] ws_tl_length [of s] by simp
      note q = this
      have v: "parse_value (Suc f) (tl (skip_ws q)) = parse_value f (tl (skip_ws q))"
        using rest [OF q f] by (intro V) simp
      show ?thesis
      proof (cases "parse_value f (tl (skip_ws q))")
        case None
        then show ?thesis by (simp only: parse_members.simps(2) v Some p option.case prod.case)
      next
        case u: (Some u)
        then obtain j t where jt: "u = (j, t)" by (cases u)
        with u have "length t < length (tl (skip_ws q))" using parse_shortens [of f "tl (skip_ws q)"] by blast
        with ws_tl_length [of q] q have "length t < length s" by simp
        from M [OF rest [OF this f]] show ?thesis
          by (simp only: parse_members.simps(2) v Some p u jt option.case prod.case)
      qed
    qed
  qed
qed simp

lemma parse_fuel: "2 * length s + 2 \<le> f \<Longrightarrow> parse_value f s = parse_value (2 * length s + 2) s"
proof (induction f rule: dec_induct)
  case (step f)
  then show ?case using parse_stable [of s f] by simp
qed simp

section \<open>Printing and parsing back\<close>

lemma hex_val_digit: "d < 16 \<Longrightarrow> hex_val (hex_digit d) = Some d"
  by (auto simp: hex_val_def hex_digit_def Let_def)

lemma char_eqI: "(of_char c :: nat) = of_char d \<Longrightarrow> c = d"
  by simp

definition short_esc :: "char \<Rightarrow> bool" where
  "short_esc c \<longleftrightarrow> c \<in> {quot, bslash, CHR 0x08, CHR 0x0C, CHR 0x0A, CHR 0x0D, CHR 0x09}"

lemma short_esc_parse:
  "short_esc c \<Longrightarrow> parse_str (esc_char c @ t) = map_option (\<lambda>(x, q). (c # x, q)) (parse_str t)"
  unfolding short_esc_def esc_char_def
  by (elim insertE emptyE) (simp_all add: Let_def)

lemma utf8_line_sep: "utf8 0x2028 = [CHR 0xE2, CHR 0x80, CHR 0xA8]" "utf8 0x2029 = [CHR 0xE2, CHR 0x80, CHR 0xA9]"
  by (simp_all add: utf8_def char_of_eq_iff take_bit_eq_mod)

lemma short_esc_of_char: "short_esc c \<longleftrightarrow> (of_char c :: nat) \<in> {0x22, 0x5C, 8, 12, 10, 13, 9}"
  unfolding short_esc_def
  by (auto intro!: char_eqI)

lemma unicode_esc_parse:
  assumes "\<not> short_esc c" "(of_char c :: nat) < 32 \<or> (of_char c :: nat) \<in> {0x3C, 0x3E, 0x26}"
  shows "parse_str (esc_char c @ t) = map_option (\<lambda>(x, q). (c # x, q)) (parse_str t)"
proof -
  let ?n = "of_char c :: nat"
  have n: "?n < 128" "?n div 16 < 16" using assms(2) by auto
  have u: "utf8 ?n = [c]" using n by (simp add: utf8_def)
  have h: "hex_val (hex_digit (?n div 16)) = Some (?n div 16)" "hex_val (hex_digit (?n mod 16)) = Some (?n mod 16)"
    "hex_val (CHR ''0'') = Some 0"
    using n by (simp_all add: hex_val_digit) (simp add: hex_val_def)
  have "parse_escape ([CHR ''u'', CHR ''0'', CHR ''0'', hex_digit (?n div 16), hex_digit (?n mod 16)] @ t) = Some ([c], t)"
    using n by (simp add: parse_unicode_def h u)
  moreover have "esc_char c = bslash # [CHR ''u'', CHR ''0'', CHR ''0'', hex_digit (?n div 16), hex_digit (?n mod 16)]"
    using assms by (auto simp: esc_char_def Let_def short_esc_of_char)
  ultimately show ?thesis by (simp del: parse_escape.simps)
qed

lemma esc_char_parse:
  "parse_str (esc_char c @ t) = map_option (\<lambda>(x, q). (c # x, q)) (parse_str t)"
proof (cases "short_esc c \<or> (of_char c :: nat) < 32 \<or> (of_char c :: nat) \<in> {0x3C, 0x3E, 0x26}")
  case True
  then show ?thesis using short_esc_parse unicode_esc_parse by blast
next
  case False
  then have "esc_char c = [c]" by (auto simp: esc_char_def Let_def short_esc_of_char)
  with False show ?thesis by (auto simp: short_esc_def)
qed

lemma line_sep_shape:
  "line_sep s = Some d \<Longrightarrow> \<exists>t. s = utf8 (if d = CHR ''8'' then 0x2028 else 0x2029) @ t \<and> (d = CHR ''8'' \<or> d = CHR ''9'')"
  by (auto simp: line_sep_def prefix_def utf8_line_sep split: if_splits)

lemma parse_str_esc: "parse_str (esc s @ quot # t) = Some (s, t)"
proof (induction s rule: esc.induct)
  case 1
  then show ?case by simp
next
  case (2 c cs)
  show ?case
  proof (cases "line_sep (c # cs)")
    case None
    with 2 show ?thesis by (simp add: esc_char_parse)
  next
    case (Some d)
    then obtain u where u: "c # cs = utf8 (if d = CHR ''8'' then 0x2028 else 0x2029) @ u" and d: "d = CHR ''8'' \<or> d = CHR ''9''"
      using line_sep_shape by blast
    then have "drop 2 cs = u" by (auto simp: utf8_line_sep)
    with 2(2) [OF Some] have IH: "parse_str (esc u @ quot # t) = Some (u, t)" by simp
    have "parse_escape ([CHR ''u'', CHR ''2'', CHR ''0'', CHR ''2'', d] @ esc u @ quot # t)
        = Some (utf8 (if d = CHR ''8'' then 0x2028 else 0x2029), esc u @ quot # t)"
      using d by (auto simp: parse_unicode_def hex_val_def)
    moreover have "esc (c # cs) = bslash # [CHR ''u'', CHR ''2'', CHR ''0'', CHR ''2'', d] @ esc u"
      using Some \<open>drop 2 cs = u\<close> by simp
    ultimately have "parse_str (esc (c # cs) @ quot # t)
        = Some (utf8 (if d = CHR ''8'' then 0x2028 else 0x2029) @ u, t)"
      using IH by (simp del: parse_escape.simps esc.simps)
    with u show ?thesis by simp
  qed
qed

definition delim :: "string \<Rightarrow> bool" where
  "delim t \<longleftrightarrow> (case t of [] \<Rightarrow> True
     | c # _ \<Rightarrow> \<not> is_digit c \<and> c \<noteq> CHR ''.'' \<and> c \<noteq> CHR ''e'' \<and> c \<noteq> CHR ''E'')"

definition num_lit :: "string \<Rightarrow> bool" where
  "num_lit n \<longleftrightarrow> parse_num n = Some (n, [])"

lemma digits_delim:
  "delim t \<Longrightarrow> takeWhile is_digit (s @ t) = takeWhile is_digit s
     \<and> dropWhile is_digit (s @ t) = dropWhile is_digit s @ t"
  by (induction s) (auto simp: delim_def split: list.splits)

lemma num_int_delim: "delim t \<Longrightarrow> num_int s = Some (i, r) \<Longrightarrow> num_int (s @ t) = Some (i, r @ t)"
  using digits_delim [of t s] by (auto simp: num_int_def split: list.splits if_splits)

lemma num_frac_delim: "delim t \<Longrightarrow> num_frac s = Some (i, r) \<Longrightarrow> num_frac (s @ t) = Some (i, r @ t)"
  using digits_delim [of t "tl s"]
  by (cases s; cases t) (auto simp: num_frac_def delim_def split: if_splits)

lemma num_exp_delim: "delim t \<Longrightarrow> num_exp s = Some (i, r) \<Longrightarrow> num_exp (s @ t) = Some (i, r @ t)"
  using digits_delim [of t "tl s"] digits_delim [of t "tl (tl s)"]
  by (cases s; cases "tl s"; cases t)
    (auto simp: num_exp_def delim_def Let_def split: if_splits)

lemma parse_num_parts:
  "parse_num s = Some (n, r) \<longleftrightarrow> (\<exists>sg s1 i s2 f s3 e.
     (case s of c # cs \<Rightarrow> if c = CHR ''-'' then ([c], cs) else ([], s) | [] \<Rightarrow> ([], [])) = (sg, s1)
     \<and> num_int s1 = Some (i, s2) \<and> num_frac s2 = Some (f, s3) \<and> num_exp s3 = Some (e, r) \<and> n = sg @ i @ f @ e)"
  unfolding parse_num_def Let_def by (auto split: option.splits prod.splits)

lemma parse_num_delim: "delim t \<Longrightarrow> num_lit n \<Longrightarrow> parse_num (n @ t) = Some (n, t)"
proof -
  assume t: "delim t" and "num_lit n"
  then obtain sg s1 i s2 f s3 e where p:
    "(case n of c # cs \<Rightarrow> if c = CHR ''-'' then ([c], cs) else ([], n) | [] \<Rightarrow> ([], [])) = (sg, s1)"
    "num_int s1 = Some (i, s2)" "num_frac s2 = Some (f, s3)" "num_exp s3 = Some (e, [])" "n = sg @ i @ f @ e"
    unfolding num_lit_def parse_num_parts by blast
  from p(1,2) have "n \<noteq> []" by (cases n) (auto simp: num_int_def)
  with p(1) have "(case n @ t of c # cs \<Rightarrow> if c = CHR ''-'' then ([c], cs) else ([], n @ t) | [] \<Rightarrow> ([], [])) = (sg, s1 @ t)"
    by (cases n) (auto split: if_splits)
  then have "\<exists>sg s1. (case n @ t of c # cs \<Rightarrow> if c = CHR ''-'' then ([c], cs) else ([], n @ t) | [] \<Rightarrow> ([], [])) = (sg, s1)
      \<and> num_int s1 = Some (i, s2 @ t) \<and> n = sg @ i @ f @ e"
    using num_int_delim [OF t p(2)] p(5) by blast
  with num_frac_delim [OF t p(3)] num_exp_delim [OF t p(4)] show ?thesis
    unfolding parse_num_parts by (simp only: append_Nil) blast
qed

text \<open>Values the encoder can be given: every number is a number literal.\<close>

fun wf_json :: "json \<Rightarrow> bool" where
  "wf_json (JNum n) = num_lit n"
| "wf_json (JArr js) = (\<forall>j\<in>set js. wf_json j)"
| "wf_json (JObj ms) = (\<forall>m\<in>set ms. wf_json (snd m))"
| "wf_json _ = True"

fun jsize :: "json \<Rightarrow> nat" where
  "jsize (JArr js) = Suc (sum_list (map (\<lambda>j. Suc (jsize j)) js))"
| "jsize (JObj ms) = Suc (sum_list (map (\<lambda>m. Suc (jsize (snd m))) ms))"
| "jsize _ = 1"

definition jstart :: "char \<Rightarrow> bool" where
  "jstart c \<longleftrightarrow> \<not> is_ws c \<and> c \<noteq> CHR '']'' \<and> c \<noteq> CHR ''}''"

lemma num_lit_start: "num_lit n \<Longrightarrow> \<exists>c cs. n = c # cs \<and> (c = CHR ''-'' \<or> is_digit c)"
  by (cases n) (auto simp: num_lit_def parse_num_parts num_int_def is_digit_def split: if_splits)

lemma is_digit_start: "is_digit c \<Longrightarrow> jstart c \<and> c \<noteq> quot \<and> c \<noteq> CHR ''['' \<and> c \<noteq> CHR ''{''
     \<and> c \<noteq> CHR ''n'' \<and> c \<noteq> CHR ''t'' \<and> c \<noteq> CHR ''f''"
  by (auto simp: is_digit_def jstart_def is_ws_def)

lemma minus_start: "jstart (CHR ''-'')"
  by (simp add: jstart_def is_ws_def)

lemma print_start: "wf_json j \<Longrightarrow> \<exists>c cs. print j = c # cs \<and> jstart c"
proof (cases j)
  case (JNum n)
  moreover assume "wf_json j"
  ultimately show ?thesis using num_lit_start [of n] is_digit_start minus_start by auto
qed (auto simp: print_str_def jstart_def is_ws_def)

lemma skip_ws_start: "jstart c \<Longrightarrow> skip_ws (c # cs) = c # cs"
  by (simp add: jstart_def)

lemma parse_scalar_num:
  "delim t \<Longrightarrow> num_lit n \<Longrightarrow> parse_scalar (n @ t) = Some (JNum n, t)"
  using num_lit_start [of n]
  by (auto simp: parse_scalar_def parse_num_delim dest: is_digit_start)

lemma parse_value_num:
  assumes "delim t" "num_lit n"
  shows "parse_value (Suc f) (n @ t) = Some (JNum n, t)"
proof -
  obtain c cs where n: "n = c # cs" "c = CHR ''-'' \<or> is_digit c" using num_lit_start [OF assms(2)] by blast
  then have "jstart c" "c \<noteq> quot" "c \<noteq> CHR ''[''" "c \<noteq> CHR ''{''"
    using is_digit_start minus_start by auto
  with n parse_scalar_num [OF assms] show ?thesis by (simp add: skip_ws_start jstart_def)
qed

lemma delim_simps [simp]: "delim []" "delim (CHR '','' # t)" "delim (CHR '']'' # t)" "delim (CHR ''}'' # t)"
  by (simp_all add: delim_def is_digit_def)

lemma ws_simps [simp]: "\<not> is_ws (CHR '','')" "\<not> is_ws (CHR '']'')" "\<not> is_ws (CHR ''}'')"
    "\<not> is_ws (CHR ''['')" "\<not> is_ws (CHR ''{'')" "\<not> is_ws (CHR '':'')" "\<not> is_ws quot"
  by (simp_all add: is_ws_def)

lemma parse_value_ok:
  assumes "jstart c" shows "parse_value (Suc f) (c # s) = (case c # s of [] \<Rightarrow> None | c # cs \<Rightarrow>
       if c = quot then map_option (\<lambda>(x, r). (JStr x, r)) (parse_str cs)
       else if c = CHR ''['' then
         (if first_is (CHR '']'') (skip_ws cs) then Some (JArr [], tl (skip_ws cs))
          else map_option (\<lambda>(js, r). (JArr js, r)) (parse_elems f cs))
       else if c = CHR ''{'' then
         (if first_is (CHR ''}'') (skip_ws cs) then Some (JObj [], tl (skip_ws cs))
          else map_option (\<lambda>(ms, r). (JObj ms, r)) (parse_members f cs))
       else parse_scalar (c # cs))"
  using assms by (simp add: jstart_def)

definition reads :: "json \<Rightarrow> bool" where
  "reads j \<longleftrightarrow> (\<forall>f t. delim t \<longrightarrow> jsize j \<le> f \<longrightarrow> parse_value f (print j @ t) = Some (j, t))"

lemma elems_read:
  "\<forall>j\<in>set js. reads j \<Longrightarrow> js \<noteq> [] \<Longrightarrow> sum_list (map (\<lambda>j. Suc (jsize j)) js) \<le> f
     \<Longrightarrow> parse_elems f (join (map print js) @ CHR '']'' # t) = Some (js, t)"
proof (induction js arbitrary: f)
  case Nil
  then show ?case by simp
next
  case (Cons j js)
  then obtain f' where f: "f = Suc f'" by (cases f) auto
  show ?case
  proof (cases js)
    case Nil
    with Cons f show ?thesis by (simp add: reads_def)
  next
    case (Cons k ks)
    with Cons.prems f have "parse_elems f' (join (map print js) @ CHR '']'' # t) = Some (js, t)"
      by (intro Cons.IH) auto
    moreover from Cons.prems f have "parse_value f' (print j @ CHR '','' # u) = Some (j, CHR '','' # u)" for u
      by (simp add: reads_def)
    ultimately show ?thesis using Cons f by simp
  qed
qed

abbreviation print_member :: "string \<times> json \<Rightarrow> string" where
  "print_member \<equiv> \<lambda>(k, j). print_str k @ CHR '':'' # print j"

lemma members_read:
  "\<forall>m\<in>set ms. reads (snd m) \<Longrightarrow> ms \<noteq> [] \<Longrightarrow> sum_list (map (\<lambda>m. Suc (jsize (snd m))) ms) \<le> f
     \<Longrightarrow> parse_members f (join (map print_member ms) @ CHR ''}'' # t) = Some (ms, t)"
proof (induction ms arbitrary: f)
  case Nil
  then show ?case by simp
next
  case (Cons m ms)
  obtain k j where m: "m = (k, j)" by (cases m)
  from Cons.prems obtain f' where f: "f = Suc f'" by (cases f) auto
  show ?case
  proof (cases ms)
    case Nil
    with Cons f m show ?thesis by (simp add: reads_def print_str_def parse_str_esc)
  next
    case (Cons n ns)
    with Cons.prems f have "parse_members f' (join (map print_member ms) @ CHR ''}'' # t) = Some (ms, t)"
      by (intro Cons.IH) auto
    moreover from Cons.prems f m have "parse_value f' (print j @ CHR '','' # u) = Some (j, CHR '','' # u)" for u
      by (simp add: reads_def)
    ultimately show ?thesis using Cons f m by (simp add: print_str_def parse_str_esc)
  qed
qed

lemma join_start:
  "xs \<noteq> [] \<Longrightarrow> hd xs = c # cs \<Longrightarrow> \<exists>u. join xs @ t = c # u"
  by (cases xs rule: join.cases) auto

lemma parse_value_read: "wf_json j \<Longrightarrow> reads j"
proof (induction j)
  case (JNum n)
  show ?case unfolding reads_def
  proof (intro allI impI)
    fix f t assume "delim t" "jsize (JNum n) \<le> f"
    with JNum parse_value_num show "parse_value f (print (JNum n) @ t) = Some (JNum n, t)"
      by (cases f) auto
  qed
next
  case (JArr js)
  then have R: "\<forall>j\<in>set js. reads j" by auto
  show ?case unfolding reads_def
  proof (intro allI impI)
    fix f t assume "jsize (JArr js) \<le> f"
    then obtain f' where f: "f = Suc f'" "sum_list (map (\<lambda>j. Suc (jsize j)) js) \<le> f'" by (cases f) auto
    show "parse_value f (print (JArr js) @ t) = Some (JArr js, t)"
    proof (cases js)
      case Nil
      with f show ?thesis by simp
    next
      case (Cons j ks)
      from Cons JArr.prems obtain c cs where "print j = c # cs" "jstart c" using print_start [of j] by auto
      with Cons join_start [of "map print js" c cs "CHR '']'' # t"]
      obtain u where "join (map print js) @ CHR '']'' # t = c # u" by auto
      with \<open>jstart c\<close> have "\<not> first_is (CHR '']'') (skip_ws (join (map print js) @ CHR '']'' # t))"
        by (auto simp: jstart_def)
      with f elems_read [OF R _ f(2), of t] Cons show ?thesis by simp
    qed
  qed
next
  case (JObj ms)
  then have R: "\<forall>m\<in>set ms. reads (snd m)" by (auto intro: snds.intros)
  show ?case unfolding reads_def
  proof (intro allI impI)
    fix f t assume "jsize (JObj ms) \<le> f"
    then obtain f' where f: "f = Suc f'" "sum_list (map (\<lambda>m. Suc (jsize (snd m))) ms) \<le> f'" by (cases f) auto
    show "parse_value f (print (JObj ms) @ t) = Some (JObj ms, t)"
    proof (cases ms)
      case Nil
      with f show ?thesis by simp
    next
      case (Cons m ns)
      then have "hd (map print_member ms) = quot # tl (print_member m)"
        by (simp add: print_str_def split: prod.split)
      with Cons join_start [of "map print_member ms" quot _ "CHR ''}'' # t"]
      obtain u where "join (map print_member ms) @ CHR ''}'' # t = quot # u" by blast
      then have "\<not> first_is (CHR ''}'') (skip_ws (join (map print_member ms) @ CHR ''}'' # t))"
        by auto
      with f members_read [OF R _ f(2), of t] Cons show ?thesis by simp
    qed
  qed
next
  case JNull
  show ?case by (auto simp: reads_def Suc_le_eq gr0_conv_Suc parse_scalar_def is_ws_def)
next
  case (JBool b)
  show ?case by (auto simp: reads_def Suc_le_eq gr0_conv_Suc parse_scalar_def is_ws_def)
next
  case (JStr x)
  show ?case by (auto simp: reads_def Suc_le_eq gr0_conv_Suc print_str_def parse_str_esc)
qed

lemma join_length: "xs \<noteq> [] \<Longrightarrow> length (join xs) + 1 = sum_list (map (\<lambda>x. Suc (length x)) xs)"
  by (induction xs rule: join.induct) auto

lemma jsize_length: "wf_json j \<Longrightarrow> jsize j \<le> 2 * length (print j)"
proof (induction j)
  case (JNum n)
  then show ?case using num_lit_start [of n] by auto
next
  case (JArr js)
  then have "\<forall>j\<in>set js. Suc (jsize j) \<le> 2 * Suc (length (print j))" by (force intro: le_SucI)
  then have "sum_list (map (\<lambda>j. Suc (jsize j)) js) \<le> sum_list (map (\<lambda>j. 2 * Suc (length (print j))) js)"
    by (intro sum_list_mono) auto
  also have "\<dots> = 2 * sum_list (map (\<lambda>x. Suc (length x)) (map print js))"
    by (simp only: sum_list_const_mult map_map o_def)
  also have "\<dots> \<le> 2 * (length (join (map print js)) + 1)"
    using join_length [of "map print js"] by (cases js) auto
  finally show ?case by simp
next
  case (JObj ms)
  then have "\<forall>m\<in>set ms. Suc (jsize (snd m)) \<le> 2 * Suc (length (print_member m))"
    by (fastforce intro: snds.intros)
  then have "sum_list (map (\<lambda>m. Suc (jsize (snd m))) ms) \<le> sum_list (map (\<lambda>m. 2 * Suc (length (print_member m))) ms)"
    by (intro sum_list_mono) auto
  also have "\<dots> = 2 * sum_list (map (\<lambda>x. Suc (length x)) (map print_member ms))"
    by (simp only: sum_list_const_mult map_map o_def)
  also have "\<dots> \<le> 2 * (length (join (map print_member ms)) + 1)"
    using join_length [of "map print_member ms"] by (cases ms) auto
  finally show ?case by simp
qed (auto simp: print_str_def)

lemma json_parse_print: "wf_json j \<Longrightarrow> json_parse (print j) = Some j"
proof -
  assume wf: "wf_json j"
  then have "jsize j \<le> 2 * length (print j) + 2" using jsize_length [of j] by simp
  with parse_value_read [OF wf] have "parse_value (2 * length (print j) + 2) (print j @ []) = Some (j, [])"
    unfolding reads_def by (metis delim_simps(1))
  then show ?thesis by (simp add: json_parse_def)
qed

lemma nat_digits_hd: "0 < n \<Longrightarrow> hd (nat_digits n) \<noteq> CHR ''0''"
proof (induction n rule: nat_digits.induct)
  case (1 n)
  show ?case
  proof (cases "n < 10")
    case True
    with 1 show ?thesis by (subst nat_digits.simps) (auto simp: digit_char_def char_of_eq_iff take_bit_eq_mod)
  next
    case False
    with 1 have "hd (nat_digits (n div 10)) \<noteq> CHR ''0''" by simp
    with False show ?thesis by (subst nat_digits.simps) (simp add: hd_append)
  qed
qed

lemma num_int_digits: "num_int (nat_digits n) = Some (nat_digits n, [])"
proof (cases "n = 0")
  case True
  then show ?thesis by (simp add: num_int_def nat_digits.simps digit_char_def char_of_eq_iff)
next
  case False
  obtain c cs where n: "nat_digits n = c # cs" by (cases "nat_digits n") auto
  with nat_digits_digits [of n] have "is_digit c" "list_all is_digit cs" by simp_all
  then have "takeWhile is_digit cs = cs" "dropWhile is_digit cs = []" by (simp_all add: list_all_iff)
  with n \<open>is_digit c\<close> nat_digits_hd [of n] False show ?thesis by (simp add: num_int_def)
qed

lemma itoa_lit [simp]: "num_lit (itoa i)"
proof -
  obtain c cs where n: "nat_digits m = c # cs \<and> c \<noteq> CHR ''-''" if "m = nat i" for m
    using nat_digits_digits [of "nat i"] is_digit_no_sign by (cases "nat_digits (nat i)") auto
  then show ?thesis using num_int_digits [of "nat i"]
    by (auto simp: num_lit_def parse_num_def itoa_def num_int_digits num_frac_def num_exp_def)
qed

section \<open>Decoding values into records\<close>

text \<open>
  \<open>json.Unmarshal\<close> into a struct reads the members in order.  A member belongs to the field with
  exactly its name, or else to the field whose name equals it up to letter case (U+017F folds to
  S, U+212A to K); members of no field are skipped.  A field setter turns the record read so far
  and the member's value into the new record, or fails on a type mismatch, after which the whole
  call reports an error.
\<close>

fun fold_key :: "string \<Rightarrow> string" where
  "fold_key [] = []"
| "fold_key (c # cs) =
     (if prefix [CHR 0xC5, CHR 0xBF] (c # cs) then CHR ''s'' # fold_key (drop 1 cs)
      else if prefix [CHR 0xE2, CHR 0x84, CHR 0xAA] (c # cs) then CHR ''k'' # fold_key (drop 2 cs)
      else to_lower c # fold_key cs)"

type_synonym 'r setter = "'r \<Rightarrow> json \<Rightarrow> 'r option"
type_synonym 'r fields = "(string \<times> 'r setter) list"

definition find_field :: "'r fields \<Rightarrow> string \<Rightarrow> 'r setter option" where
  "find_field fs k = (case map_of fs k of
      Some g \<Rightarrow> Some g
    | None \<Rightarrow> map_option snd (find (\<lambda>f. fold_key (fst f) = fold_key k) fs))"

fun decode_members :: "'r fields \<Rightarrow> (string \<times> json) list \<Rightarrow> 'r \<Rightarrow> 'r option" where
  "decode_members fs [] r = Some r"
| "decode_members fs ((k, j) # ms) r =
     (case find_field fs k of
        None \<Rightarrow> decode_members fs ms r
      | Some g \<Rightarrow> (case g r j of None \<Rightarrow> None | Some r' \<Rightarrow> decode_members fs ms r'))"

definition decode_struct :: "'r fields \<Rightarrow> 'r setter" where
  "decode_struct fs r j = (case j of
      JNull \<Rightarrow> Some r
    | JObj ms \<Rightarrow> decode_members fs ms r
    | _ \<Rightarrow> None)"

definition dec_string :: "string setter" where
  "dec_string old j = (case j of JNull \<Rightarrow> Some old | JStr s \<Rightarrow> Some s | _ \<Rightarrow> None)"

definition dec_bool :: "bool setter" where
  "dec_bool old j = (case j of JNull \<Rightarrow> Some old | JBool b \<Rightarrow> Some b | _ \<Rightarrow> None)"

definition dec_int64 :: "int setter" where
  "dec_int64 old j = (case j of JNull \<Rightarrow> Some old | JNum n \<Rightarrow> atoi n | _ \<Rightarrow> None)"

fun decode_elems :: "'a \<Rightarrow> 'a setter \<Rightarrow> json list \<Rightarrow> 'a list option" where
  "decode_elems z d [] = Some []"
| "decode_elems z d (j # js) = (case d z j of
      None \<Rightarrow> None
    | Some x \<Rightarrow> (case decode_elems z d js of None \<Rightarrow> None | Some xs \<Rightarrow> Some (x # xs)))"

definition dec_list :: "'a \<Rightarrow> 'a setter \<Rightarrow> 'a list setter" where
  "dec_list z d old j = (case j of
      JNull \<Rightarrow> Some [] | JArr js \<Rightarrow> decode_elems z d js | _ \<Rightarrow> None)"

fun decode_entries :: "'a \<Rightarrow> 'a setter \<Rightarrow> (string \<times> json) list \<Rightarrow> (string \<times> 'a) list
    \<Rightarrow> (string \<times> 'a) list option" where
  "decode_entries z d [] m = Some m"
| "decode_entries z d ((k, j) # ms) m = (case d z j of
      None \<Rightarrow> None | Some x \<Rightarrow> decode_entries z d ms (AList.update k x m))"

definition dec_map :: "'a \<Rightarrow> 'a setter \<Rightarrow> (string \<times> 'a) list setter" where
  "dec_map z d old j = (case j of
      JNull \<Rightarrow> Some [] | JObj ms \<Rightarrow> decode_entries z d ms old | _ \<Rightarrow> None)"

text \<open>A pointer field is nil for null and points at a fresh value otherwise.\<close>

definition dec_ptr :: "'a \<Rightarrow> 'a setter \<Rightarrow> 'a option setter" where
  "dec_ptr z d old j = (case j of
      JNull \<Rightarrow> Some None
    | _ \<Rightarrow> map_option Some (d (case old of None \<Rightarrow> z | Some x \<Rightarrow> x) j))"

text \<open>A \<open>json.RawMessage\<close> field keeps the value it was given.\<close>

definition dec_raw :: "json option setter" where
  "dec_raw old j = Some (Some j)"

text \<open>A field of a record, from a setter of its value.\<close>

definition field :: "('r \<Rightarrow> 'a) \<Rightarrow> ('a \<Rightarrow> 'r \<Rightarrow> 'r) \<Rightarrow> 'a setter \<Rightarrow> 'r setter" where
  "field get put d r j = map_option (\<lambda>x. put x r) (d (get r) j)"

definition unmarshal :: "'r setter \<Rightarrow> 'r \<Rightarrow> string \<Rightarrow> 'r option" where
  "unmarshal d z s = (case json_parse s of None \<Rightarrow> None | Some j \<Rightarrow> d z j)"

section \<open>Encoding records\<close>

text \<open>The members of a struct in field order; \<open>omitempty\<close> drops a zero value.\<close>

definition omit_str :: "string \<Rightarrow> string \<Rightarrow> (string \<times> json) list" where
  "omit_str k v = (if v = [] then [] else [(k, JStr v)])"

definition omit_int :: "string \<Rightarrow> int \<Rightarrow> (string \<times> json) list" where
  "omit_int k v = (if v = 0 then [] else [(k, JNum (itoa v))])"

text \<open>\<open>json.Marshal\<close> writes the entries of a map in ascending order of their keys.\<close>

definition json_map :: "('a \<Rightarrow> json) \<Rightarrow> (string \<times> 'a) list \<Rightarrow> json" where
  "json_map enc m = JObj (map (\<lambda>(k, v). (k, enc v)) (sort_key fst m))"

definition omit_map :: "('a \<Rightarrow> json) \<Rightarrow> string \<Rightarrow> (string \<times> 'a) list \<Rightarrow> (string \<times> json) list" where
  "omit_map enc k m = (if m = [] then [] else [(k, json_map enc m)])"

definition omit_list :: "('a \<Rightarrow> json) \<Rightarrow> string \<Rightarrow> 'a list \<Rightarrow> (string \<times> json) list" where
  "omit_list enc k xs = (if xs = [] then [] else [(k, JArr (map enc xs))])"

abbreviation json_strs :: "string list \<Rightarrow> json" where
  "json_strs xs \<equiv> JArr (map JStr xs)"

section \<open>Facts about encoding and decoding\<close>

lemma find_field_exact [dec_simps]: "map_of fs k = Some g \<Longrightarrow> find_field fs k = Some g"
  by (simp add: find_field_def)

lemma decode_members_append:
  "decode_members fs (ms @ ns) r = Option.bind (decode_members fs ms r) (decode_members fs ns)"
  by (induction fs ms r rule: decode_members.induct) (auto split: option.splits)

lemma find_field_set: "find_field fs k = Some g \<Longrightarrow> g \<in> snd ` set fs"
  by (auto simp: find_field_def find_Some_iff split: option.splits dest!: map_of_SomeD)
    (metis image_eqI nth_mem snd_conv)+

text \<open>What every field setter keeps, decoding an object keeps.\<close>

lemma decode_members_inv:
  assumes "\<And>g r j r'. g \<in> snd ` set fs \<Longrightarrow> P r \<Longrightarrow> g r j = Some r' \<Longrightarrow> P r'"
  shows "P r \<Longrightarrow> decode_members fs ms r = Some r' \<Longrightarrow> P r'"
  using assms
proof (induction fs ms r rule: decode_members.induct)
  case (2 fs k j ms r)
  show ?case
  proof (cases "find_field fs k")
    case None
    with 2 show ?thesis by simp
  next
    case (Some g)
    with 2 obtain r1 where r1: "g r j = Some r1" "decode_members fs ms r1 = Some r'"
      by (auto split: option.splits)
    from find_field_set [OF Some] 2(3) r1(1) have "P r1" by (rule 2(5))
    with 2(2) [OF Some r1(1)] r1(2) 2(5) show ?thesis by blast
  qed
qed simp

lemma decode_entries_wf: "wf_map m \<Longrightarrow> decode_entries z d ms m = Some m' \<Longrightarrow> wf_map m'"
  by (induction z d ms m rule: decode_entries.induct)
    (auto simp: wf_map_def distinct_update split: option.splits)

lemma dec_map_wf: "wf_map m \<Longrightarrow> dec_map z d m j = Some m' \<Longrightarrow> wf_map m'"
  by (auto simp: dec_map_def intro: decode_entries_wf split: json.splits)

lemma dec_value_simps [dec_simps, simp]:
  "dec_string old (JStr s) = Some s"
  "dec_bool b0 (JBool b) = Some b"
  "in_int64 i \<Longrightarrow> dec_int64 i0 (JNum (itoa i)) = Some i"
  by (simp_all add: dec_string_def dec_bool_def dec_int64_def atoi_itoa)

lemma decode_omit_str [dec_simps]:
  "map_of fs k = Some (field get put dec_string) \<Longrightarrow> get r = [] \<Longrightarrow> put [] r = r
     \<Longrightarrow> decode_members fs (omit_str k v) r = Some (put v r)"
  by (simp add: omit_str_def find_field_exact field_def)

lemma decode_omit_int [dec_simps]:
  "map_of fs k = Some (field get put dec_int64) \<Longrightarrow> in_int64 v \<Longrightarrow> put 0 r = r
     \<Longrightarrow> decode_members fs (omit_int k v) r = Some (put v r)"
  by (simp add: omit_int_def find_field_exact field_def)

lemma decode_entries_distinct:
  assumes "\<And>x z. d z (enc x) = Some x" "distinct (map fst (m @ ms))"
  shows "decode_entries z d (map (\<lambda>(k, v). (k, enc v)) ms) m = Some (m @ ms)"
  using assms(2)
proof (induction ms arbitrary: m)
  case Nil
  then show ?case by simp
next
  case (Cons e ms)
  obtain k v where e: "e = (k, v)" by (cases e)
  with Cons.prems have u: "AList.update k v m = m @ [(k, v)]"
    by (induction m) auto
  show ?case using Cons.IH [of "m @ [e]"] Cons.prems e u assms(1) by simp
qed

text \<open>A map survives the wire, up to the order of its entries.\<close>

lemma dec_map_json_map:
  assumes "\<And>x z. d z (enc x) = Some x" "wf_map m"
  shows "dec_map z d [] (json_map enc m) = Some (sort_key fst m)"
proof -
  have "distinct (map fst (sort_key fst m))"
    using assms(2) by (simp add: wf_map_def distinct_map inj_on_def)
  with decode_entries_distinct [OF assms(1), of "[]" "sort_key fst m"] show ?thesis
    by (simp add: dec_map_def json_map_def)
qed

lemma map_of_sort_key: "wf_map m \<Longrightarrow> map_of (sort_key fst m) = map_of m"
  unfolding wf_map_def by (rule map_of_eqI) (auto simp: distinct_map inj_on_def intro: map_of_is_SomeI)

lemma decode_elems_map:
  "(\<And>x z. d z (enc x) = Some x) \<Longrightarrow> decode_elems z d (map enc xs) = Some xs"
  by (induction xs) auto

lemma dec_list_map: "(\<And>x z. d z (enc x) = Some x) \<Longrightarrow> dec_list z d old (JArr (map enc xs)) = Some xs"
  by (simp add: dec_list_def decode_elems_map)

lemma dec_strs [simp, dec_simps]: "dec_list [] dec_string old (json_strs xs) = Some xs"
  by (rule dec_list_map) simp

lemma unmarshal_print: "wf_json j \<Longrightarrow> unmarshal d z (print j) = d z j"
  by (simp add: unmarshal_def json_parse_print)

lemma wf_omit [simp]:
  "\<forall>m\<in>set (omit_str k v). wf_json (snd m)" "\<forall>m\<in>set (omit_int k i). wf_json (snd m)"
  "(\<And>x. wf_json (enc x)) \<Longrightarrow> \<forall>m\<in>set (omit_map enc k l). wf_json (snd m)"
  "(\<And>x. wf_json (enc x)) \<Longrightarrow> \<forall>m\<in>set (omit_list enc k xs). wf_json (snd m)"
  by (auto simp: omit_str_def omit_int_def omit_map_def omit_list_def json_map_def)

end
