(* ===== verification/Customer.thy ===== *)
theory Customer
  imports Transport Json
begin

text \<open>
  internal/amberflo/customer.go: the customer's wire format, GetCustomer, EnsureCustomer and
  DisableCustomer.  The operations are computations over the client's \<open>net\<close> state and return a Go
  error (\<open>Inl\<close>) or a customer (\<open>Inr\<close>).
\<close>

section \<open>Data\<close>

record PaymentTerms =
  NetDays :: int
  InvoiceFrequency :: string
  InvoiceDayOfMonth :: int

record DesiredCustomer =
  dc_ID :: string
  dc_Name :: string
  dc_Email :: string
  dc_CurrencyCode :: string
  dc_PaymentTerms :: "PaymentTerms option"
  dc_Projects :: "string list"
  dc_ExtraTraits :: strmap

record Customer =
  cu_ID :: string
  cu_Name :: string
  cu_Email :: string
  cu_Enabled :: bool
  cu_Traits :: strmap
  cu_UpdatedAt :: int
  cu_Raw :: string

record wireCustomer =
  wc_CustomerId :: string
  wc_CustomerName :: string
  wc_CustomerEmail :: string
  wc_Traits :: strmap
  wc_LifecycleStage :: string
  wc_Enabled :: bool
  wc_UpdateTime :: int
  wc_CreateTime :: int

definition zero_wireCustomer :: wireCustomer where
  "zero_wireCustomer = \<lparr>wc_CustomerId = [], wc_CustomerName = [], wc_CustomerEmail = [], wc_Traits = [],
     wc_LifecycleStage = [], wc_Enabled = False, wc_UpdateTime = 0, wc_CreateTime = 0\<rparr>"

text \<open>The struct tags of \<open>wireCustomer\<close>: decoding and encoding.\<close>

definition wireCustomer_fields :: "wireCustomer fields" where
  "wireCustomer_fields =
    [(''customerId'', field wc_CustomerId (\<lambda>x. wc_CustomerId_update (\<lambda>_. x)) dec_string),
     (''customerName'', field wc_CustomerName (\<lambda>x. wc_CustomerName_update (\<lambda>_. x)) dec_string),
     (''customerEmail'', field wc_CustomerEmail (\<lambda>x. wc_CustomerEmail_update (\<lambda>_. x)) dec_string),
     (''traits'', field wc_Traits (\<lambda>x. wc_Traits_update (\<lambda>_. x)) (dec_map [] dec_string)),
     (''lifecycleStage'', field wc_LifecycleStage (\<lambda>x. wc_LifecycleStage_update (\<lambda>_. x)) dec_string),
     (''enabled'', field wc_Enabled (\<lambda>x. wc_Enabled_update (\<lambda>_. x)) dec_bool),
     (''updateTime'', field wc_UpdateTime (\<lambda>x. wc_UpdateTime_update (\<lambda>_. x)) dec_int64),
     (''createTime'', field wc_CreateTime (\<lambda>x. wc_CreateTime_update (\<lambda>_. x)) dec_int64)]"

definition dec_wireCustomer :: "string \<Rightarrow> wireCustomer option" where
  "dec_wireCustomer = unmarshal (decode_struct wireCustomer_fields) zero_wireCustomer"

definition enc_wireCustomer :: "wireCustomer \<Rightarrow> json" where
  "enc_wireCustomer wc = JObj
     ([(''customerId'', JStr (wc_CustomerId wc)), (''customerName'', JStr (wc_CustomerName wc))]
      @ omit_str ''customerEmail'' (wc_CustomerEmail wc)
      @ omit_map JStr ''traits'' (wc_Traits wc)
      @ omit_str ''lifecycleStage'' (wc_LifecycleStage wc)
      @ [(''enabled'', JBool (wc_Enabled wc))]
      @ omit_int ''updateTime'' (wc_UpdateTime wc)
      @ omit_int ''createTime'' (wc_CreateTime wc))"

section \<open>Building the wire customer\<close>

definition encodeProjects :: "string list \<Rightarrow> string" where
  "encodeProjects ps = print (json_strs (sorted_set ps))"

text \<open>The trait map: the extra traits first, then the keys the client owns.\<close>

definition build_traits :: "DesiredCustomer \<Rightarrow> strmap" where
  "build_traits d =
     (let t0 = fold (\<lambda>(k, v) m. mset_key k v m) (dc_ExtraTraits d) [];
          t1 = mset_key ''currencyCode'' (dc_CurrencyCode d) t0;
          t2 = (if dc_Projects d \<noteq> [] then mset_key ''projects'' (encodeProjects (dc_Projects d)) t1 else t1)
      in case dc_PaymentTerms d of
           None \<Rightarrow> t2
         | Some pt \<Rightarrow>
             mset_key ''payment.invoiceDayOfMonth'' (itoa (InvoiceDayOfMonth pt))
               (mset_key ''payment.invoiceFrequency'' (InvoiceFrequency pt)
                 (mset_key ''payment.netDays'' (itoa (NetDays pt)) t2)))"

definition buildWireCustomer :: "DesiredCustomer \<Rightarrow> wireCustomer" where
  "buildWireCustomer d =
     \<lparr>wc_CustomerId = dc_ID d,
      wc_CustomerName = (if dc_Name d = [] then dc_ID d else dc_Name d),
      wc_CustomerEmail = dc_Email d, wc_Traits = build_traits d, wc_LifecycleStage = [],
      wc_Enabled = True, wc_UpdateTime = 0, wc_CreateTime = 0\<rparr>"

definition traitsEqual :: "strmap \<Rightarrow> strmap \<Rightarrow> bool" where
  "traitsEqual a b \<longleftrightarrow> length a = length b \<and> list_all (\<lambda>(k, v). map_of b k = Some v) a"

definition cloneTraits :: "strmap \<Rightarrow> strmap" where
  "cloneTraits m = m"

definition fromWire :: "wireCustomer \<Rightarrow> string \<Rightarrow> Customer" where
  "fromWire wc raw =
     \<lparr>cu_ID = wc_CustomerId wc, cu_Name = wc_CustomerName wc, cu_Email = wc_CustomerEmail wc,
      cu_Enabled = wc_Enabled wc, cu_Traits = cloneTraits (wc_Traits wc),
      cu_UpdatedAt = (if wc_UpdateTime wc > 0 then time_UnixMilli (wc_UpdateTime wc) else zero_time),
      cu_Raw = raw\<rparr>"

definition customerNeedsUpdate :: "Customer \<Rightarrow> wireCustomer \<Rightarrow> bool" where
  "customerNeedsUpdate existing want \<longleftrightarrow>
     (if cu_Name existing \<noteq> wc_CustomerName want then True
      else if cu_Email existing \<noteq> wc_CustomerEmail want then True
      else if cu_Enabled existing \<noteq> wc_Enabled want then True
      else \<not> traitsEqual (cu_Traits existing) (wc_Traits want))"

section \<open>Operations\<close>

definition customer_not_found :: "string \<Rightarrow> goerr" where
  "customer_not_found cid = Wrap [] (Sentinel ErrCustomerNotFound) ('': '' @ cid)"

definition GetCustomer :: "'w client \<Rightarrow> string \<Rightarrow> ('w net, goerr + Customer) io" where
  "GetCustomer c customerID =
     (if customerID = [] then ret (Inl (permanent ''customerID is required''))
      else do {
        r \<leftarrow> doJSON c ''GET'' (''/customers/'' @ customerID) NoBody dec_wireCustomer zero_wireCustomer;
        ret (case rp_err r of
          Some e \<Rightarrow> if is_404 e then Inl (customer_not_found customerID) else Inl e
        | None \<Rightarrow>
            if rp_status r = 200
               \<and> (rp_body r = [] \<or> rp_body r = ''{}'' \<or> wc_CustomerId (rp_val r) = [])
            then Inl (customer_not_found customerID)
            else Inr (fromWire (rp_val r) (rp_body r)))
      })"

definition putCustomer :: "'w client \<Rightarrow> string \<Rightarrow> wireCustomer \<Rightarrow> ('w net, goerr + Customer) io" where
  "putCustomer c meth wc =
     (if meth \<noteq> ''POST'' \<and> meth \<noteq> ''PUT'' then
        ret (Inl (permanent (''unsupported method '' @ print_str meth)))
      else do {
        r \<leftarrow> doJSON c meth
             (if meth = ''POST'' then ''/customers?autoCreateCustomerInStripe=false'' else ''/customers'')
             (Encoded (print (enc_wireCustomer wc))) dec_wireCustomer zero_wireCustomer;
        ret (case rp_err r of
          Some e \<Rightarrow> Inl e
        | None \<Rightarrow> Inr (fromWire (if wc_CustomerId (rp_val r) = [] then wc else rp_val r) (rp_body r)))
      })"

definition EnsureCustomer :: "'w client \<Rightarrow> DesiredCustomer \<Rightarrow> ('w net, goerr + Customer) io" where
  "EnsureCustomer c desired =
     (if dc_ID desired = [] then ret (Inl (permanent ''DesiredCustomer.ID is required''))
      else do {
        got \<leftarrow> GetCustomer c (dc_ID desired);
        case got of
          Inl e \<Rightarrow>
            if errors_Is e ErrCustomerNotFound then putCustomer c ''POST'' (buildWireCustomer desired)
            else ret (Inl e)
        | Inr existing \<Rightarrow>
            if \<not> customerNeedsUpdate existing (buildWireCustomer desired) then ret (Inr existing)
            else putCustomer c ''PUT'' (buildWireCustomer desired)
      })"

text \<open>The body \<open>DisableCustomer\<close> writes over the customer it found.\<close>

definition disabled_wire :: "Customer \<Rightarrow> int \<Rightarrow> wireCustomer" where
  "disabled_wire existing now =
     \<lparr>wc_CustomerId = cu_ID existing,
      wc_CustomerName = (if cu_Name existing = [] then cu_ID existing else cu_Name existing),
      wc_CustomerEmail = cu_Email existing,
      wc_Traits = mset_key ''archived_at'' (format_RFC3339 now)
                    (mset_key ''enabled'' ''false'' (cloneTraits (cu_Traits existing))),
      wc_LifecycleStage = [], wc_Enabled = False, wc_UpdateTime = 0, wc_CreateTime = 0\<rparr>"

definition DisableCustomer :: "'w client \<Rightarrow> string \<Rightarrow> ('w net, goerr option) io" where
  "DisableCustomer c customerID =
     (if customerID = [] then ret (Some (permanent ''customerID is required''))
      else do {
        got \<leftarrow> GetCustomer c customerID;
        case got of
          Inl e \<Rightarrow> ret (if errors_Is e ErrCustomerNotFound then None else Some e)
        | Inr existing \<Rightarrow> do {
            now \<leftarrow> now_of c;
            put \<leftarrow> putCustomer c ''PUT'' (disabled_wire existing now);
            ret (case put of Inl e \<Rightarrow> Some e | Inr _ \<Rightarrow> None)
          }
      })"

section \<open>The wire format\<close>

lemma wireCustomer_field [dec_simps]:
  "map_of wireCustomer_fields ''customerId'' = Some (field wc_CustomerId (\<lambda>x. wc_CustomerId_update (\<lambda>_. x)) dec_string)"
  "map_of wireCustomer_fields ''customerName'' = Some (field wc_CustomerName (\<lambda>x. wc_CustomerName_update (\<lambda>_. x)) dec_string)"
  "map_of wireCustomer_fields ''customerEmail'' = Some (field wc_CustomerEmail (\<lambda>x. wc_CustomerEmail_update (\<lambda>_. x)) dec_string)"
  "map_of wireCustomer_fields ''traits'' = Some (field wc_Traits (\<lambda>x. wc_Traits_update (\<lambda>_. x)) (dec_map [] dec_string))"
  "map_of wireCustomer_fields ''lifecycleStage'' = Some (field wc_LifecycleStage (\<lambda>x. wc_LifecycleStage_update (\<lambda>_. x)) dec_string)"
  "map_of wireCustomer_fields ''enabled'' = Some (field wc_Enabled (\<lambda>x. wc_Enabled_update (\<lambda>_. x)) dec_bool)"
  "map_of wireCustomer_fields ''updateTime'' = Some (field wc_UpdateTime (\<lambda>x. wc_UpdateTime_update (\<lambda>_. x)) dec_int64)"
  "map_of wireCustomer_fields ''createTime'' = Some (field wc_CreateTime (\<lambda>x. wc_CreateTime_update (\<lambda>_. x)) dec_int64)"
  by (simp_all add: wireCustomer_fields_def)

lemma enc_wireCustomer_wf: "wf_json (enc_wireCustomer wc)"
  unfolding enc_wireCustomer_def by (auto simp: omit_str_def omit_int_def omit_map_def json_map_def)

lemma decode_omit_map [dec_simps]:
  assumes "map_of fs k = Some (field get put (dec_map [] dec_string))" "get r = []" "put [] r = r" "wf_map m"
  shows "decode_members fs (omit_map JStr k m) r = Some (put (sort_key fst m) r)"
  using assms dec_map_json_map [of dec_string JStr m "[]"]
  by (auto simp: omit_map_def find_field_exact field_def)

definition wire_ok :: "wireCustomer \<Rightarrow> bool" where
  "wire_ok wc \<longleftrightarrow> wf_map (wc_Traits wc) \<and> in_int64 (wc_UpdateTime wc) \<and> in_int64 (wc_CreateTime wc)"

lemma decode_wireCustomer:
  assumes "wire_ok wc"
  shows "dec_wireCustomer (print (enc_wireCustomer wc)) = Some (wc\<lparr>wc_Traits := sort_key fst (wc_Traits wc)\<rparr>)"
  using assms
  by (simp add: dec_wireCustomer_def unmarshal_print enc_wireCustomer_wf)
    (simp add: enc_wireCustomer_def decode_struct_def decode_members_append zero_wireCustomer_def
      wire_ok_def dec_simps field_def)

interpretation customer_get: json_call
  "\<lambda>c path. doJSON c ''GET'' path NoBody dec_wireCustomer zero_wireCustomer" dec_wireCustomer zero_wireCustomer
  by unfold_locales (rule doJSON_law, assumption, assumption, simp)

section \<open>Traits\<close>

lemma map_of_fold_mset:
  "map_of (fold (\<lambda>(k, v) m. mset_key k v m) xs m) = map_of m ++ map_of (rev xs)"
  by (induction xs arbitrary: m) (auto simp: map_add_upd_left map_add_def fun_eq_iff split: option.splits)

lemma wf_fold_mset: "wf_map m \<Longrightarrow> wf_map (fold (\<lambda>(k, v) m. mset_key k v m) xs m)"
  by (induction xs arbitrary: m) auto

lemma build_traits_wf [simp]: "wf_map (build_traits d)"
  by (simp add: build_traits_def Let_def wf_fold_mset split: option.split)

definition payment_trait :: "PaymentTerms \<Rightarrow> string \<Rightarrow> string option" where
  "payment_trait pt k =
     (if k = ''payment.netDays'' then Some (itoa (NetDays pt))
      else if k = ''payment.invoiceFrequency'' then Some (InvoiceFrequency pt)
      else if k = ''payment.invoiceDayOfMonth'' then Some (itoa (InvoiceDayOfMonth pt)) else None)"

lemma build_traits_lookup:
  "map_of (build_traits d) k =
     (case Option.bind (dc_PaymentTerms d) (\<lambda>pt. payment_trait pt k) of
        Some v \<Rightarrow> Some v
      | None \<Rightarrow>
         if k = ''projects'' \<and> dc_Projects d \<noteq> [] then Some (encodeProjects (dc_Projects d))
         else if k = ''currencyCode'' then Some (dc_CurrencyCode d)
         else map_of (rev (dc_ExtraTraits d)) k)"
  by (cases "dc_PaymentTerms d")
    (auto simp: build_traits_def Let_def payment_trait_def map_of_fold_mset map_add_def split: option.split)

lemma map_of_rev_wf: "wf_map m \<Longrightarrow> map_of (rev m) = map_of m"
  unfolding wf_map_def by (rule map_of_eqI) (auto simp: rev_map [symmetric] intro: map_of_is_SomeI)

lemma traitsEqual_iff:
  assumes "wf_map a" "wf_map b"
  shows "traitsEqual a b \<longleftrightarrow> map_of a = map_of b"
proof
  assume e: "traitsEqual a b"
  have "map_of a \<subseteq>\<^sub>m map_of b"
  proof (unfold map_le_def, rule ballI)
    fix k assume "k \<in> dom (map_of a)"
    then obtain v where "map_of a k = Some v" by auto
    then have "(k, v) \<in> set a" by (rule map_of_SomeD)
    with e \<open>map_of a k = Some v\<close> show "map_of a k = map_of b k" by (auto simp: traitsEqual_def list_all_iff)
  qed
  with e assms show "map_of a = map_of b" by (intro map_of_le_eq) (simp_all add: traitsEqual_def)
next
  assume e: "map_of a = map_of b"
  with assms have "length a = length b" by (metis card_keys)
  moreover have "map_of b k = Some v" if "(k, v) \<in> set a" for k v
    using that assms(1) e by (metis map_of_is_SomeI wf_map_def)
  ultimately show "traitsEqual a b" by (auto simp: traitsEqual_def list_all_iff)
qed

lemma wf_sort_key [simp]: "wf_map (sort_key f m) = wf_map m"
  by (simp add: wf_map_def distinct_map inj_on_def)

section \<open>The store behind the API\<close>

text \<open>
  Amberflo documents its customer store: a successful POST or PUT of a customer's JSON to
  /customers keeps that JSON; a GET of /customers/<id> answers 200 with what is kept and changes
  nothing, and a GET that succeeds with a body showed what is kept.  The limiter does not touch
  the store.  \<open>kept\<close> reads it.
\<close>

definition customer_store :: "'w client \<Rightarrow> ('w \<Rightarrow> string \<Rightarrow> string option) \<Rightarrow> bool" where
  "customer_store c kept \<longleftrightarrow>
     (\<forall>w. cl_wait c w = (None, w))
     \<and> (\<forall>req w out w' b wc. cl_do c req w = (out, w') \<longrightarrow> rq_Method req \<noteq> ''GET''
          \<longrightarrow> rq_Path req = ''/customers'' \<longrightarrow> rq_Body req = Some b \<longrightarrow> dec_wireCustomer b = Some wc
          \<longrightarrow> success_outcome out \<longrightarrow> kept w' (wc_CustomerId wc) = Some b)
     \<and> (\<forall>req w cid b. rq_Method req = ''GET'' \<longrightarrow> rq_Path req = ''/customers/'' @ cid
          \<longrightarrow> kept w cid = Some b \<longrightarrow> (\<exists>ra. cl_do c req w = (Response 200 ra b, w)))
     \<and> (\<forall>req w out w' cid. cl_do c req w = (out, w') \<longrightarrow> rq_Method req = ''GET''
          \<longrightarrow> rq_Path req = ''/customers/'' @ cid \<longrightarrow> success_outcome out
          \<longrightarrow> outcome_status out = 200
            \<and> (outcome_body out \<noteq> [] \<longrightarrow> kept w' cid = Some (outcome_body out)))"

lemma dec_wireCustomer_empty: "dec_wireCustomer [] = None" "dec_wireCustomer ''{}'' = Some zero_wireCustomer"
  by code_simp+

lemma store_wait: "customer_store c kept \<Longrightarrow> cl_wait c w = (None, w)"
  unfolding customer_store_def by blast

lemma store_put:
  "customer_store c kept \<Longrightarrow> cl_do c req w = (out, w') \<Longrightarrow> rq_Method req \<noteq> ''GET''
     \<Longrightarrow> rq_Path req = ''/customers'' \<Longrightarrow> rq_Body req = Some b \<Longrightarrow> dec_wireCustomer b = Some wc
     \<Longrightarrow> success_outcome out \<Longrightarrow> kept w' (wc_CustomerId wc) = Some b"
  unfolding customer_store_def by blast

lemma store_get:
  "customer_store c kept \<Longrightarrow> rq_Method req = ''GET'' \<Longrightarrow> rq_Path req = ''/customers/'' @ cid
     \<Longrightarrow> kept w cid = Some b \<Longrightarrow> \<exists>ra. cl_do c req w = (Response 200 ra b, w)"
  unfolding customer_store_def by blast

lemma store_got:
  "customer_store c kept \<Longrightarrow> cl_do c req w = (out, w') \<Longrightarrow> rq_Method req = ''GET''
     \<Longrightarrow> rq_Path req = ''/customers/'' @ cid \<Longrightarrow> success_outcome out
     \<Longrightarrow> outcome_status out = 200 \<and> (outcome_body out \<noteq> [] \<longrightarrow> kept w' cid = Some (outcome_body out))"
  unfolding customer_store_def by blast

text \<open>Reading a kept customer takes one GET.\<close>

lemma GetCustomer_kept:
  assumes "undisturbed c" "cl_retries c \<ge> 1" "customer_store c kept"
    and "cid \<noteq> []" "CHR ''?'' \<notin> set cid"
    and "kept (net_world s) cid = Some b" "dec_wireCustomer b = Some wc" "wc_CustomerId wc \<noteq> []"
  shows "\<exists>req out. rq_Method req = ''GET''
    \<and> run_state (GetCustomer c cid) s = (Inr (fromWire wc b), s\<lparr>net_log := net_log s @ [Sent req out]\<rparr>)"
proof -
  obtain req where req: "build_request c ''GET'' (''/customers/'' @ cid) (body_bytes NoBody) = Some req"
    "rq_Method req = ''GET''" "rq_Path req = ''/customers/'' @ cid"
    using build_request_plain [of "''/customers/'' @ cid" c "''GET''" "body_bytes NoBody"] assms(5) by auto
  from store_get [OF assms(3) req(2,3) assms(6)]
  obtain ra where do: "cl_do c req (net_world s) = (Response 200 ra b, net_world s)" by blast
  have b: "b \<noteq> []" "b \<noteq> ''{}''"
    using assms(7,8) dec_wireCustomer_empty by (auto simp: zero_wireCustomer_def)
  have "run_state (doJSON c ''GET'' (''/customers/'' @ cid) NoBody dec_wireCustomer zero_wireCustomer) s
    = (\<lparr>rp_status = 200, rp_body = b, rp_err = None, rp_val = wc\<rparr>,
       s\<lparr>net_log := net_log s @ [Sent req (Response 200 ra b)]\<rparr>)"
    using doJSON_first [OF assms(1,2) req(1) _ store_wait [OF assms(3)] do, of dec_wireCustomer zero_wireCustomer]
      assms(7) b
    by (simp add: success_outcome_def decode_reply_def outcome_status_def outcome_body_def)
  with assms(4,8) b req(2) show ?thesis by (auto simp: GetCustomer_def run_simps)
qed

lemma putCustomer_kept:
  assumes "cl_retries c \<ge> 1" "customer_store c kept" "wire_ok wc"
    and "run_state (putCustomer c meth wc) s = (Inr cust, s')"
  shows "kept (net_world s') (wc_CustomerId wc) = Some (print (enc_wireCustomer wc))"
proof -
  let ?b = "print (enc_wireCustomer wc)"
  let ?path = "if meth = ''POST'' then ''/customers?autoCreateCustomerInStripe=false'' else ''/customers''"
  from assms(4) have m: "meth = ''POST'' \<or> meth = ''PUT''"
    by (auto simp: putCustomer_def run_simps split: if_splits)
  obtain r where r: "run_state (doJSON c meth ?path (Encoded ?b) dec_wireCustomer zero_wireCustomer) s = (r, s')"
    "rp_err r = None"
    using assms(4) m by (auto simp: putCustomer_def run_simps split: prod.splits option.splits if_splits)
  from doJSON_ok [OF r assms(1)] obtain req w out where
    req: "build_request c meth ?path (Some ?b) = Some req"
    and do: "cl_do c req w = (out, net_world s')" "success_outcome out"
    by (auto simp: body_bytes_def)
  from build_request_path [OF req] m have "rq_Method req \<noteq> ''GET''" "rq_Path req = ''/customers''" "rq_Body req = Some ?b"
    by (auto simp: resolve_def)
  from store_put [OF assms(2) do(1) this decode_wireCustomer [OF assms(3)] do(2)] show ?thesis by simp
qed

lemma build_wire_ok [simp]: "wire_ok (buildWireCustomer d)"
  by (simp add: wire_ok_def buildWireCustomer_def in_int64_def)

lemma want_id [simp]: "wc_CustomerId (buildWireCustomer d) = dc_ID d"
  by (simp add: buildWireCustomer_def)

lemma matching_wire:
  "wire_ok wc \<Longrightarrow> \<not> customerNeedsUpdate (fromWire (wc\<lparr>wc_Traits := sort_key fst (wc_Traits wc)\<rparr>) b) wc"
  by (simp add: customerNeedsUpdate_def fromWire_def cloneTraits_def wire_ok_def traitsEqual_iff map_of_sort_key)

lemma GetCustomer_found:
  assumes "cl_retries c \<ge> 1" "customer_store c kept" "CHR ''?'' \<notin> set cid"
    and "run_state (GetCustomer c cid) s = (Inr cust, s')"
  shows "\<exists>wc b. kept (net_world s') cid = Some b \<and> dec_wireCustomer b = Some wc
     \<and> wc_CustomerId wc \<noteq> [] \<and> cust = fromWire wc b"
proof -
  obtain r where r: "run_state (doJSON c ''GET'' (''/customers/'' @ cid) NoBody dec_wireCustomer zero_wireCustomer) s = (r, s')"
    "rp_err r = None"
    "\<not> (rp_status r = 200 \<and> (rp_body r = [] \<or> rp_body r = ''{}'' \<or> wc_CustomerId (rp_val r) = []))"
    "cust = fromWire (rp_val r) (rp_body r)"
    using assms(4) by (auto simp: GetCustomer_def run_simps split: prod.splits option.splits if_splits)
  from doJSON_ok [OF r(1,2) assms(1)] obtain req w out where
    req: "build_request c ''GET'' (''/customers/'' @ cid) None = Some req"
    and do: "cl_do c req w = (out, net_world s')" "success_outcome out"
    and out: "r = decode_reply dec_wireCustomer zero_wireCustomer (outcome_status out) (outcome_body out)"
    by (auto simp: body_bytes_def)
  from build_request_path [OF req] assms(3) have "rq_Method req = ''GET''" "rq_Path req = ''/customers/'' @ cid"
    by (auto simp: resolve_def split_query_plain)
  from store_got [OF assms(2) do(1) this do(2)]
  have k: "outcome_status out = 200" "outcome_body out \<noteq> [] \<longrightarrow> kept (net_world s') cid = Some (outcome_body out)"
    by blast+
  with out r(2-4) show ?thesis
    by (auto simp: decode_reply_None decode_reply_val)
qed

lemma EnsureCustomer_kept:
  assumes "cl_retries c \<ge> 1" "customer_store c kept" "CHR ''?'' \<notin> set (dc_ID d)"
    and "run_state (EnsureCustomer c d) s = (Inr cust, s1)"
  shows "\<exists>wc b. kept (net_world s1) (dc_ID d) = Some b \<and> dec_wireCustomer b = Some wc
     \<and> wc_CustomerId wc \<noteq> [] \<and> \<not> customerNeedsUpdate (fromWire wc b) (buildWireCustomer d)"
proof -
  let ?want = "buildWireCustomer d"
  from assms(4) have id: "dc_ID d \<noteq> []" by (auto simp: EnsureCustomer_def run_simps)
  obtain g s0 where get: "run_state (GetCustomer c (dc_ID d)) s = (g, s0)" by fastforce
  show ?thesis
  proof (cases "\<exists>ex. g = Inr ex \<and> \<not> customerNeedsUpdate ex ?want")
    case True
    then obtain ex where ex: "g = Inr ex" "\<not> customerNeedsUpdate ex ?want" by blast
    with assms(4) get id have "s1 = s0" by (simp add: EnsureCustomer_def run_simps)
    with GetCustomer_found [OF assms(1-3) get [unfolded ex(1)]] ex show ?thesis by blast
  next
    case False
    with assms(4) get id obtain meth where "run_state (putCustomer c meth ?want) s0 = (Inr cust, s1)"
      by (auto simp: EnsureCustomer_def run_simps split: sum.splits if_splits)
    from putCustomer_kept [OF assms(1,2) build_wire_ok this]
    have "kept (net_world s1) (dc_ID d) = Some (print (enc_wireCustomer ?want))"
      by (simp only: want_id)
    with matching_wire [OF build_wire_ok] decode_wireCustomer [OF build_wire_ok] id show ?thesis
      by (intro exI conjI) (assumption, (simp add: want_id)+)
  qed
qed

section \<open>Properties\<close>


text \<open>A store to run against: customers by id.\<close>

definition store_client :: "(string \<times> string) list client" where
  "store_client = \<lparr> cl_apiKey = ''key'', cl_userAgent = ''amberflo-provider/dev'', cl_retries = 4,
     cl_do = (\<lambda>req w.
       if rq_Method req = ''GET'' then
         (if prefix ''/customers/'' (rq_Path req) then
            (case map_of w (drop 11 (rq_Path req)) of
               Some b \<Rightarrow> (Response 200 [] b, w) | None \<Rightarrow> (Response 404 [] [], w))
          else (Response 200 [] [], w))
       else if rq_Path req \<noteq> ''/customers'' then (Response 404 [] [], w)
       else (case rq_Body req of
          None \<Rightarrow> (Response 400 [] [], w)
        | Some b \<Rightarrow> (case dec_wireCustomer b of
            None \<Rightarrow> (Response 400 [] [], w)
          | Some wc \<Rightarrow> (Response 200 [] b, (wc_CustomerId wc, b) # w)))),
     cl_ctx_err = (\<lambda>w. None), cl_wait = (\<lambda>w. (None, w)), cl_sleep = (\<lambda>d w. (None, w)),
     cl_jitter = (\<lambda>d w. (d, w)), cl_now = (\<lambda>w. 0), cl_http_date = (\<lambda>h. None) \<rparr>"

lemma store_client_undisturbed: "undisturbed store_client" "cl_retries store_client \<ge> 1"
  by (simp_all add: undisturbed_def store_client_def)

lemma store_client_store: "customer_store store_client map_of"
  unfolding customer_store_def store_client_def
  by (auto simp: success_outcome_def outcome_status_def outcome_body_def
      split: option.splits if_splits)

definition sample_customer :: DesiredCustomer where
  "sample_customer = \<lparr>dc_ID = ''u1'', dc_Name = ''Acme'', dc_Email = [], dc_CurrencyCode = ''USD'',
     dc_PaymentTerms = None, dc_Projects = [''b'', ''a''], dc_ExtraTraits = [(''team'', ''x'')]\<rparr>"

lemma sample_run: "\<not> isl (fst (run_state (EnsureCustomer store_client sample_customer) (fresh [])))"
  by code_simp


text \<open>
  The wire customer does not depend on the order or repetition of the projects, and the
  projects trait is JSON text that reads back as the sorted, duplicate-free, non-empty project
  names.
\<close>

theorem buildWireCustomer_projects:
  assumes "set ps = set qs"
  shows "buildWireCustomer (d\<lparr>dc_Projects := ps\<rparr>) = buildWireCustomer (d\<lparr>dc_Projects := qs\<rparr>)
     \<and> json_parse (encodeProjects ps) = Some (json_strs (sorted_set qs))"
proof -
  have "ps = [] \<longleftrightarrow> qs = []" using assms by (metis set_empty)
  moreover have "encodeProjects ps = encodeProjects qs"
    using sorted_set_cong [OF assms] by (simp add: encodeProjects_def)
  moreover have "json_parse (encodeProjects qs) = Some (json_strs (sorted_set qs))"
    unfolding encodeProjects_def by (rule json_parse_print) simp
  ultimately show ?thesis by (cases "dc_PaymentTerms d") (simp_all add: buildWireCustomer_def build_traits_def Let_def)
qed

theorem buildWireCustomer_projects_witness:
  "json_parse (encodeProjects [''b'', ''a'', ''b'']) = Some (json_strs [''a'', ''b''])"
proof -
  have "sorted_set [''a'', ''b''] = [''a'', ''b'']" by code_simp
  with buildWireCustomer_projects [of "[''b'', ''a'', ''b'']" "[''a'', ''b'']"] show ?thesis by auto
qed

text \<open>
  Which value each trait gets: the payment keys and the currency code always win over extra
  traits, the projects key wins when there are projects, and every other key, even the keys
  \<open>enabled\<close> and \<open>archived_at\<close> that the documentation calls reserved, keeps its extra trait.
\<close>

theorem build_traits_precedence:
  assumes "wf_map (dc_ExtraTraits d)"
  shows "map_of (wc_Traits (buildWireCustomer d)) ''currencyCode'' = Some (dc_CurrencyCode d)
    \<and> (dc_Projects d \<noteq> [] \<longrightarrow>
         map_of (wc_Traits (buildWireCustomer d)) ''projects'' = Some (encodeProjects (dc_Projects d)))
    \<and> (\<forall>pt k. dc_PaymentTerms d = Some pt \<longrightarrow> payment_trait pt k \<noteq> None \<longrightarrow>
         map_of (wc_Traits (buildWireCustomer d)) k = payment_trait pt k)
    \<and> (\<forall>k. k \<noteq> ''currencyCode'' \<longrightarrow> (k = ''projects'' \<longrightarrow> dc_Projects d = []) \<longrightarrow>
         (\<forall>pt. dc_PaymentTerms d = Some pt \<longrightarrow> payment_trait pt k = None) \<longrightarrow>
         map_of (wc_Traits (buildWireCustomer d)) k = map_of (dc_ExtraTraits d) k)"
  using assms
  by (auto simp: buildWireCustomer_def build_traits_lookup map_of_rev_wf payment_trait_def
      split: option.splits bind_splits)

theorem build_traits_precedence_witness:
  "map_of (wc_Traits (buildWireCustomer (sample_customer\<lparr>dc_ExtraTraits := [(''enabled'', ''false'')]\<rparr>))) ''enabled''
     = Some ''false''"
  using build_traits_precedence [of "sample_customer\<lparr>dc_ExtraTraits := [(''enabled'', ''false'')]\<rparr>"]
  by (simp add: sample_customer_def wf_map_def)

lemma dec_wireCustomer_wf: "dec_wireCustomer b = Some wc \<Longrightarrow> wf_map (wc_Traits wc)"
proof -
  assume "dec_wireCustomer b = Some wc"
  then obtain j where j: "decode_struct wireCustomer_fields zero_wireCustomer j = Some wc"
    by (auto simp: dec_wireCustomer_def unmarshal_def split: option.splits)
  have z: "wf_map (wc_Traits zero_wireCustomer)" by (simp add: zero_wireCustomer_def)
  have "wf_map (wc_Traits r')" if "g \<in> snd ` set wireCustomer_fields" "wf_map (wc_Traits r)" "g r k = Some r'" for g r k r'
    using that by (auto simp: wireCustomer_fields_def field_def) (erule (1) dec_map_wf)
  note inv = decode_members_inv [of wireCustomer_fields "\<lambda>r. wf_map (wc_Traits r)", OF this z]
  from j consider "wc = zero_wireCustomer"
    | ms where "decode_members wireCustomer_fields ms zero_wireCustomer = Some wc"
    by (cases j) (simp_all add: decode_struct_def)
  then show ?thesis using z inv by cases blast+
qed

lemma disabled_kept:
  assumes "undisturbed c" "cl_retries c \<ge> 1" "customer_store c kept" "cid \<noteq> []" "CHR ''?'' \<notin> set cid"
    and "kept (net_world s) cid = Some b" "dec_wireCustomer b = Some wc" "wc_CustomerId wc = cid"
    and "run_state (DisableCustomer c cid) s = (None, s')"
  shows "\<exists>b' wc'. kept (net_world s') cid = Some b' \<and> dec_wireCustomer b' = Some wc'
    \<and> \<not> wc_Enabled wc' \<and> wc_CustomerId wc' = cid \<and> wc_CustomerEmail wc' = wc_CustomerEmail wc
    \<and> map_of (wc_Traits wc') = (map_of (wc_Traits wc))
        (''enabled'' \<mapsto> ''false'', ''archived_at'' \<mapsto> format_RFC3339 (cl_now c (net_world s)))"
proof -
  from assms(4,8) have "wc_CustomerId wc \<noteq> []" by simp
  from GetCustomer_kept [OF assms(1-7) this] obtain req out where
    get: "run_state (GetCustomer c cid) s = (Inr (fromWire wc b), s\<lparr>net_log := net_log s @ [Sent req out]\<rparr>)"
    by blast
  define dw where "dw = disabled_wire (fromWire wc b) (cl_now c (net_world s))"
  have wf: "wf_map (wc_Traits wc)" using assms(7) by (rule dec_wireCustomer_wf)
  then have dw: "wire_ok dw" "wc_CustomerId dw = cid" "\<not> wc_Enabled dw"
    "wc_CustomerEmail dw = wc_CustomerEmail wc"
    "map_of (wc_Traits dw) = (map_of (wc_Traits wc))
        (''enabled'' \<mapsto> ''false'', ''archived_at'' \<mapsto> format_RFC3339 (cl_now c (net_world s)))"
    using assms(8) by (simp_all add: dw_def disabled_wire_def fromWire_def cloneTraits_def wire_ok_def in_int64_def)
  from assms(4,9) get obtain cust where "run_state (putCustomer c ''PUT'' dw)
      (s\<lparr>net_log := net_log s @ [Sent req out]\<rparr>) = (Inr cust, s')"
    by (auto simp: DisableCustomer_def run_simps simp flip: dw_def split: prod.splits sum.splits)
  from putCustomer_kept [OF assms(2,3) dw(1) this] dw(2)
  have "kept (net_world s') cid = Some (print (enc_wireCustomer dw))" by (simp only:)
  with decode_wireCustomer [OF dw(1)] dw show ?thesis
    by (intro exI conjI) (assumption+, simp_all add: map_of_sort_key wire_ok_def)
qed

text \<open>
  DisableCustomer on a kept customer: when it reports success the store holds that customer
  disabled, under the same id and e-mail, with every trait it had except that \<open>enabled\<close> is
  \<open>false\<close> and \<open>archived_at\<close> is the RFC 3339 time of the call.
\<close>

theorem DisableCustomer_archives:
  assumes "undisturbed c" "cl_retries c \<ge> 1" "customer_store c kept" "cid \<noteq> []" "CHR ''?'' \<notin> set cid"
    and "kept (net_world s) cid = Some b" "dec_wireCustomer b = Some wc" "wc_CustomerId wc = cid"
    and "run_state (DisableCustomer c cid) s = (None, s')"
  shows "\<exists>b' wc'. kept (net_world s') cid = Some b' \<and> dec_wireCustomer b' = Some wc'
    \<and> \<not> wc_Enabled wc' \<and> wc_CustomerId wc' = cid \<and> wc_CustomerEmail wc' = wc_CustomerEmail wc
    \<and> map_of (wc_Traits wc') = (map_of (wc_Traits wc))
        (''enabled'' \<mapsto> ''false'', ''archived_at'' \<mapsto> format_RFC3339 (cl_now c (net_world s)))"
  using disabled_kept [OF assms] .

lemma sample_id: "dc_ID sample_customer = ''u1''" "wc_Traits (buildWireCustomer sample_customer) = build_traits sample_customer"
  by (simp_all add: sample_customer_def buildWireCustomer_def)

definition sample_store :: "(string \<times> string) list" where
  "sample_store = [(''u1'', print (enc_wireCustomer (buildWireCustomer sample_customer)))]"

lemma store_client_put:
  assumes "wire_ok wc" "meth = ''POST'' \<or> meth = ''PUT''"
  shows "\<exists>cust s'. run_state (putCustomer store_client meth wc) s = (Inr cust, s')"
proof -
  let ?b = "print (enc_wireCustomer wc)"
  let ?path = "if meth = ''POST'' then ''/customers?autoCreateCustomerInStripe=false'' else ''/customers''"
  obtain req where req: "build_request store_client meth ?path (body_bytes (Encoded ?b)) = Some req"
    by (cases "meth = ''POST''") (auto simp: build_request_def resolve_def is_ctl_def)
  with build_request_path [OF req] assms(2) have "rq_Method req \<noteq> ''GET''" "rq_Body req = Some ?b" "rq_Path req = ''/customers''"
    by (auto simp: body_bytes_def resolve_def)
  with decode_wireCustomer [OF assms(1)] obtain w where
    do: "cl_do store_client req (net_world s) = (Response 200 [] ?b, w)"
    by (simp add: store_client_def)
  have "success_outcome (Response 200 [] ?b)" by (simp add: success_outcome_def)
  from doJSON_first [OF store_client_undisturbed req _ store_wait [OF store_client_store] do this,
      of dec_wireCustomer zero_wireCustomer] decode_wireCustomer [OF assms(1)] assms(2)
  show ?thesis
    by (auto simp: putCustomer_def run_simps decode_reply_def outcome_status_def outcome_body_def simp del: print.simps)
qed

lemma sample_disable: "fst (run_state (DisableCustomer store_client ''u1'') (fresh sample_store)) = None"
proof -
  let ?c = "buildWireCustomer sample_customer"
  have k: "map_of (net_world (fresh sample_store)) ''u1'' = Some (print (enc_wireCustomer ?c))"
    by (simp add: fresh_def sample_store_def del: print.simps)
  obtain req out where get: "run_state (GetCustomer store_client ''u1'') (fresh sample_store)
      = (Inr (fromWire (?c\<lparr>wc_Traits := sort_key fst (wc_Traits ?c)\<rparr>) (print (enc_wireCustomer ?c))),
         (fresh sample_store)\<lparr>net_log := net_log (fresh sample_store) @ [Sent req out]\<rparr>)"
    using GetCustomer_kept [OF store_client_undisturbed store_client_store _ _ k decode_wireCustomer [OF build_wire_ok]]
    by (auto simp: sample_id simp del: print.simps)
  define ex where "ex = fromWire (?c\<lparr>wc_Traits := sort_key fst (wc_Traits ?c)\<rparr>) (print (enc_wireCustomer ?c))"
  define s1 where "s1 = (fresh sample_store)\<lparr>net_log := net_log (fresh sample_store) @ [Sent req out]\<rparr>"
  define dw where "dw = disabled_wire ex (cl_now store_client (net_world s1))"
  have "wire_ok dw"
    by (simp add: dw_def ex_def wire_ok_def disabled_wire_def fromWire_def cloneTraits_def in_int64_def sample_id)
  then obtain cust s2 where put: "run_state (putCustomer store_client ''PUT'' dw) s1 = (Inr cust, s2)"
    using store_client_put by blast
  from get have "run_state (GetCustomer store_client ''u1'') (fresh sample_store) = (Inr ex, s1)"
    by (simp only: ex_def s1_def)
  with put show ?thesis by (simp add: DisableCustomer_def run_simps dw_def)
qed

theorem DisableCustomer_archives_witness:
  "\<exists>b' wc'. map_of (net_world (snd (run_state (DisableCustomer store_client ''u1'') (fresh sample_store)))) ''u1'' = Some b'
     \<and> dec_wireCustomer b' = Some wc' \<and> map_of (wc_Traits wc') ''enabled'' = Some ''false''"
proof -
  have k: "map_of (net_world (fresh sample_store)) ''u1'' = Some (print (enc_wireCustomer (buildWireCustomer sample_customer)))"
    by (simp add: fresh_def sample_store_def del: print.simps)
  have u: "CHR ''?'' \<notin> set ''u1''" "''u1'' \<noteq> []" by simp_all
  have id: "wc_CustomerId ((buildWireCustomer sample_customer)\<lparr>wc_Traits := sort_key fst
      (wc_Traits (buildWireCustomer sample_customer))\<rparr>) = ''u1''"
    by (simp add: sample_id)
  from DisableCustomer_archives [OF store_client_undisturbed store_client_store u(2,1) k
      decode_wireCustomer [OF build_wire_ok] id run_fst [OF sample_disable]]
  obtain b' wc' m t where r: "map_of (net_world (snd (run_state (DisableCustomer store_client ''u1'') (fresh sample_store)))) ''u1'' = Some b'"
    "dec_wireCustomer b' = Some wc'" "map_of (wc_Traits wc') = m(''enabled'' \<mapsto> ''false'', ''archived_at'' \<mapsto> t)"
    by blast
  from r(3) have "map_of (wc_Traits wc') ''enabled'' = Some ''false''" by simp
  with r(1,2) show ?thesis by blast
qed

text \<open>
  What GetCustomer answers: a customer is the decoded body of a 2xx reply, never an empty
  one of status 200; an error is never both transient and permanent, and a 404 is always
  reported as the not-found sentinel for this id.
\<close>

theorem GetCustomer_sound:
  assumes "wf_client c" "run_state (GetCustomer c cid) s = (res, s')"
  shows "case res of
      Inr cust \<Rightarrow> (if cu_Raw cust = [] then cust = fromWire zero_wireCustomer []
        else \<exists>wc. dec_wireCustomer (cu_Raw cust) = Some wc \<and> cust = fromWire wc (cu_Raw cust))
    | Inl e \<Rightarrow> (IsTransient e \<longrightarrow> \<not> IsPermanent e)
        \<and> (e = customer_not_found cid \<or> \<not> is_404 e)"
proof (cases "cid = []")
  case True
  with assms(2) show ?thesis by (auto simp: GetCustomer_def run_simps is_404_def)
next
  case False
  obtain r where r: "run_state (doJSON c ''GET'' (''/customers/'' @ cid) NoBody dec_wireCustomer zero_wireCustomer) s = (r, s')"
    using assms(2) False by (cases "run_state (doJSON c ''GET'' (''/customers/'' @ cid) NoBody dec_wireCustomer zero_wireCustomer) s")
      (auto simp: GetCustomer_def run_simps)
  note laws = customer_get.ok_value [OF assms(1) r] customer_get.ok_empty [OF assms(1) r]
    customer_get.error_exclusive [OF assms(1) r]
  show ?thesis
  proof (cases "rp_err r")
    case None
    with assms(2) False r laws(1,2) show ?thesis
      by (auto simp: GetCustomer_def run_simps fromWire_def customer_not_found_def split: if_splits)
  next
    case (Some e)
    with assms(2) False r laws(3) show ?thesis
      by (auto simp: GetCustomer_def run_simps customer_not_found_def split: if_splits)
  qed
qed

theorem GetCustomer_sound_witness:
  "case fst (run_state (GetCustomer (scripted 1) ''u1'') (fresh [Response 404 [] []])) of
     Inl e \<Rightarrow> \<not> is_404 e \<or> e = customer_not_found ''u1'' | Inr cust \<Rightarrow> True"
  using GetCustomer_sound [of "scripted 1" "''u1''" "fresh [Response 404 [] []]", OF scripted_wf prod.collapse [symmetric]]
  by (auto split: sum.splits)

text \<open>What is typed: a customer whose traits are a map, a request whose body is the encoding of a
  customer that reads back.\<close>

definition typed_customer :: "goerr + Customer \<Rightarrow> bool" where
  "typed_customer r \<longleftrightarrow> (\<forall>cust. r = Inr cust \<longrightarrow> wf_map (cu_Traits cust))"

definition typed_request :: "http_req \<Rightarrow> bool" where
  "typed_request req \<longleftrightarrow> (case rq_Body req of
      None \<Rightarrow> rq_Method req = ''GET''
    | Some b \<Rightarrow> \<exists>wc. wire_ok wc \<and> b = print (enc_wireCustomer wc)
        \<and> dec_wireCustomer b = Some (wc\<lparr>wc_Traits := sort_key fst (wc_Traits wc)\<rparr>))"

lemma typed_simps [simp]: "typed_customer (Inl e)" "typed_customer (Inr cust) = wf_map (cu_Traits cust)"
  by (simp_all add: typed_customer_def)

lemma from_wire_typed: "wf_map (wc_Traits wc) \<Longrightarrow> wf_map (cu_Traits (fromWire wc b))"
  by (simp add: fromWire_def cloneTraits_def)

lemma reply_typed:
  assumes "reply_law dec_wireCustomer zero_wireCustomer r" "rp_err r = None"
  shows "wf_map (wc_Traits (rp_val r))"
proof (cases "rp_body r = []")
  case True
  with assms show ?thesis by (simp add: reply_law_def zero_wireCustomer_def)
next
  case False
  with assms have "dec_wireCustomer (rp_body r) = Some (rp_val r)" by (simp add: reply_law_def)
  then show ?thesis by (rule dec_wireCustomer_wf)
qed

lemma GetCustomer_typed:
  assumes "wf_client c"
  shows "traced typed_request (GetCustomer c cid) typed_customer"
  unfolding GetCustomer_def
proof (intro traced_if traced_ret traced_bind [where R = "reply_law dec_wireCustomer zero_wireCustomer"] traced_doJSON)
  show "typed_customer (Inl (permanent ''customerID is required''))" by simp
  fix req :: http_req assume "rq_Method req = ''GET''" "rq_Body req = body_bytes NoBody"
  then show "typed_request req" by (simp add: typed_request_def body_bytes_def)
next
  fix s r s'
  assume "run_state (doJSON c ''GET'' (''/customers/'' @ cid) NoBody dec_wireCustomer zero_wireCustomer) s = (r, s')"
  then show "reply_law dec_wireCustomer zero_wireCustomer r" by (rule doJSON_law [OF assms]) simp
next
  fix r assume "reply_law dec_wireCustomer zero_wireCustomer r"
  from reply_typed [OF this]
  show "typed_customer (case rp_err r of
      Some e \<Rightarrow> if is_404 e then Inl (customer_not_found cid) else Inl e
    | None \<Rightarrow> if rp_status r = 200 \<and> (rp_body r = [] \<or> rp_body r = ''{}'' \<or> wc_CustomerId (rp_val r) = [])
        then Inl (customer_not_found cid) else Inr (fromWire (rp_val r) (rp_body r)))"
    by (auto intro: from_wire_typed split: option.splits)
qed

lemma putCustomer_typed:
  assumes "wf_client c" "wire_ok wc"
  shows "traced typed_request (putCustomer c meth wc) typed_customer"
  unfolding putCustomer_def
proof (intro traced_if traced_ret traced_bind [where R = "reply_law dec_wireCustomer zero_wireCustomer"] traced_doJSON)
  show "typed_customer (Inl (permanent (''unsupported method '' @ print_str meth)))" by simp
  fix req :: http_req assume "rq_Body req = body_bytes (Encoded (print (enc_wireCustomer wc)))"
  then show "typed_request req" using decode_wireCustomer [OF assms(2)] assms(2)
    by (auto simp: typed_request_def body_bytes_def simp del: print.simps)
next
  fix s r s'
  assume "run_state (doJSON c meth (if meth = ''POST'' then ''/customers?autoCreateCustomerInStripe=false'' else ''/customers'')
      (Encoded (print (enc_wireCustomer wc))) dec_wireCustomer zero_wireCustomer) s = (r, s')"
  then show "reply_law dec_wireCustomer zero_wireCustomer r" by (rule doJSON_law [OF assms(1)]) simp
next
  fix r assume "reply_law dec_wireCustomer zero_wireCustomer r"
  from reply_typed [OF this] assms(2)
  show "typed_customer (case rp_err r of Some e \<Rightarrow> Inl e
    | None \<Rightarrow> Inr (fromWire (if wc_CustomerId (rp_val r) = [] then wc else rp_val r) (rp_body r)))"
    by (auto simp: wire_ok_def intro: from_wire_typed split: option.splits)
qed

lemma disabled_wire_ok: "wf_map (cu_Traits ex) \<Longrightarrow> wire_ok (disabled_wire ex now)"
  by (simp add: wire_ok_def disabled_wire_def cloneTraits_def in_int64_def)

lemma EnsureCustomer_typed:
  assumes "wf_client c"
  shows "traced typed_request (EnsureCustomer c d) typed_customer"
  unfolding EnsureCustomer_def
  by (intro traced_if traced_sum traced_ret traced_bind [OF GetCustomer_typed [OF assms]] putCustomer_typed [OF assms]) auto

lemma DisableCustomer_typed:
  assumes "wf_client c"
  shows "sends_only typed_request (DisableCustomer c cid)"
  unfolding DisableCustomer_def
  by (intro traced_if traced_sum traced_ret traced_bind [OF GetCustomer_typed [OF assms]] traced_bind [OF traced_now]
      traced_bind [OF putCustomer_typed [OF assms]] disabled_wire_ok TrueI) auto





end
