(* ===== verification/CustomerPlan.thy ===== *)
theory CustomerPlan
  imports Transport Json Url
begin

text \<open>
  internal/amberflo/customer_plan.go: the assignment of a customer to a product plan.
  EnsureCustomerPlan cancels every other active assignment before it posts the wanted one.
\<close>

section \<open>Data\<close>

definition customerPricingPath :: string where
  "customerPricingPath = ''/payments/pricing/amberflo/customer-pricing''"

definition customerPricingListPath :: string where
  "customerPricingListPath = ''/payments/pricing/amberflo/customer-pricing/list''"

definition customerPlanTimeSkew :: int where
  "customerPlanTimeSkew = 30 * second"

definition defaultProductPlanPID :: string where
  "defaultProductPlanPID = ''1''"

definition accountPricingQueryPath :: "string \<Rightarrow> string \<Rightarrow> string \<Rightarrow> string" where
  "accountPricingQueryPath basePath param value = basePath @ ''?'' @ param @ ''='' @ QueryEscape value"

record DesiredCustomerPlan =
  dp_CustomerID :: string
  dp_ProductPlanID :: string
  dp_ProductID :: string
  dp_StartTime :: int

record CustomerPlan =
  cp_CustomerID :: string
  cp_ProductPlanID :: string
  cp_ProductID :: string
  cp_RelationID :: string
  cp_StartTimeInSeconds :: int
  cp_EndTimeInSeconds :: int
  cp_Raw :: string

record wireCustomerProductPlan =
  wp_ProductID :: string
  wp_ProductPlanID :: string
  wp_CustomerID :: string
  wp_StartTimeInSeconds :: int
  wp_EndTimeInSeconds :: int
  wp_RelationID :: string
  wp_CreatedTimeInSeconds :: int

definition zero_wirePlan :: wireCustomerProductPlan where
  "zero_wirePlan = \<lparr>wp_ProductID = [], wp_ProductPlanID = [], wp_CustomerID = [], wp_StartTimeInSeconds = 0,
     wp_EndTimeInSeconds = 0, wp_RelationID = [], wp_CreatedTimeInSeconds = 0\<rparr>"

definition wirePlan_fields :: "wireCustomerProductPlan fields" where
  "wirePlan_fields =
    [(''productId'', field wp_ProductID (\<lambda>x. wp_ProductID_update (\<lambda>_. x)) dec_string),
     (''productPlanId'', field wp_ProductPlanID (\<lambda>x. wp_ProductPlanID_update (\<lambda>_. x)) dec_string),
     (''customerId'', field wp_CustomerID (\<lambda>x. wp_CustomerID_update (\<lambda>_. x)) dec_string),
     (''startTimeInSeconds'', field wp_StartTimeInSeconds (\<lambda>x. wp_StartTimeInSeconds_update (\<lambda>_. x)) dec_int64),
     (''endTimeInSeconds'', field wp_EndTimeInSeconds (\<lambda>x. wp_EndTimeInSeconds_update (\<lambda>_. x)) dec_int64),
     (''relationId'', field wp_RelationID (\<lambda>x. wp_RelationID_update (\<lambda>_. x)) dec_string),
     (''createdTimeInSeconds'', field wp_CreatedTimeInSeconds (\<lambda>x. wp_CreatedTimeInSeconds_update (\<lambda>_. x)) dec_int64)]"

definition dec_wirePlan :: "string \<Rightarrow> wireCustomerProductPlan option" where
  "dec_wirePlan = unmarshal (decode_struct wirePlan_fields) zero_wirePlan"

definition dec_wirePlans :: "string \<Rightarrow> wireCustomerProductPlan list option" where
  "dec_wirePlans = unmarshal (dec_list zero_wirePlan (decode_struct wirePlan_fields)) []"

definition enc_wirePlan :: "wireCustomerProductPlan \<Rightarrow> json" where
  "enc_wirePlan w = JObj
     ([(''productId'', JStr (wp_ProductID w)), (''productPlanId'', JStr (wp_ProductPlanID w)),
       (''customerId'', JStr (wp_CustomerID w)),
       (''startTimeInSeconds'', JNum (itoa (wp_StartTimeInSeconds w)))]
      @ omit_int ''endTimeInSeconds'' (wp_EndTimeInSeconds w)
      @ omit_str ''relationId'' (wp_RelationID w)
      @ omit_int ''createdTimeInSeconds'' (wp_CreatedTimeInSeconds w))"

definition customerPlanFromWire :: "wireCustomerProductPlan \<Rightarrow> string \<Rightarrow> CustomerPlan" where
  "customerPlanFromWire w raw =
     \<lparr>cp_CustomerID = wp_CustomerID w, cp_ProductPlanID = wp_ProductPlanID w, cp_ProductID = wp_ProductID w,
      cp_RelationID = wp_RelationID w, cp_StartTimeInSeconds = wp_StartTimeInSeconds w,
      cp_EndTimeInSeconds = wp_EndTimeInSeconds w, cp_Raw = raw\<rparr>"

definition Active :: "CustomerPlan \<Rightarrow> int \<Rightarrow> bool" where
  "Active cp now \<longleftrightarrow> (if cp_EndTimeInSeconds cp \<le> 0 then True else time_Unix (cp_EndTimeInSeconds cp) > now)"

section \<open>Operations\<close>

definition ListCustomerPlans :: "'w client \<Rightarrow> string \<Rightarrow> ('w net, goerr + CustomerPlan list) io" where
  "ListCustomerPlans c customerID =
     (if customerID = [] then ret (Inl (permanent ''customerID is required''))
      else do {
        r \<leftarrow> doJSON c ''GET'' (accountPricingQueryPath customerPricingListPath ''CustomerId'' customerID)
               NoBody dec_wirePlans [];
        ret (case rp_err r of
          Some e \<Rightarrow> Inl e
        | None \<Rightarrow>
            if rp_body r = [] \<or> rp_body r = ''null'' then Inr []
            else Inr (map (\<lambda>w. customerPlanFromWire w []) (rp_val r)))
      })"

definition isCustomerPlanEndInPastError :: "goerr \<Rightarrow> bool" where
  "isCustomerPlanEndInPastError err = perm_contains err ''end time can't be in the past''"

text \<open>One minute later: the end when there is one, else the start.\<close>

definition postpone :: "wireCustomerProductPlan \<Rightarrow> wireCustomerProductPlan" where
  "postpone w =
     (if wp_EndTimeInSeconds w > 0 then w\<lparr>wp_EndTimeInSeconds := wrap64 (wp_EndTimeInSeconds w + 60)\<rparr>
      else w\<lparr>wp_StartTimeInSeconds := wrap64 (wp_StartTimeInSeconds w + 60)\<rparr>)"

definition postCustomerPlan :: "'w client \<Rightarrow> wireCustomerProductPlan
    \<Rightarrow> ('w net, wireCustomerProductPlan reply) io" where
  "postCustomerPlan c payload = do {
     r \<leftarrow> doJSON c ''POST'' customerPricingPath (Encoded (print (enc_wirePlan payload))) dec_wirePlan zero_wirePlan;
     case rp_err r of
       None \<Rightarrow> ret r
     | Some e \<Rightarrow>
         if \<not> isCustomerPlanEndInPastError e then ret r
         else doJSON c ''POST'' customerPricingPath (Encoded (print (enc_wirePlan (postpone payload))))
                dec_wirePlan zero_wirePlan
   }"

text \<open>The update that ends an assignment.\<close>

definition cancel_payload :: "string \<Rightarrow> string \<Rightarrow> int \<Rightarrow> CustomerPlan \<Rightarrow> wireCustomerProductPlan" where
  "cancel_payload customerID productPlanID now cp =
     \<lparr>wp_ProductID = (if cp_ProductID cp = [] then defaultProductPlanPID else cp_ProductID cp),
      wp_ProductPlanID = productPlanID, wp_CustomerID = customerID,
      wp_StartTimeInSeconds = (if cp_StartTimeInSeconds cp \<le> 0 then unix_secs now else cp_StartTimeInSeconds cp),
      wp_EndTimeInSeconds = unix_secs (now + customerPlanTimeSkew),
      wp_RelationID = cp_RelationID cp, wp_CreatedTimeInSeconds = 0\<rparr>"

fun cancel_each :: "'w client \<Rightarrow> string \<Rightarrow> string \<Rightarrow> int \<Rightarrow> CustomerPlan list \<Rightarrow> ('w net, goerr option) io" where
  "cancel_each c customerID productPlanID now [] = ret None"
| "cancel_each c customerID productPlanID now (cp # cps) =
     (if cp_ProductPlanID cp \<noteq> productPlanID \<or> \<not> Active cp now
      then cancel_each c customerID productPlanID now cps
      else do {
        r \<leftarrow> postCustomerPlan c (cancel_payload customerID productPlanID now cp);
        case rp_err r of
          Some e \<Rightarrow> ret (Some e)
        | None \<Rightarrow> cancel_each c customerID productPlanID now cps
      })"

definition CancelCustomerPlan :: "'w client \<Rightarrow> string \<Rightarrow> string \<Rightarrow> ('w net, goerr option) io" where
  "CancelCustomerPlan c customerID productPlanID =
     (if customerID = [] then ret (Some (permanent ''customerID is required''))
      else if productPlanID = [] then ret (Some (permanent ''productPlanID is required''))
      else do {
        now \<leftarrow> now_of c;
        got \<leftarrow> ListCustomerPlans c customerID;
        case got of
          Inl e \<Rightarrow> ret (Some e)
        | Inr existing \<Rightarrow> cancel_each c customerID productPlanID now existing
      })"

text \<open>The loop of EnsureCustomerPlan: the last active assignment to the wanted plan is
  remembered, every active assignment to another plan is cancelled.\<close>

fun settle_plans :: "'w client \<Rightarrow> DesiredCustomerPlan \<Rightarrow> int \<Rightarrow> CustomerPlan list \<Rightarrow> CustomerPlan option
    \<Rightarrow> ('w net, goerr + CustomerPlan option) io" where
  "settle_plans c desired now [] activeMatch = ret (Inr activeMatch)"
| "settle_plans c desired now (cp # cps) activeMatch =
     (if \<not> Active cp now then settle_plans c desired now cps activeMatch
      else if cp_ProductPlanID cp = dp_ProductPlanID desired then settle_plans c desired now cps (Some cp)
      else do {
        cancelled \<leftarrow> CancelCustomerPlan c (dp_CustomerID desired) (cp_ProductPlanID cp);
        case cancelled of
          Some e \<Rightarrow> ret (Inl e)
        | None \<Rightarrow> settle_plans c desired now cps activeMatch
      })"

definition assign_payload :: "DesiredCustomerPlan \<Rightarrow> int \<Rightarrow> wireCustomerProductPlan" where
  "assign_payload desired now =
     \<lparr>wp_ProductID = (if dp_ProductID desired = [] then defaultProductPlanPID else dp_ProductID desired),
      wp_ProductPlanID = dp_ProductPlanID desired, wp_CustomerID = dp_CustomerID desired,
      wp_StartTimeInSeconds =
        unix_secs (if dp_StartTime desired = zero_time then now + customerPlanTimeSkew else dp_StartTime desired),
      wp_EndTimeInSeconds = 0, wp_RelationID = [], wp_CreatedTimeInSeconds = 0\<rparr>"

definition EnsureCustomerPlan :: "'w client \<Rightarrow> DesiredCustomerPlan \<Rightarrow> ('w net, goerr + CustomerPlan) io" where
  "EnsureCustomerPlan c desired =
     (if dp_CustomerID desired = [] then
        ret (Inl (permanent ''DesiredCustomerPlan.CustomerID is required''))
      else if dp_ProductPlanID desired = [] then
        ret (Inl (permanent ''DesiredCustomerPlan.ProductPlanID is required''))
      else do {
        now \<leftarrow> now_of c;
        got \<leftarrow> ListCustomerPlans c (dp_CustomerID desired);
        case got of
          Inl e \<Rightarrow> ret (Inl e)
        | Inr existing \<Rightarrow> do {
            settled \<leftarrow> settle_plans c desired now existing None;
            case settled of
              Inl e \<Rightarrow> ret (Inl e)
            | Inr (Some cp) \<Rightarrow> ret (Inr cp)
            | Inr None \<Rightarrow> do {
                r \<leftarrow> postCustomerPlan c (assign_payload desired now);
                ret (case rp_err r of
                  Some e \<Rightarrow> Inl e
                | None \<Rightarrow>
                    Inr (customerPlanFromWire
                      (if wp_CustomerID (rp_val r) = [] then assign_payload desired now else rp_val r)
                      (rp_body r)))
              }
          }
      })"

section \<open>The wire format\<close>

lemma wirePlan_field [dec_simps]:
  "map_of wirePlan_fields ''productId'' = Some (field wp_ProductID (\<lambda>x. wp_ProductID_update (\<lambda>_. x)) dec_string)"
  "map_of wirePlan_fields ''productPlanId'' = Some (field wp_ProductPlanID (\<lambda>x. wp_ProductPlanID_update (\<lambda>_. x)) dec_string)"
  "map_of wirePlan_fields ''customerId'' = Some (field wp_CustomerID (\<lambda>x. wp_CustomerID_update (\<lambda>_. x)) dec_string)"
  "map_of wirePlan_fields ''startTimeInSeconds'' = Some (field wp_StartTimeInSeconds (\<lambda>x. wp_StartTimeInSeconds_update (\<lambda>_. x)) dec_int64)"
  "map_of wirePlan_fields ''endTimeInSeconds'' = Some (field wp_EndTimeInSeconds (\<lambda>x. wp_EndTimeInSeconds_update (\<lambda>_. x)) dec_int64)"
  "map_of wirePlan_fields ''relationId'' = Some (field wp_RelationID (\<lambda>x. wp_RelationID_update (\<lambda>_. x)) dec_string)"
  "map_of wirePlan_fields ''createdTimeInSeconds'' = Some (field wp_CreatedTimeInSeconds (\<lambda>x. wp_CreatedTimeInSeconds_update (\<lambda>_. x)) dec_int64)"
  by (simp_all add: wirePlan_fields_def)

lemma decode_wirePlan:
  assumes "in_int64 (wp_StartTimeInSeconds w)" "in_int64 (wp_EndTimeInSeconds w)" "in_int64 (wp_CreatedTimeInSeconds w)"
  shows "dec_wirePlan (print (enc_wirePlan w)) = Some w"
proof -
  have "wf_json (enc_wirePlan w)"
    unfolding enc_wirePlan_def by (auto simp: omit_str_def omit_int_def)
  with assms show ?thesis
    by (simp add: dec_wirePlan_def unmarshal_print)
      (simp add: enc_wirePlan_def decode_struct_def decode_members_append zero_wirePlan_def dec_simps field_def)
qed

section \<open>Swapping plans\<close>

text \<open>What EnsureCustomerPlan is to do with a listing: the plans to cancel, in listing order, and
  the assignment that already is what is wanted.\<close>

definition stray_ids :: "DesiredCustomerPlan \<Rightarrow> int \<Rightarrow> CustomerPlan list \<Rightarrow> string list" where
  "stray_ids d now cps =
     map cp_ProductPlanID (filter (\<lambda>cp. Active cp now \<and> cp_ProductPlanID cp \<noteq> dp_ProductPlanID d) cps)"

definition active_match :: "DesiredCustomerPlan \<Rightarrow> int \<Rightarrow> CustomerPlan list \<Rightarrow> CustomerPlan option" where
  "active_match d now cps =
     find (\<lambda>cp. Active cp now \<and> cp_ProductPlanID cp = dp_ProductPlanID d) (rev cps)"

fun cancel_all :: "'w client \<Rightarrow> string \<Rightarrow> string list \<Rightarrow> ('w net, goerr option) io" where
  "cancel_all c customerID [] = ret None"
| "cancel_all c customerID (p # ps) = do {
     r \<leftarrow> CancelCustomerPlan c customerID p;
     case r of Some e \<Rightarrow> ret (Some e) | None \<Rightarrow> cancel_all c customerID ps
   }"

definition assign :: "'w client \<Rightarrow> DesiredCustomerPlan \<Rightarrow> int \<Rightarrow> ('w net, goerr + CustomerPlan) io" where
  "assign c d now = do {
     r \<leftarrow> postCustomerPlan c (assign_payload d now);
     ret (case rp_err r of
       Some e \<Rightarrow> Inl e
     | None \<Rightarrow> Inr (customerPlanFromWire
         (if wp_CustomerID (rp_val r) = [] then assign_payload d now else rp_val r) (rp_body r)))
   }"

lemma settle_plans_cancel_all:
  "run_state (settle_plans c d now cps m) s =
     (case run_state (cancel_all c (dp_CustomerID d) (stray_ids d now cps)) s of
        (Some e, s') \<Rightarrow> (Inl e, s')
      | (None, s') \<Rightarrow> (Inr (case active_match d now cps of Some cp \<Rightarrow> Some cp | None \<Rightarrow> m), s'))"
proof (induction cps arbitrary: m s)
  case Nil
  then show ?case by (simp add: stray_ids_def active_match_def run_simps)
next
  case (Cons cp cps)
  have find_snoc: "find P (xs @ [x]) = (case find P xs of Some y \<Rightarrow> Some y | None \<Rightarrow> if P x then Some x else None)" for P xs and x :: CustomerPlan
    by (induction xs) auto
  show ?case
    using Cons by (auto simp: stray_ids_def active_match_def find_snoc run_simps split: option.split prod.split)
qed

lemma cancel_end_future:
  "now < wp_EndTimeInSeconds (cancel_payload cust plan now cp) * second
   \<and> wp_EndTimeInSeconds (cancel_payload cust plan now cp) * second \<le> now + customerPlanTimeSkew"
  using unix_secs_bounds [of "now + customerPlanTimeSkew"]
  by (simp add: cancel_payload_def customerPlanTimeSkew_def)

section \<open>Properties\<close>

text \<open>
  C15.  EnsureCustomerPlan swaps plans in the right order: given the listing, it cancels every
  active assignment to another plan, in listing order, and stops at the first failure; only when
  all of them are cancelled does it return the active assignment to the wanted plan, or post a
  new one when there is none.
\<close>

theorem EnsureCustomerPlan_swap:
  assumes "dp_CustomerID d \<noteq> []" "dp_ProductPlanID d \<noteq> []"
    and "run_state (ListCustomerPlans c (dp_CustomerID d)) s = (Inr existing, s1)"
  shows "run_state (EnsureCustomerPlan c d) s =
    (let now = cl_now c (net_world s) in
     case run_state (cancel_all c (dp_CustomerID d) (stray_ids d now existing)) s1 of
       (Some e, s2) \<Rightarrow> (Inl e, s2)
     | (None, s2) \<Rightarrow>
         (case active_match d now existing of
            Some cp \<Rightarrow> (Inr cp, s2)
          | None \<Rightarrow> run_state (assign c d now) s2))"
  using assms
  by (simp add: EnsureCustomerPlan_def run_simps settle_plans_cancel_all assign_def Let_def
      split: option.split prod.split)

definition sample_plan :: DesiredCustomerPlan where
  "sample_plan = \<lparr>dp_CustomerID = ''u1'', dp_ProductPlanID = ''p2'', dp_ProductID = [], dp_StartTime = zero_time\<rparr>"

lemma sample_listing:
  "fst (run_state (ListCustomerPlans (scripted 1) ''u1'') (fresh [Response 200 [] ''null'', Response 500 [] []])) = Inr []"
  by code_simp

theorem EnsureCustomerPlan_swap_witness:
  "run_state (EnsureCustomerPlan (scripted 1) sample_plan) (fresh [Response 200 [] ''null'', Response 500 [] []])
     = run_state (assign (scripted 1) sample_plan 0)
         (snd (run_state (ListCustomerPlans (scripted 1) ''u1'') (fresh [Response 200 [] ''null'', Response 500 [] []])))"
proof -
  have id: "dp_CustomerID sample_plan = ''u1''" "dp_ProductPlanID sample_plan \<noteq> []"
    by (simp_all add: sample_plan_def)
  from EnsureCustomerPlan_swap [of sample_plan "scripted 1", unfolded id(1), OF _ id(2) run_fst [OF sample_listing]]
  show ?thesis
    by (simp add: stray_ids_def active_match_def run_simps Let_def id(1) scripted_def)
qed

text \<open>
  The end time a cancellation posts is in the future, by at most the skew of 30 s, when the
  clock reads a plausible time, and the posted JSON reads back as exactly that update.
\<close>

theorem cancel_payload_valid:
  assumes "plausible now" "in_int64 (cp_StartTimeInSeconds cp)"
  shows "now < wp_EndTimeInSeconds (cancel_payload cust plan now cp) * second
    \<and> wp_EndTimeInSeconds (cancel_payload cust plan now cp) * second \<le> now + customerPlanTimeSkew
    \<and> dec_wirePlan (print (enc_wirePlan (cancel_payload cust plan now cp))) = Some (cancel_payload cust plan now cp)"
proof -
  have "in_int64 (wp_StartTimeInSeconds (cancel_payload cust plan now cp))"
    "in_int64 (wp_EndTimeInSeconds (cancel_payload cust plan now cp))"
    using assms unix_secs_int64 [of now] unix_secs_int64 [of "now + customerPlanTimeSkew"]
    by (simp_all add: cancel_payload_def plausible_def customerPlanTimeSkew_def)
  then have "dec_wirePlan (print (enc_wirePlan (cancel_payload cust plan now cp))) = Some (cancel_payload cust plan now cp)"
    by (rule decode_wirePlan) (simp add: cancel_payload_def in_int64_def)
  with cancel_end_future show ?thesis by blast
qed

definition sample_assignment :: CustomerPlan where
  "sample_assignment = \<lparr>cp_CustomerID = ''u1'', cp_ProductPlanID = ''p1'', cp_ProductID = [], cp_RelationID = ''r'',
     cp_StartTimeInSeconds = 0, cp_EndTimeInSeconds = 0, cp_Raw = []\<rparr>"

theorem cancel_payload_valid_witness:
  "dec_wirePlan (print (enc_wirePlan (cancel_payload ''u1'' ''p1'' (7 * hour) sample_assignment)))
     = Some (cancel_payload ''u1'' ''p1'' (7 * hour) sample_assignment)"
  using cancel_payload_valid [of "7 * hour" sample_assignment "''u1''" "''p1''"]
  by (simp add: plausible_def in_int64_def sample_assignment_def)

end
