(* ===== verification/PaymentSwitch.thy ===== *)
theory PaymentSwitch
  imports Transport Json Url
begin

text \<open>
  internal/amberflo/payment_switch.go and ingest.go: payment providers and scheduled switches
  between them, and the submission of usage records.
\<close>

section \<open>Payment settings and switches\<close>

definition BillingSystemStripe :: string where
  "BillingSystemStripe = ''Stripe''"

record PaymentSetting =
  ps_ID :: string
  ps_Name :: string
  ps_BillingSystem :: string
  ps_AccountID :: string

record PaymentMethodSwitch =
  sw_CustomerID :: string
  sw_SourcePaymentType :: string
  sw_SourcePaymentID :: string
  sw_TargetPaymentType :: string
  sw_TargetPaymentID :: string
  sw_TargetCustomerIdentifier :: string
  sw_SwitchTimeInSeconds :: int
  sw_CreatedTimeInSeconds :: int
  sw_UpdatedTimeInSeconds :: int

definition zero_setting :: PaymentSetting where
  "zero_setting = \<lparr>ps_ID = [], ps_Name = [], ps_BillingSystem = [], ps_AccountID = []\<rparr>"

definition zero_switch :: PaymentMethodSwitch where
  "zero_switch = \<lparr>sw_CustomerID = [], sw_SourcePaymentType = [], sw_SourcePaymentID = [],
     sw_TargetPaymentType = [], sw_TargetPaymentID = [], sw_TargetCustomerIdentifier = [],
     sw_SwitchTimeInSeconds = 0, sw_CreatedTimeInSeconds = 0, sw_UpdatedTimeInSeconds = 0\<rparr>"

definition setting_fields :: "PaymentSetting fields" where
  "setting_fields =
    [(''id'', field ps_ID (\<lambda>x. ps_ID_update (\<lambda>_. x)) dec_string),
     (''name'', field ps_Name (\<lambda>x. ps_Name_update (\<lambda>_. x)) dec_string),
     (''billingSystem'', field ps_BillingSystem (\<lambda>x. ps_BillingSystem_update (\<lambda>_. x)) dec_string),
     (''accountId'', field ps_AccountID (\<lambda>x. ps_AccountID_update (\<lambda>_. x)) dec_string)]"

definition switch_fields :: "PaymentMethodSwitch fields" where
  "switch_fields =
    [(''customerId'', field sw_CustomerID (\<lambda>x. sw_CustomerID_update (\<lambda>_. x)) dec_string),
     (''sourcePaymentType'', field sw_SourcePaymentType (\<lambda>x. sw_SourcePaymentType_update (\<lambda>_. x)) dec_string),
     (''sourcePaymentId'', field sw_SourcePaymentID (\<lambda>x. sw_SourcePaymentID_update (\<lambda>_. x)) dec_string),
     (''targetPaymentType'', field sw_TargetPaymentType (\<lambda>x. sw_TargetPaymentType_update (\<lambda>_. x)) dec_string),
     (''targetPaymentId'', field sw_TargetPaymentID (\<lambda>x. sw_TargetPaymentID_update (\<lambda>_. x)) dec_string),
     (''targetCustomerIdentifier'', field sw_TargetCustomerIdentifier (\<lambda>x. sw_TargetCustomerIdentifier_update (\<lambda>_. x)) dec_string),
     (''switchTimeInSeconds'', field sw_SwitchTimeInSeconds (\<lambda>x. sw_SwitchTimeInSeconds_update (\<lambda>_. x)) dec_int64),
     (''createdTimeInSeconds'', field sw_CreatedTimeInSeconds (\<lambda>x. sw_CreatedTimeInSeconds_update (\<lambda>_. x)) dec_int64),
     (''updatedTimeInSeconds'', field sw_UpdatedTimeInSeconds (\<lambda>x. sw_UpdatedTimeInSeconds_update (\<lambda>_. x)) dec_int64)]"

definition dec_settings :: "string \<Rightarrow> PaymentSetting list option" where
  "dec_settings = unmarshal (dec_list zero_setting (decode_struct setting_fields)) []"

definition dec_switches :: "string \<Rightarrow> PaymentMethodSwitch list option" where
  "dec_switches = unmarshal (dec_list zero_switch (decode_struct switch_fields)) []"

definition dec_switch :: "string \<Rightarrow> PaymentMethodSwitch option" where
  "dec_switch = unmarshal (decode_struct switch_fields) zero_switch"

definition enc_switch :: "PaymentMethodSwitch \<Rightarrow> json" where
  "enc_switch w = JObj
     ([(''customerId'', JStr (sw_CustomerID w))]
      @ omit_str ''sourcePaymentType'' (sw_SourcePaymentType w)
      @ omit_str ''sourcePaymentId'' (sw_SourcePaymentID w)
      @ [(''targetPaymentType'', JStr (sw_TargetPaymentType w)), (''targetPaymentId'', JStr (sw_TargetPaymentID w)),
         (''targetCustomerIdentifier'', JStr (sw_TargetCustomerIdentifier w)),
         (''switchTimeInSeconds'', JNum (itoa (sw_SwitchTimeInSeconds w)))]
      @ omit_int ''createdTimeInSeconds'' (sw_CreatedTimeInSeconds w)
      @ omit_int ''updatedTimeInSeconds'' (sw_UpdatedTimeInSeconds w))"

definition ListPaymentSettings :: "'w client \<Rightarrow> ('w net, goerr + PaymentSetting list) io" where
  "ListPaymentSettings c = do {
     r \<leftarrow> doJSON c ''GET'' ''/payments/billing-settings/list'' NoBody dec_settings [];
     ret (case rp_err r of
       Some e \<Rightarrow> Inl e
     | None \<Rightarrow> if rp_body r = [] \<or> rp_body r = ''null'' then Inr [] else Inr (rp_val r))
   }"

text \<open>\<open>strings.EqualFold\<close> with an ASCII name, and \<open>strings.ToLower\<close> as far as ASCII letters can come
  out of it: U+0130 becomes i and U+212A becomes k.\<close>

definition EqualFold :: "string \<Rightarrow> string \<Rightarrow> bool" where
  "EqualFold s t \<longleftrightarrow> fold_key s = fold_key t"

fun ToLower :: "string \<Rightarrow> string" where
  "ToLower [] = []"
| "ToLower (c # cs) =
     (if prefix [CHR 0xC4, CHR 0xB0] (c # cs) then CHR ''i'' # ToLower (drop 1 cs)
      else if prefix [CHR 0xE2, CHR 0x84, CHR 0xAA] (c # cs) then CHR ''k'' # ToLower (drop 2 cs)
      else to_lower c # ToLower cs)"

definition matchesSystem :: "string \<Rightarrow> PaymentSetting \<Rightarrow> bool" where
  "matchesSystem want s \<longleftrightarrow>
     (if want = [] then False
      else if EqualFold (ps_BillingSystem s) want then True
      else contains_sub (ToLower (ps_BillingSystem s)) (ToLower want))"

definition FindPaymentSettingBySystem :: "PaymentSetting list \<Rightarrow> string \<Rightarrow> string \<Rightarrow> PaymentSetting option" where
  "FindPaymentSettingBySystem settings want preferID =
     (let want = trim_space want in
      case (if preferID \<noteq> [] then find (\<lambda>s. ps_ID s = preferID \<and> matchesSystem want s) settings else None) of
        Some s \<Rightarrow> Some s
      | None \<Rightarrow> find (matchesSystem want) settings)"

definition ListPaymentMethodSwitches :: "'w client \<Rightarrow> string \<Rightarrow> ('w net, goerr + PaymentMethodSwitch list) io" where
  "ListPaymentMethodSwitches c customerID =
     (if customerID = [] then ret (Inl (permanent ''customerID is required''))
      else do {
        r \<leftarrow> doJSON c ''GET'' (''/customers/payment-method/switch?'' @ Values_Encode [(''customerId'', customerID)])
               NoBody dec_switches [];
        ret (case rp_err r of
          Some e \<Rightarrow> Inl e
        | None \<Rightarrow> if rp_body r = [] \<or> rp_body r = ''null'' then Inr [] else Inr (rp_val r))
      })"

definition SchedulePaymentMethodSwitch :: "'w client \<Rightarrow> PaymentMethodSwitch
    \<Rightarrow> ('w net, goerr + PaymentMethodSwitch) io" where
  "SchedulePaymentMethodSwitch c sw =
     (if sw_CustomerID sw = [] then
        ret (Inl (permanent ''PaymentMethodSwitch.CustomerID is required''))
      else if sw_TargetPaymentType sw = [] \<or> sw_TargetPaymentID sw = [] then
        ret (Inl (permanent ''PaymentMethodSwitch targetPaymentType and targetPaymentId are required''))
      else if sw_TargetCustomerIdentifier sw = [] then
        ret (Inl (permanent ''PaymentMethodSwitch.targetCustomerIdentifier is required''))
      else if sw_SwitchTimeInSeconds sw \<le> 0 then
        ret (Inl (permanent ''PaymentMethodSwitch.switchTimeInSeconds is required''))
      else do {
        r \<leftarrow> doJSON c ''POST'' ''/customers/payment-method/switch'' (Encoded (print (enc_switch sw)))
               dec_switch zero_switch;
        ret (case rp_err r of
          Some e \<Rightarrow> Inl e
        | None \<Rightarrow> Inr (if sw_CustomerID (rp_val r) = [] then sw else rp_val r))
      })"

definition HasMatchingPaymentMethodSwitch :: "PaymentMethodSwitch list \<Rightarrow> string \<Rightarrow> int \<Rightarrow> bool" where
  "HasMatchingPaymentMethodSwitch switches targetCustomerID switchTime \<longleftrightarrow>
     list_ex (\<lambda>s. sw_TargetCustomerIdentifier s = targetCustomerID \<and> sw_SwitchTimeInSeconds s = switchTime) switches"

definition FormatPaymentMethodSwitch :: "PaymentMethodSwitch \<Rightarrow> string" where
  "FormatPaymentMethodSwitch sw =
     ''customer='' @ sw_CustomerID sw @ '' target='' @ sw_TargetPaymentType sw @ ''/'' @ sw_TargetPaymentID sw
     @ '' stripeCustomer='' @ sw_TargetCustomerIdentifier sw @ '' at='' @ itoa (sw_SwitchTimeInSeconds sw)"

section \<open>Usage records\<close>

record UsageRecord =
  ur_CustomerID :: string
  ur_MeterAPIName :: string
  ur_MeterValue :: int
  ur_UniqueID :: string
  ur_UTCTimeMillis :: int
  ur_Dimensions :: strmap

definition enc_wireUsageRecord :: "UsageRecord \<Rightarrow> json" where
  "enc_wireUsageRecord u = JObj
     ([(''customerId'', JStr (ur_CustomerID u)), (''meterApiName'', JStr (ur_MeterAPIName u)),
       (''meterValue'', JNum (itoa (ur_MeterValue u))), (''uniqueId'', JStr (ur_UniqueID u)),
       (''meterTimeInMillis'', JNum (itoa (ur_UTCTimeMillis u)))]
      @ omit_map JStr ''dimensions'' (ur_Dimensions u))"

definition SubmitUsage :: "'w client \<Rightarrow> UsageRecord list \<Rightarrow> ('w net, goerr option) io" where
  "SubmitUsage c records = do {
     r \<leftarrow> doJSON c ''POST'' ''/ingest'' (Encoded (print (JArr (map enc_wireUsageRecord records)))) dec_none ();
     ret (rp_err r)
   }"

text \<open>That a batch was posted and accepted, read off the log of the exchanges.\<close>

definition posted :: "'w net \<Rightarrow> UsageRecord list \<Rightarrow> bool" where
  "posted w records \<longleftrightarrow> (\<exists>req out. Sent req out \<in> set (net_log w) \<and> success_outcome out
     \<and> rq_Method req = ''POST'' \<and> rq_Path req = ''/ingest''
     \<and> rq_Body req = Some (print (JArr (map enc_wireUsageRecord records))))"

lemma retryable_failed: "retryable_outcome out \<Longrightarrow> \<not> success_outcome out"
  by (auto simp: success_outcome_def retryable_outcome_def split: http_outcome.splits)

lemma call_ended_well: "call_log req n L \<Longrightarrow> ends_well L \<Longrightarrow> \<exists>out. Sent req out \<in> set L \<and> success_outcome out"
proof (induction req n L rule: call_log.induct)
  case (3 req n r out d L)
  then show ?case by (cases "outcomes L = []") (auto simp: ends_well_def dest: retryable_failed)
qed (auto simp: ends_well_def)

lemma SubmitUsage_log:
  assumes "run_state (SubmitUsage c records) w = (e, w')"
  shows "\<exists>L. net_log w' = net_log w @ L"
proof -
  have "sends_only (\<lambda>r. True) (SubmitUsage c records)"
    unfolding SubmitUsage_def by (intro sends_intros sends_only_doJSON TrueI)
  from tracedD [OF this assms] show ?thesis by blast
qed

lemma SubmitUsage_posts:
  assumes "run_state (SubmitUsage c records) w = (None, w')" "cl_retries c \<ge> 1"
  shows "posted w' records"
proof -
  let ?body = "Encoded (print (JArr (map enc_wireUsageRecord records)))"
  from assms(1) obtain r where r: "run_state (doJSON c ''POST'' ''/ingest'' ?body dec_none ()) w = (r, w')" "rp_err r = None"
    by (auto simp: SubmitUsage_def run_simps split: prod.splits)
  from doJSON_ok [OF r assms(2)] obtain req where req: "build_request c ''POST'' ''/ingest'' (body_bytes ?body) = Some req"
    by blast
  from doJSON_log [OF req r(1)] obtain L where L: "net_log w' = net_log w @ L" "call_log req (nat (cl_retries c)) L" by blast
  from doJSON_ok_log [OF r assms(2)] L(1) have "ends_well L" by auto
  from call_ended_well [OF L(2) this] obtain out where "Sent req out \<in> set L" "success_outcome out" by blast
  moreover have "fst (resolve ''/ingest'') = ''/ingest''" by code_simp
  ultimately show ?thesis using L(1) build_request_path [OF req]
    unfolding posted_def by (intro exI [of _ req] exI [of _ out]) (simp add: body_bytes_def)
qed

section \<open>The wire format\<close>

lemma switch_field [dec_simps]:
  "map_of switch_fields ''customerId'' = Some (field sw_CustomerID (\<lambda>x. sw_CustomerID_update (\<lambda>_. x)) dec_string)"
  "map_of switch_fields ''sourcePaymentType'' = Some (field sw_SourcePaymentType (\<lambda>x. sw_SourcePaymentType_update (\<lambda>_. x)) dec_string)"
  "map_of switch_fields ''sourcePaymentId'' = Some (field sw_SourcePaymentID (\<lambda>x. sw_SourcePaymentID_update (\<lambda>_. x)) dec_string)"
  "map_of switch_fields ''targetPaymentType'' = Some (field sw_TargetPaymentType (\<lambda>x. sw_TargetPaymentType_update (\<lambda>_. x)) dec_string)"
  "map_of switch_fields ''targetPaymentId'' = Some (field sw_TargetPaymentID (\<lambda>x. sw_TargetPaymentID_update (\<lambda>_. x)) dec_string)"
  "map_of switch_fields ''targetCustomerIdentifier'' = Some (field sw_TargetCustomerIdentifier (\<lambda>x. sw_TargetCustomerIdentifier_update (\<lambda>_. x)) dec_string)"
  "map_of switch_fields ''switchTimeInSeconds'' = Some (field sw_SwitchTimeInSeconds (\<lambda>x. sw_SwitchTimeInSeconds_update (\<lambda>_. x)) dec_int64)"
  "map_of switch_fields ''createdTimeInSeconds'' = Some (field sw_CreatedTimeInSeconds (\<lambda>x. sw_CreatedTimeInSeconds_update (\<lambda>_. x)) dec_int64)"
  "map_of switch_fields ''updatedTimeInSeconds'' = Some (field sw_UpdatedTimeInSeconds (\<lambda>x. sw_UpdatedTimeInSeconds_update (\<lambda>_. x)) dec_int64)"
  by (simp_all add: switch_fields_def)

definition switch_ok :: "PaymentMethodSwitch \<Rightarrow> bool" where
  "switch_ok w \<longleftrightarrow> in_int64 (sw_SwitchTimeInSeconds w) \<and> in_int64 (sw_CreatedTimeInSeconds w)
     \<and> in_int64 (sw_UpdatedTimeInSeconds w)"

lemma enc_switch_wf: "wf_json (enc_switch w)"
  unfolding enc_switch_def by (auto simp: omit_str_def omit_int_def)

lemma decode_switch_json:
  "switch_ok w \<Longrightarrow> decode_struct switch_fields zero_switch (enc_switch w) = Some w"
  by (simp add: enc_switch_def decode_struct_def decode_members_append zero_switch_def switch_ok_def
      dec_simps field_def)

section \<open>Properties\<close>

text \<open>
  Which payment setting is chosen: a setting whose billing system matches, the pinned one if
  it is in the list and matches, and none exactly when no setting matches.
\<close>

theorem FindPaymentSetting_spec:
  "case FindPaymentSettingBySystem settings want preferID of
     None \<Rightarrow> \<forall>s\<in>set settings. \<not> matchesSystem (trim_space want) s
   | Some s \<Rightarrow> s \<in> set settings \<and> matchesSystem (trim_space want) s
       \<and> (preferID \<noteq> [] \<and> (\<exists>t\<in>set settings. ps_ID t = preferID \<and> matchesSystem (trim_space want) t)
            \<longrightarrow> ps_ID s = preferID)"
proof -
  have found: "find P xs = Some x \<Longrightarrow> x \<in> set xs \<and> P x" for P and xs :: "PaymentSetting list" and x
    by (auto simp: find_Some_iff)
  show ?thesis
    by (auto simp: FindPaymentSettingBySystem_def Let_def find_None_iff dest!: found
        split: option.splits if_splits)
qed

theorem FindPaymentSetting_spec_witness:
  "FindPaymentSettingBySystem [\<lparr>ps_ID = ''1'', ps_Name = [], ps_BillingSystem = ''AWS'', ps_AccountID = []\<rparr>] ''Stripe'' [] = None"
  using FindPaymentSetting_spec [of "[\<lparr>ps_ID = ''1'', ps_Name = [], ps_BillingSystem = ''AWS'', ps_AccountID = []\<rparr>]" "''Stripe''" "[]"]
  by code_simp

end
