(* ===== verification/Sha.thy ===== *)
theory Sha
  imports Prelude "HOL-Library.Word"
begin

unbundle bit_operations_syntax

text \<open>
  crypto/sha1 and crypto/sha256, on 32-bit words: the meter names that are too long are replaced
  by the hex SHA-1 of the name, and the unique id of a usage event is derived from the SHA-256 of
  its CloudEvent id.
\<close>

type_synonym w32 = "32 word"

definition rotl32 :: "nat \<Rightarrow> w32 \<Rightarrow> w32" where
  "rotl32 n w = push_bit n w OR drop_bit (32 - n) w"

definition rotr32 :: "nat \<Rightarrow> w32 \<Rightarrow> w32" where
  "rotr32 n w = drop_bit n w OR push_bit (32 - n) w"

text \<open>The message as bytes, padded with 0x80, zeros and its length in bits to whole blocks.\<close>

definition byte_of :: "nat \<Rightarrow> nat \<Rightarrow> nat" where
  "byte_of i n = n div 256 ^ i mod 256"

definition pad_message :: "nat list \<Rightarrow> nat list" where
  "pad_message bs =
     (let l = length bs; z = (119 - l mod 64) mod 64
      in bs @ [128] @ replicate z 0 @ map (\<lambda>i. byte_of i (8 * l)) (rev [0..<8]))"

fun words_of :: "nat list \<Rightarrow> w32 list" where
  "words_of (a # b # c # d # bs) =
     of_nat (a * 16777216 + b * 65536 + c * 256 + d) # words_of bs"
| "words_of _ = []"

fun chunks :: "nat \<Rightarrow> nat \<Rightarrow> 'a list \<Rightarrow> 'a list list" where
  "chunks 0 n xs = []"
| "chunks (Suc k) n xs = take n xs # chunks k n (drop n xs)"

definition blocks :: "nat list \<Rightarrow> w32 list list" where
  "blocks bs = (let ws = words_of (pad_message bs) in chunks (length ws div 16) 16 ws)"

definition bytes_of_word :: "w32 \<Rightarrow> nat list" where
  "bytes_of_word w = map (\<lambda>i. byte_of i (unat w)) (rev [0..<4])"

section \<open>SHA-1\<close>

text \<open>The schedule is kept newest first: the words i-3, i-8, i-14 and i-16 are at 2, 7, 13, 15.\<close>

fun extend1 :: "nat \<Rightarrow> w32 list \<Rightarrow> w32 list" where
  "extend1 0 ws = ws"
| "extend1 (Suc k) ws =
     extend1 k (rotl32 1 (ws ! 2 XOR ws ! 7 XOR ws ! 13 XOR ws ! 15) # ws)"

definition round1 :: "nat \<times> w32 \<Rightarrow> w32 \<times> w32 \<times> w32 \<times> w32 \<times> w32 \<Rightarrow> w32 \<times> w32 \<times> w32 \<times> w32 \<times> w32" where
  "round1 iw st = (case iw of (i, w) \<Rightarrow> case st of (a, b, c, d, e) \<Rightarrow>
     let (f, k) = (if i < 20 then ((b AND c) OR (NOT b AND d), 0x5A827999)
                   else if i < 40 then (b XOR c XOR d, 0x6ED9EBA1)
                   else if i < 60 then ((b AND c) OR (b AND d) OR (c AND d), 0x8F1BBCDC)
                   else (b XOR c XOR d, 0xCA62C1D6))
     in (rotl32 5 a + f + e + k + w, a, rotl32 30 b, c, d))"

definition block1 :: "w32 list \<Rightarrow> w32 \<times> w32 \<times> w32 \<times> w32 \<times> w32 \<Rightarrow> w32 \<times> w32 \<times> w32 \<times> w32 \<times> w32" where
  "block1 blk h = (case h of (h0, h1, h2, h3, h4) \<Rightarrow>
     case fold round1 (List.enumerate 0 (rev (extend1 64 (rev blk)))) h of (a, b, c, d, e) \<Rightarrow>
       (h0 + a, h1 + b, h2 + c, h3 + d, h4 + e))"

definition sha1 :: "string \<Rightarrow> nat list" where
  "sha1 s =
     (case fold block1 (blocks (map of_char s)) (0x67452301, 0xEFCDAB89, 0x98BADCFE, 0x10325476, 0xC3D2E1F0)
      of (a, b, c, d, e) \<Rightarrow> concat (map bytes_of_word [a, b, c, d, e]))"

section \<open>SHA-256\<close>

text \<open>The round constants are the first 32 bits of the fractional parts of the cube roots of the
  first 64 primes, the initial state those of the square roots of the first eight.\<close>

fun root_below :: "nat \<Rightarrow> nat \<Rightarrow> nat \<Rightarrow> nat \<Rightarrow> nat" where
  "root_below k n 0 r = r"
| "root_below k n (Suc b) r = root_below k n b (if (r + 2 ^ b) ^ k \<le> n then r + 2 ^ b else r)"

definition root_bits :: "nat \<Rightarrow> nat \<Rightarrow> w32" where
  "root_bits k p = of_nat (root_below k (p * 2 ^ (32 * k)) 38 0)"

definition small_primes :: "nat list" where
  "small_primes = filter (\<lambda>p. \<forall>q\<in>set [2..<p]. p mod q \<noteq> 0) [2..<312]"

definition sha256_k :: "w32 list" where
  "sha256_k = map (root_bits 3) small_primes"

fun extend256 :: "nat \<Rightarrow> w32 list \<Rightarrow> w32 list" where
  "extend256 0 ws = ws"
| "extend256 (Suc k) ws =
     (let x = ws ! 14; y = ws ! 1;
          s0 = rotr32 7 x XOR rotr32 18 x XOR drop_bit 3 x;
          s1 = rotr32 17 y XOR rotr32 19 y XOR drop_bit 10 y
      in extend256 k ((ws ! 15 + s0 + ws ! 6 + s1) # ws))"

type_synonym st256 = "w32 \<times> w32 \<times> w32 \<times> w32 \<times> w32 \<times> w32 \<times> w32 \<times> w32"

definition round256 :: "w32 \<times> w32 \<Rightarrow> st256 \<Rightarrow> st256" where
  "round256 kw st = (case kw of (k, w) \<Rightarrow> case st of (a, b, c, d, e, f, g, h) \<Rightarrow>
     let t1 = h + (rotr32 6 e XOR rotr32 11 e XOR rotr32 25 e) + ((e AND f) XOR (NOT e AND g)) + k + w;
         t2 = (rotr32 2 a XOR rotr32 13 a XOR rotr32 22 a) + ((a AND b) XOR (a AND c) XOR (b AND c))
     in (t1 + t2, a, b, c, d + t1, e, f, g))"

definition block256 :: "w32 list \<Rightarrow> st256 \<Rightarrow> st256" where
  "block256 blk st = (case st of (h0, h1, h2, h3, h4, h5, h6, h7) \<Rightarrow>
     case fold round256 (zip sha256_k (rev (extend256 48 (rev blk)))) st of (a, b, c, d, e, f, g, h) \<Rightarrow>
       (h0 + a, h1 + b, h2 + c, h3 + d, h4 + e, h5 + f, h6 + g, h7 + h))"

definition sha256 :: "string \<Rightarrow> nat list" where
  "sha256 s =
     (case fold block256 (blocks (map of_char s))
        (root_bits 2 2, root_bits 2 3, root_bits 2 5, root_bits 2 7,
         root_bits 2 11, root_bits 2 13, root_bits 2 17, root_bits 2 19)
      of (a, b, c, d, e, f, g, h) \<Rightarrow> concat (map bytes_of_word [a, b, c, d, e, f, g, h]))"

text \<open>\<open>hex.EncodeToString\<close>.\<close>

definition lower_hex :: "nat \<Rightarrow> char" where
  "lower_hex d = (if d < 10 then char_of (48 + d) else char_of (87 + d))"

definition hex_bytes :: "nat list \<Rightarrow> string" where
  "hex_bytes bs = concat (map (\<lambda>b. [lower_hex (b div 16), lower_hex (b mod 16)]) bs)"

lemma length_bytes_of_word [simp]: "length (bytes_of_word w) = 4"
  by (simp add: bytes_of_word_def)

lemma bytes_of_word_bound: "\<forall>b\<in>set (bytes_of_word w). b < 256"
  by (simp add: bytes_of_word_def byte_of_def)

lemma sha1_length: "length (sha1 s) = 20"
  by (simp add: sha1_def split: prod.split)

lemma sha256_length: "length (sha256 s) = 32"
  by (simp add: sha256_def split: prod.split)

lemma sha1_bound: "\<forall>b\<in>set (sha1 s). b < 256"
  using bytes_of_word_bound by (auto simp: sha1_def split: prod.split)

lemma sha256_bound: "\<forall>b\<in>set (sha256 s). b < 256"
  using bytes_of_word_bound by (auto simp: sha256_def split: prod.split)

lemma length_hex_bytes: "length (hex_bytes bs) = 2 * length bs"
  by (induction bs) (simp_all add: hex_bytes_def)

end
