(* ===== verification/Meter.thy ===== *)
theory Meter
  imports Transport Json Url Sha
begin

text \<open>
  internal/amberflo/meter.go, with the product-item calls of product_plan.go it uses: the name and
  label a meter gets, the lookups, EnsureMeter with its recovery from a duplicate label, and
  DeleteMeter.
\<close>

section \<open>Names and labels\<close>

definition lockingStatusActive :: string where
  "lockingStatusActive = ''close_to_changes''"

definition lockingStatusDeprecated :: string where
  "lockingStatusDeprecated = ''deprecated''"

definition maxMeterAPINameLen :: nat where
  "maxMeterAPINameLen = 50"

definition maxMeterLabelLen :: nat where
  "maxMeterLabelLen = 100"

definition MeterAPIName :: "string \<Rightarrow> string" where
  "MeterAPIName name = (if length name \<le> maxMeterAPINameLen then name else hex_bytes (sha1 name))"

definition disambiguatedMeterLabel :: "string \<Rightarrow> string \<Rightarrow> string" where
  "disambiguatedMeterLabel label apiName =
     (let label = (if label = [] then apiName else label);
          suffix = '' ('' @ apiName @ '')''
      in if length label + length suffix \<le> maxMeterLabelLen then label @ suffix
         else if int maxMeterLabelLen - int (length suffix) < 1 then
           (if length apiName \<le> maxMeterLabelLen then apiName else take maxMeterLabelLen apiName)
         else take (maxMeterLabelLen - length suffix) label @ suffix)"

definition meterLabelAcceptable :: "string \<Rightarrow> string \<Rightarrow> string \<Rightarrow> bool" where
  "meterLabelAcceptable existing want apiName \<longleftrightarrow>
     existing = want \<or> existing = disambiguatedMeterLabel want apiName"

text \<open>The UUID pattern of a Kubernetes UID.\<close>

definition is_hex :: "char \<Rightarrow> bool" where
  "is_hex c \<longleftrightarrow> (let n = (of_char c :: nat) in
     48 \<le> n \<and> n \<le> 57 \<or> 97 \<le> n \<and> n \<le> 102 \<or> 65 \<le> n \<and> n \<le> 70)"

fun matches_groups :: "nat list \<Rightarrow> string \<Rightarrow> bool" where
  "matches_groups [] s = (s = [])"
| "matches_groups [n] s = (length s = n \<and> list_all is_hex s)"
| "matches_groups (n # m # ns) s =
     (list_all is_hex (take n s) \<and> length (take n s) = n \<and>
      (case drop n s of [] \<Rightarrow> False | c # r \<Rightarrow> c = CHR ''-'' \<and> matches_groups (m # ns) r))"

definition isLegacyUIDMeterAPIName :: "string \<Rightarrow> bool" where
  "isLegacyUIDMeterAPIName apiName \<longleftrightarrow> matches_groups [8, 4, 4, 4, 12] apiName"

section \<open>Data\<close>

record DesiredMeter =
  dm_APIName :: string
  dm_Label :: string
  dm_MeterType :: string
  dm_AggregationDimensions :: "string list"
  dm_Unit :: string
  dm_Dimensions :: "string list"

record Meter =
  me_ID :: string
  me_APIName :: string
  me_Label :: string
  me_MeterType :: string
  me_AggregationDimensions :: "string list"
  me_Unit :: string
  me_Dimensions :: "string list"
  me_LockingStatus :: string
  me_Raw :: string

record wireMeter =
  wm_ID :: string
  wm_Label :: string
  wm_MeterAPIName :: string
  wm_MeterType :: string
  wm_AggregationDimensions :: "string list"
  wm_Unit :: string
  wm_Dimensions :: "string list"
  wm_UseInBilling :: bool
  wm_LockingStatus :: string

definition zero_wireMeter :: wireMeter where
  "zero_wireMeter = \<lparr>wm_ID = [], wm_Label = [], wm_MeterAPIName = [], wm_MeterType = [],
     wm_AggregationDimensions = [], wm_Unit = [], wm_Dimensions = [], wm_UseInBilling = False,
     wm_LockingStatus = []\<rparr>"

definition wireMeter_fields :: "wireMeter fields" where
  "wireMeter_fields =
    [(''id'', field wm_ID (\<lambda>x. wm_ID_update (\<lambda>_. x)) dec_string),
     (''label'', field wm_Label (\<lambda>x. wm_Label_update (\<lambda>_. x)) dec_string),
     (''meterApiName'', field wm_MeterAPIName (\<lambda>x. wm_MeterAPIName_update (\<lambda>_. x)) dec_string),
     (''meterType'', field wm_MeterType (\<lambda>x. wm_MeterType_update (\<lambda>_. x)) dec_string),
     (''aggregationDimensions'',
        field wm_AggregationDimensions (\<lambda>x. wm_AggregationDimensions_update (\<lambda>_. x)) (dec_list [] dec_string)),
     (''unit'', field wm_Unit (\<lambda>x. wm_Unit_update (\<lambda>_. x)) dec_string),
     (''dimensions'', field wm_Dimensions (\<lambda>x. wm_Dimensions_update (\<lambda>_. x)) (dec_list [] dec_string)),
     (''useInBilling'', field wm_UseInBilling (\<lambda>x. wm_UseInBilling_update (\<lambda>_. x)) dec_bool),
     (''lockingStatus'', field wm_LockingStatus (\<lambda>x. wm_LockingStatus_update (\<lambda>_. x)) dec_string)]"

definition dec_wireMeter :: "string \<Rightarrow> wireMeter option" where
  "dec_wireMeter = unmarshal (decode_struct wireMeter_fields) zero_wireMeter"

definition dec_wireMeters :: "string \<Rightarrow> wireMeter list option" where
  "dec_wireMeters = unmarshal (dec_list zero_wireMeter (decode_struct wireMeter_fields)) []"

definition enc_wireMeter :: "wireMeter \<Rightarrow> json" where
  "enc_wireMeter w = JObj
     (omit_str ''id'' (wm_ID w) @ omit_str ''label'' (wm_Label w)
      @ [(''meterApiName'', JStr (wm_MeterAPIName w))]
      @ omit_str ''meterType'' (wm_MeterType w)
      @ [(''aggregationDimensions'', json_strs (wm_AggregationDimensions w))]
      @ omit_str ''unit'' (wm_Unit w)
      @ [(''dimensions'', json_strs (wm_Dimensions w)), (''useInBilling'', JBool (wm_UseInBilling w)),
         (''lockingStatus'', JStr (wm_LockingStatus w))])"

definition buildWireMeter :: "DesiredMeter \<Rightarrow> wireMeter" where
  "buildWireMeter d =
     \<lparr>wm_ID = [], wm_Label = (if dm_Label d = [] then dm_APIName d else dm_Label d),
      wm_MeterAPIName = dm_APIName d, wm_MeterType = dm_MeterType d,
      wm_AggregationDimensions = dm_AggregationDimensions d, wm_Unit = dm_Unit d,
      wm_Dimensions = dm_Dimensions d, wm_UseInBilling = True, wm_LockingStatus = lockingStatusActive\<rparr>"

definition meterNeedsUpdate :: "Meter \<Rightarrow> wireMeter \<Rightarrow> bool" where
  "meterNeedsUpdate existing want \<longleftrightarrow>
     (if me_APIName existing \<noteq> wm_MeterAPIName want then True
      else if \<not> meterLabelAcceptable (me_Label existing) (wm_Label want) (wm_MeterAPIName want) then True
      else if me_MeterType existing \<noteq> wm_MeterType want then True
      else if me_Unit existing \<noteq> wm_Unit want then True
      else if me_LockingStatus existing \<noteq> wm_LockingStatus want then True
      else if me_AggregationDimensions existing \<noteq> wm_AggregationDimensions want then True
      else me_Dimensions existing \<noteq> wm_Dimensions want)"

definition meterFromWire :: "wireMeter \<Rightarrow> string \<Rightarrow> Meter" where
  "meterFromWire w raw =
     \<lparr>me_ID = wm_ID w, me_APIName = wm_MeterAPIName w, me_Label = wm_Label w, me_MeterType = wm_MeterType w,
      me_AggregationDimensions = wm_AggregationDimensions w, me_Unit = wm_Unit w,
      me_Dimensions = wm_Dimensions w, me_LockingStatus = wm_LockingStatus w, me_Raw = raw\<rparr>"

section \<open>Product items\<close>

record wireProductItem =
  pi_ID :: string
  pi_ProductItemName :: string
  pi_MeterAPIName :: string
  pi_ProductID :: string
  pi_LockingStatus :: string

definition zero_wireProductItem :: wireProductItem where
  "zero_wireProductItem = \<lparr>pi_ID = [], pi_ProductItemName = [], pi_MeterAPIName = [], pi_ProductID = [],
     pi_LockingStatus = []\<rparr>"

definition wireProductItem_fields :: "wireProductItem fields" where
  "wireProductItem_fields =
    [(''id'', field pi_ID (\<lambda>x. pi_ID_update (\<lambda>_. x)) dec_string),
     (''productItemName'', field pi_ProductItemName (\<lambda>x. pi_ProductItemName_update (\<lambda>_. x)) dec_string),
     (''meterApiName'', field pi_MeterAPIName (\<lambda>x. pi_MeterAPIName_update (\<lambda>_. x)) dec_string),
     (''productId'', field pi_ProductID (\<lambda>x. pi_ProductID_update (\<lambda>_. x)) dec_string),
     (''lockingStatus'', field pi_LockingStatus (\<lambda>x. pi_LockingStatus_update (\<lambda>_. x)) dec_string)]"

definition dec_wireProductItem :: "string \<Rightarrow> wireProductItem option" where
  "dec_wireProductItem = unmarshal (decode_struct wireProductItem_fields) zero_wireProductItem"

definition dec_wireProductItems :: "string \<Rightarrow> wireProductItem list option" where
  "dec_wireProductItems = unmarshal (dec_list zero_wireProductItem (decode_struct wireProductItem_fields)) []"

definition enc_wireProductItem :: "wireProductItem \<Rightarrow> json" where
  "enc_wireProductItem w = JObj
     ([(''id'', JStr (pi_ID w))] @ omit_str ''productItemName'' (pi_ProductItemName w)
      @ omit_str ''meterApiName'' (pi_MeterAPIName w) @ omit_str ''productId'' (pi_ProductID w)
      @ omit_str ''lockingStatus'' (pi_LockingStatus w))"

definition productItemsPath :: string where
  "productItemsPath = ''/payments/pricing/amberflo/account-pricing/product-items''"

definition productItemsListPath :: string where
  "productItemsListPath = productItemsPath @ ''/list''"

definition listProductItems :: "'w client \<Rightarrow> ('w net, goerr + wireProductItem list) io" where
  "listProductItems c = do {
     r \<leftarrow> doJSON c ''GET'' productItemsListPath NoBody dec_wireProductItems [];
     ret (case rp_err r of Some e \<Rightarrow> Inl e | None \<Rightarrow> Inr (rp_val r))
   }"

definition updateProductItem :: "'w client \<Rightarrow> wireProductItem \<Rightarrow> ('w net, goerr option) io" where
  "updateProductItem c item =
     (if pi_ID item = [] then ret (Some (permanent ''product item id is required''))
      else do {
        r \<leftarrow> doJSON c ''POST'' productItemsPath (Encoded (print (enc_wireProductItem item))) dec_none ();
        ret (rp_err r)
      })"

text \<open>The unique product item of a name, if there is one.\<close>

definition pick_named :: "string \<Rightarrow> wireProductItem list \<Rightarrow> goerr + wireProductItem option" where
  "pick_named label items =
     (case filter (\<lambda>i. pi_ProductItemName i = label) items of
        [] \<Rightarrow> Inr None
      | [i] \<Rightarrow> Inr (Some i)
      | _ \<Rightarrow> Inl (permanent (''multiple product items have name '' @ print_str label)))"

definition pick_for_meter :: "string \<Rightarrow> wireProductItem list \<Rightarrow> goerr + wireProductItem option" where
  "pick_for_meter meterAPIName items =
     (case filter (\<lambda>i. pi_MeterAPIName i = meterAPIName) items of
        [] \<Rightarrow> Inr None
      | [i] \<Rightarrow> Inr (Some i)
      | several \<Rightarrow>
          (case filter (\<lambda>i. pi_LockingStatus i \<noteq> lockingStatusDeprecated) several of
             [i] \<Rightarrow> Inr (Some i)
           | _ \<Rightarrow> Inl (permanent (''multiple product items have meter '' @ print_str meterAPIName))))"

definition productItemNamed :: "'w client \<Rightarrow> string \<Rightarrow> ('w net, goerr + wireProductItem option) io" where
  "productItemNamed c label = do {
     got \<leftarrow> listProductItems c;
     ret (case got of
       Inl e \<Rightarrow> Inl (Wrap ''listing product items: '' e [])
     | Inr items \<Rightarrow> pick_named label items)
   }"

definition productItemForMeter :: "'w client \<Rightarrow> string \<Rightarrow> ('w net, goerr + wireProductItem option) io" where
  "productItemForMeter c meterAPIName =
     (if meterAPIName = [] then ret (Inr None)
      else do {
        got \<leftarrow> listProductItems c;
        ret (case got of
          Inl e \<Rightarrow> Inl (Wrap ''listing product items: '' e [])
        | Inr items \<Rightarrow> pick_for_meter meterAPIName items)
      })"

definition pointProductItemAtMeter :: "'w client \<Rightarrow> wireProductItem \<Rightarrow> string \<Rightarrow> ('w net, goerr option) io" where
  "pointProductItemAtMeter c item meterAPIName =
     (if pi_MeterAPIName item = meterAPIName then ret None
      else do {
        unlock \<leftarrow> (if pi_LockingStatus item = lockingStatusDeprecated
                  then updateProductItem c (item\<lparr>pi_LockingStatus := lockingStatusActive\<rparr>)
                  else ret None);
        case unlock of
          Some e \<Rightarrow> ret (Some (Wrap (''unlocking leftover product item '' @ pi_ID item @ '': '') e []))
        | None \<Rightarrow> do {
            r \<leftarrow> updateProductItem c
              ((if pi_LockingStatus item = lockingStatusDeprecated
                then item\<lparr>pi_LockingStatus := lockingStatusActive\<rparr> else item)
               \<lparr>pi_MeterAPIName := meterAPIName\<rparr>);
            ret (case r of
              None \<Rightarrow> None
            | Some e \<Rightarrow> Some (Wrap (''retargeting leftover product item '' @ pi_ID item @ '': '') e []))
          }
      })"

section \<open>Looking meters up\<close>

definition GetMeter :: "'w client \<Rightarrow> string \<Rightarrow> ('w net, goerr + Meter) io" where
  "GetMeter c meterAPIName =
     (if meterAPIName = [] then ret (Inl (permanent ''meterAPIName is required''))
      else do {
        r \<leftarrow> doJSON c ''GET'' (''/meters?meterApiName='' @ QueryEscape meterAPIName) NoBody dec_wireMeters [];
        ret (case rp_err r of
          Some e \<Rightarrow>
            if is_404 e then Inl (Wrap [] (Sentinel ErrMeterNotFound) ('': '' @ meterAPIName)) else Inl e
        | None \<Rightarrow>
            (case rp_val r of
               [] \<Rightarrow> Inl (Wrap [] (Sentinel ErrMeterNotFound) ('': '' @ meterAPIName))
             | wm # _ \<Rightarrow> Inr (meterFromWire wm (rp_body r))))
      })"

definition GetMeterByLabel :: "'w client \<Rightarrow> string \<Rightarrow> ('w net, goerr + Meter) io" where
  "GetMeterByLabel c label =
     (if label = [] then ret (Inl (permanent ''label is required''))
      else do {
        r \<leftarrow> doJSON c ''GET'' (''/meters?label='' @ QueryEscape label) NoBody dec_wireMeters [];
        ret (case rp_err r of
          Some e \<Rightarrow>
            if is_404 e then Inl (Wrap [] (Sentinel ErrMeterNotFound) ('': label '' @ print_str label)) else Inl e
        | None \<Rightarrow>
            (case filter (\<lambda>w. wm_Label w = label) (rp_val r) of
               [] \<Rightarrow> Inl (Wrap [] (Sentinel ErrMeterNotFound) ('': label '' @ print_str label))
             | [wm] \<Rightarrow> Inr (meterFromWire wm (rp_body r))
             | _ \<Rightarrow> Inl (permanent (''multiple meters have label '' @ print_str label))))
      })"

definition rejectLiveForeignProductItem :: "'w client \<Rightarrow> wireProductItem \<Rightarrow> string \<Rightarrow> ('w net, goerr option) io" where
  "rejectLiveForeignProductItem c item wantAPIName =
     (if pi_MeterAPIName item = [] \<or> pi_MeterAPIName item = wantAPIName then ret None
      else if length (pi_MeterAPIName item) > maxMeterAPINameLen \<or> isLegacyUIDMeterAPIName (pi_MeterAPIName item)
      then ret None
      else do {
        got \<leftarrow> GetMeter c (pi_MeterAPIName item);
        ret (case got of
          Inl e \<Rightarrow> if errors_Is e ErrMeterNotFound \<or> IsPermanent e then None else Some e
        | Inr meter \<Rightarrow>
            if me_APIName meter = wantAPIName \<or> isLegacyUIDMeterAPIName (me_APIName meter) then None
            else Some (permanent (''product item '' @ print_str (pi_ProductItemName item)
                   @ '' still has meter '' @ print_str (me_APIName meter))))
      })"

definition adoptOrphanProductItem :: "'w client \<Rightarrow> string \<Rightarrow> string \<Rightarrow> ('w net, goerr option) io" where
  "adoptOrphanProductItem c label meterAPIName =
     (if label = [] then ret None
      else do {
        got \<leftarrow> productItemNamed c label;
        case got of
          Inl e \<Rightarrow> ret (Some e)
        | Inr found \<Rightarrow> (case found of
            None \<Rightarrow> ret None
          | Some item \<Rightarrow> do {
              live \<leftarrow> rejectLiveForeignProductItem c item meterAPIName;
              case live of
                Some e \<Rightarrow> ret None
              | None \<Rightarrow> do {
                  p \<leftarrow> pointProductItemAtMeter c item meterAPIName;
                  ret (case p of None \<Rightarrow> None | Some e \<Rightarrow> if IsTransient e then Some e else None)
                }
            })
      })"

section \<open>Writing meters\<close>

definition putMeter :: "'w client \<Rightarrow> string \<Rightarrow> wireMeter \<Rightarrow> ('w net, goerr + Meter) io" where
  "putMeter c meth wm =
     (if meth \<noteq> ''POST'' \<and> meth \<noteq> ''PUT'' then
        ret (Inl (permanent (''unsupported method '' @ print_str meth)))
      else do {
        r \<leftarrow> doJSON c meth ''/meters'' (Encoded (print (enc_wireMeter wm))) dec_wireMeter zero_wireMeter;
        ret (case rp_err r of
          Some e \<Rightarrow> Inl e
        | None \<Rightarrow>
            Inr (meterFromWire
              (if wm_MeterAPIName (rp_val r) = [] \<and> wm_ID (rp_val r) = [] then wm else rp_val r) (rp_body r)))
      })"

definition isMeterLabelExistsError :: "goerr \<Rightarrow> bool" where
  "isMeterLabelExistsError err = perm_contains err ''already exists with 'label':''"

definition deprecated_wire :: "Meter \<Rightarrow> wireMeter" where
  "deprecated_wire existing =
     \<lparr>wm_ID = me_ID existing, wm_Label = me_Label existing, wm_MeterAPIName = me_APIName existing,
      wm_MeterType = me_MeterType existing, wm_AggregationDimensions = me_AggregationDimensions existing,
      wm_Unit = me_Unit existing, wm_Dimensions = me_Dimensions existing, wm_UseInBilling = True,
      wm_LockingStatus = lockingStatusDeprecated\<rparr>"

definition deprecateMeter :: "'w client \<Rightarrow> Meter \<Rightarrow> ('w net, goerr option) io" where
  "deprecateMeter c existing = do {
     r \<leftarrow> doJSON c ''PUT'' ''/meters'' (Encoded (print (enc_wireMeter (deprecated_wire existing)))) dec_none ();
     ret (case rp_err r of
       None \<Rightarrow> None
     | Some e \<Rightarrow>
         if is_404 e then Some (Wrap [] (Sentinel ErrMeterNotFound) ('': '' @ me_APIName existing)) else Some e)
   }"

text \<open>\<open>url.PathEscape\<close> escapes what may not stand in a path segment.\<close>

definition path_segment_char :: "char \<Rightarrow> bool" where
  "path_segment_char c \<longleftrightarrow> unreserved c \<or> c \<in> {CHR ''$'', CHR ''&'', CHR ''+'', CHR ''='', CHR '':'', CHR ''@''}"

definition PathEscape :: "string \<Rightarrow> string" where
  "PathEscape s = concat (map (\<lambda>c. if path_segment_char c then [c]
     else [CHR ''%'', upper_hex (of_char c div 16), upper_hex (of_char c mod 16)]) s)"

definition deleteMeterRecord :: "'w client \<Rightarrow> Meter \<Rightarrow> ('w net, goerr option) io" where
  "deleteMeterRecord c existing =
     (if me_ID existing = [] then ret None
      else do {
        dep \<leftarrow> (if me_LockingStatus existing \<noteq> lockingStatusDeprecated then deprecateMeter c existing
               else ret None);
        case dep of
          Some e \<Rightarrow> ret (if errors_Is e ErrMeterNotFound then None else Some e)
        | None \<Rightarrow> do {
            r \<leftarrow> doJSON c ''DELETE'' (''/meters/'' @ PathEscape (me_ID existing)) NoBody dec_none ();
            ret (case rp_err r of
              None \<Rightarrow> None
            | Some e \<Rightarrow> if is_404 e then None else Some e)
          }
      })"

definition DeleteMeter :: "'w client \<Rightarrow> string \<Rightarrow> string \<Rightarrow> ('w net, goerr option) io" where
  "DeleteMeter c meterAPIName label =
     (if meterAPIName = [] then ret (Some (permanent ''meterAPIName is required''))
      else do {
        got \<leftarrow> GetMeter c meterAPIName;
        case got of
          Inr existing \<Rightarrow> deleteMeterRecord c existing
        | Inl e \<Rightarrow>
            if \<not> errors_Is e ErrMeterNotFound then ret (Some e)
            else if label = [] then ret None
            else do {
              byLabel \<leftarrow> GetMeterByLabel c label;
              case byLabel of
                Inl e' \<Rightarrow> ret (if errors_Is e' ErrMeterNotFound then None else Some e')
              | Inr existing \<Rightarrow>
                  if me_APIName existing \<noteq> meterAPIName \<and> \<not> isLegacyUIDMeterAPIName (me_APIName existing)
                  then ret None
                  else deleteMeterRecord c existing
            }
      })"

definition createMeterReusingProductItem :: "'w client \<Rightarrow> wireMeter \<Rightarrow> ('w net, goerr + Meter) io" where
  "createMeterReusingProductItem c want = do {
     got \<leftarrow> productItemNamed c (wm_Label want);
     case got of
       Inl e \<Rightarrow> ret (Inl (Wrap ''label collision: '' e []))
     | Inr found \<Rightarrow> do {
         live \<leftarrow> (case found of None \<Rightarrow> ret None
                 | Some item \<Rightarrow> rejectLiveForeignProductItem c item (wm_MeterAPIName want));
         case live of
           Some e \<Rightarrow> ret (Inl e)
         | None \<Rightarrow> do {
             put \<leftarrow> putMeter c ''POST''
               (want\<lparr>wm_Label := disambiguatedMeterLabel (wm_Label want) (wm_MeterAPIName want),
                     wm_UseInBilling := False\<rparr>);
             case put of
               Inl e \<Rightarrow> ret (Inl e)
             | Inr meter \<Rightarrow> do {
                 p \<leftarrow> (case found of None \<Rightarrow> ret None
                      | Some item \<Rightarrow> pointProductItemAtMeter c item (wm_MeterAPIName want));
                 ret (case p of
                   None \<Rightarrow> Inr meter
                 | Some e \<Rightarrow> if IsTransient e then Inl (Wrap ''label collision: '' e []) else Inr meter)
               }
           }
       }
   }"

text \<open>PUT the wanted meter over a stored one, then take over its leftover product item.\<close>

definition put_and_adopt :: "'w client \<Rightarrow> wireMeter \<Rightarrow> ('w net, goerr + Meter) io" where
  "put_and_adopt c want = do {
     put \<leftarrow> putMeter c ''PUT'' want;
     case put of
       Inl e \<Rightarrow> ret (Inl e)
     | Inr meter \<Rightarrow> do {
         a \<leftarrow> adoptOrphanProductItem c (wm_Label want) (wm_MeterAPIName want);
         ret (case a of Some e \<Rightarrow> Inl e | None \<Rightarrow> Inr meter)
       }
   }"

definition replaceLegacyMeter :: "'w client \<Rightarrow> wireMeter \<Rightarrow> ('w net, goerr + Meter) io" where
  "replaceLegacyMeter c want = do {
     got \<leftarrow> GetMeterByLabel c (wm_Label want);
     case got of
       Inl e \<Rightarrow>
         if errors_Is e ErrMeterNotFound then createMeterReusingProductItem c want
         else ret (Inl (Wrap ''label collision but meter lookup failed: '' e []))
     | Inr existing \<Rightarrow>
         if me_APIName existing = wm_MeterAPIName want then
           (if me_ID existing = [] then
              ret (Inl (permanent (''existing meter '' @ wm_MeterAPIName want @ '' has no server id; cannot PUT'')))
            else put_and_adopt c (want\<lparr>wm_ID := me_ID existing\<rparr>))
         else if \<not> isLegacyUIDMeterAPIName (me_APIName existing) then
           ret (Inl (permanent (''meter with label '' @ print_str (wm_Label want)
             @ '' already exists as meterApiName '' @ print_str (me_APIName existing))))
         else do {
           d \<leftarrow> deleteMeterRecord c existing;
           case d of
             Some e \<Rightarrow> ret (Inl (Wrap (''deleting leftover meter '' @ me_APIName existing @ '': '') e []))
           | None \<Rightarrow> createMeterReusingProductItem c want
         }
   }"

definition EnsureMeter :: "'w client \<Rightarrow> DesiredMeter \<Rightarrow> ('w net, goerr + Meter) io" where
  "EnsureMeter c desired =
     (if dm_APIName desired = [] then ret (Inl (permanent ''DesiredMeter.APIName is required''))
      else if dm_MeterType desired = [] then ret (Inl (permanent ''DesiredMeter.MeterType is required''))
      else (let want = buildWireMeter (desired\<lparr>dm_APIName := MeterAPIName (dm_APIName desired)\<rparr>) in do {
        got \<leftarrow> GetMeter c (wm_MeterAPIName want);
        case got of
          Inl e \<Rightarrow>
            if \<not> errors_Is e ErrMeterNotFound then ret (Inl e)
            else do {
              put \<leftarrow> putMeter c ''POST'' want;
              case put of
                Inr meter \<Rightarrow> ret (Inr meter)
              | Inl e' \<Rightarrow> if isMeterLabelExistsError e' then replaceLegacyMeter c want else ret (Inl e')
            }
        | Inr existing \<Rightarrow>
            if \<not> meterNeedsUpdate existing want then do {
              a \<leftarrow> adoptOrphanProductItem c (wm_Label want) (wm_MeterAPIName want);
              ret (case a of Some e \<Rightarrow> Inl e | None \<Rightarrow> Inr existing)
            }
            else if me_ID existing = [] then
              ret (Inl (permanent (''existing meter '' @ wm_MeterAPIName want @ '' has no server id; cannot PUT'')))
            else put_and_adopt c (want\<lparr>wm_ID := me_ID existing,
              wm_Label := (if meterLabelAcceptable (me_Label existing) (wm_Label want) (wm_MeterAPIName want)
                           then me_Label existing else wm_Label want)\<rparr>)
      }))"

section \<open>What the meter operations send\<close>

text \<open>A write to /meters keeps the meter \<open>name\<close> active, or deprecates a leftover meter that is named
  by a UID; a DELETE goes to a meter's own path.\<close>

definition meter_write_ok :: "string \<Rightarrow> http_req \<Rightarrow> bool" where
  "meter_write_ok name req \<longleftrightarrow>
     (rq_Method req = ''DELETE'' \<longrightarrow> prefix ''/meters/'' (rq_Path req))
     \<and> (rq_Path req = ''/meters'' \<longrightarrow> rq_Method req \<noteq> ''GET'' \<longrightarrow>
         (\<exists>wm. rq_Body req = Some (print (enc_wireMeter wm))
            \<and> (wm_MeterAPIName wm = name \<and> wm_LockingStatus wm = lockingStatusActive
               \<or> isLegacyUIDMeterAPIName (wm_MeterAPIName wm) \<and> wm_LockingStatus wm = lockingStatusDeprecated)))"

lemma resolve_items: "resolve productItemsPath = (productItemsPath, [])"
    "resolve productItemsListPath = (productItemsListPath, [])"
  by (simp_all add: resolve_def productItemsPath_def productItemsListPath_def)

lemma items_path: "productItemsPath \<noteq> ''/meters''" "productItemsListPath \<noteq> ''/meters''"
  by (simp_all add: productItemsPath_def productItemsListPath_def)

lemma sends_list [traces]: "sends_only (meter_write_ok n) (listProductItems c)"
  unfolding listProductItems_def
  by (intro sends_intros sends_only_doJSON) (simp_all add: meter_write_ok_def resolve_items items_path)

lemma sends_update [traces]: "sends_only (meter_write_ok n) (updateProductItem c item)"
  unfolding updateProductItem_def
  by (intro sends_intros sends_only_doJSON) (simp_all add: meter_write_ok_def resolve_items items_path)

lemma sends_named [traces]: "sends_only (meter_write_ok n) (productItemNamed c label)"
  unfolding productItemNamed_def by (intro sends_intros traces)

lemma sends_for_meter [traces]: "sends_only (meter_write_ok n) (productItemForMeter c m)"
  unfolding productItemForMeter_def by (intro sends_intros traces)

lemma sends_point [traces]: "sends_only (meter_write_ok n) (pointProductItemAtMeter c item m)"
  unfolding pointProductItemAtMeter_def by (intro sends_intros traces)

lemma sends_GetMeter [traces]: "sends_only (meter_write_ok n) (GetMeter c m)"
  unfolding GetMeter_def by (intro sends_intros sends_only_doJSON) (simp_all add: meter_write_ok_def)

lemma sends_GetMeterByLabel [traces]: "sends_only (meter_write_ok n) (GetMeterByLabel c l)"
  unfolding GetMeterByLabel_def by (intro sends_intros sends_only_doJSON) (simp_all add: meter_write_ok_def)

lemma sends_reject [traces]: "sends_only (meter_write_ok n) (rejectLiveForeignProductItem c item m)"
  unfolding rejectLiveForeignProductItem_def by (intro sends_intros traces)

lemma sends_adopt [traces]: "sends_only (meter_write_ok n) (adoptOrphanProductItem c l m)"
  unfolding adoptOrphanProductItem_def by (intro sends_intros traces)

lemma resolve_meters: "resolve ''/meters'' = (''/meters'', [])"
  by (simp add: resolve_def)

lemma sends_putMeter:
  "wm_MeterAPIName wm = n \<Longrightarrow> wm_LockingStatus wm = lockingStatusActive
     \<Longrightarrow> sends_only (meter_write_ok n) (putMeter c meth wm)"
  unfolding putMeter_def
  by (intro sends_intros sends_only_doJSON) (auto simp: meter_write_ok_def body_bytes_def resolve_meters)

lemma deprecated_wire_simps [simp]:
  "wm_MeterAPIName (deprecated_wire m) = me_APIName m"
  "wm_LockingStatus (deprecated_wire m) = lockingStatusDeprecated"
  by (simp_all add: deprecated_wire_def)

lemma sends_deprecate:
  "isLegacyUIDMeterAPIName (me_APIName m) \<Longrightarrow> sends_only (meter_write_ok n) (deprecateMeter c m)"
  unfolding deprecateMeter_def
  by (intro sends_intros sends_only_doJSON) (auto simp: meter_write_ok_def body_bytes_def resolve_meters)

lemma resolve_meter_prefix: "prefix ''/meters/'' (fst (resolve (''/meters/'' @ x)))"
  by (simp add: resolve_def split: prod.split)

lemma sends_delete_call: "sends_only (meter_write_ok n) (doJSON c ''DELETE'' (''/meters/'' @ x) NoBody dec z)"
proof (rule sends_only_doJSON)
  fix req :: http_req assume "rq_Path req = fst (resolve (''/meters/'' @ x))"
  with resolve_meter_prefix [of x] have "prefix ''/meters/'' (rq_Path req)" by (simp only:)
  then show "meter_write_ok n req" by (auto simp: meter_write_ok_def)
qed

lemma sends_deleteRecord:
  "isLegacyUIDMeterAPIName (me_APIName m) \<Longrightarrow> sends_only (meter_write_ok n) (deleteMeterRecord c m)"
  unfolding deleteMeterRecord_def by (intro sends_intros sends_deprecate sends_delete_call)

lemma sends_create:
  "wm_MeterAPIName want = n \<Longrightarrow> wm_LockingStatus want = lockingStatusActive
     \<Longrightarrow> sends_only (meter_write_ok n) (createMeterReusingProductItem c want)"
  unfolding createMeterReusingProductItem_def by (intro sends_intros traces sends_putMeter) simp_all

lemma sends_put_and_adopt:
  "wm_MeterAPIName want = n \<Longrightarrow> wm_LockingStatus want = lockingStatusActive
     \<Longrightarrow> sends_only (meter_write_ok n) (put_and_adopt c want)"
  unfolding put_and_adopt_def by (intro sends_intros traces sends_putMeter) simp_all

lemma sends_replace:
  "wm_MeterAPIName want = n \<Longrightarrow> wm_LockingStatus want = lockingStatusActive
     \<Longrightarrow> sends_only (meter_write_ok n) (replaceLegacyMeter c want)"
  unfolding replaceLegacyMeter_def
  by (intro sends_intros traces sends_put_and_adopt sends_create sends_deleteRecord) simp_all

lemma deprecate_log:
  assumes "cl_retries c \<ge> 1" "run_state (deprecateMeter c m) s = (r, s')"
  shows "\<exists>D. net_log s' = net_log s @ D \<and> (r = None \<longrightarrow> ends_well D)
    \<and> (\<forall>q\<in>set (sends D). rq_Method q = ''PUT'' \<and> rq_Body q = Some (print (enc_wireMeter (deprecated_wire m))))"
proof -
  let ?b = "Encoded (print (enc_wireMeter (deprecated_wire m)))"
  obtain rp where rp: "run_state (doJSON c ''PUT'' ''/meters'' ?b dec_none ()) s = (rp, s')" "r = None \<longrightarrow> rp_err rp = None"
    using assms(2) by (cases "run_state (doJSON c ''PUT'' ''/meters'' ?b dec_none ()) s")
      (auto simp: deprecateMeter_def run_simps split: option.splits if_splits, metis)
  have t: "sends_only (\<lambda>q. rq_Method q = ''PUT'' \<and> rq_Body q = Some (print (enc_wireMeter (deprecated_wire m))))
      (doJSON c ''PUT'' ''/meters'' ?b dec_none ())"
    by (rule sends_only_doJSON) (simp add: body_bytes_def)
  from tracedD [OF t rp(1)] obtain D where D: "net_log s' = net_log s @ D"
    "\<forall>q\<in>set (sends D). rq_Method q = ''PUT'' \<and> rq_Body q = Some (print (enc_wireMeter (deprecated_wire m)))" by blast
  moreover have "r = None \<longrightarrow> ends_well D"
    using doJSON_ok_log [OF rp(1) _ assms(1)] rp(2) D(1) by auto
  ultimately show ?thesis by blast
qed

lemma delete_log:
  assumes "run_state (doJSON c ''DELETE'' path NoBody dec z) s = (r, s')"
  shows "\<exists>X. net_log s' = net_log s @ X \<and> (\<forall>q\<in>set (sends X). rq_Method q = ''DELETE'')"
proof -
  have "sends_only (\<lambda>q. rq_Method q = ''DELETE'') (doJSON c ''DELETE'' path NoBody dec z)"
    by (rule sends_only_doJSON) simp
  from tracedD [OF this assms] show ?thesis by blast
qed

section \<open>Properties\<close>


text \<open>
  Meter names fit Amberflo's limit of 50 characters: a short name stays as it is, a longer
  one becomes 40 characters that depend on the name only, and naming twice changes nothing.
\<close>

theorem MeterAPIName_fits:
  "length (MeterAPIName n) \<le> maxMeterAPINameLen
   \<and> (length n \<le> maxMeterAPINameLen \<longrightarrow> MeterAPIName n = n)
   \<and> (length n > maxMeterAPINameLen \<longrightarrow> length (MeterAPIName n) = 40)
   \<and> MeterAPIName (MeterAPIName n) = MeterAPIName n"
  by (simp add: MeterAPIName_def maxMeterAPINameLen_def length_hex_bytes sha1_length)

theorem MeterAPIName_fits_witness:
  "length (MeterAPIName (replicate 60 (CHR ''a''))) = 40"
  using MeterAPIName_fits [of "replicate 60 (CHR ''a'')"] by (simp add: maxMeterAPINameLen_def)

text \<open>
  A disambiguated label never exceeds 100 characters, and for an API name within the limit
  it always ends with the name in parentheses, after a non-empty beginning of the wanted label.
\<close>

theorem disambiguatedMeterLabel_fits:
  assumes "apiName \<noteq> []" "length apiName \<le> maxMeterAPINameLen"
  shows "length (disambiguatedMeterLabel label apiName) \<le> maxMeterLabelLen
    \<and> (\<exists>p. p \<noteq> [] \<and> prefix p (if label = [] then apiName else label)
         \<and> disambiguatedMeterLabel label apiName = p @ '' ('' @ apiName @ '')'')"
proof -
  let ?l = "if label = [] then apiName else label" and ?s = "'' ('' @ apiName @ '')''"
  have l: "?l \<noteq> []" using assms(1) by simp
  have s: "length ?s \<le> 53" "\<not> int maxMeterLabelLen - int (length ?s) < 1"
    using assms(2) by (simp_all add: maxMeterLabelLen_def maxMeterAPINameLen_def)
  show ?thesis
  proof (cases "length ?l + length ?s \<le> maxMeterLabelLen")
    case True
    then have "disambiguatedMeterLabel label apiName = ?l @ ?s"
      by (simp add: disambiguatedMeterLabel_def Let_def)
    with True l show ?thesis by auto
  next
    case False
    with s(2) have d: "disambiguatedMeterLabel label apiName = take (maxMeterLabelLen - length ?s) ?l @ ?s"
      unfolding disambiguatedMeterLabel_def Let_def by (simp only: if_False)
    have "take (maxMeterLabelLen - length ?s) ?l \<noteq> []" "prefix (take (maxMeterLabelLen - length ?s) ?l) ?l"
      using l s(1) by (simp_all add: maxMeterLabelLen_def take_is_prefix)
    moreover have "length (disambiguatedMeterLabel label apiName) \<le> maxMeterLabelLen"
      unfolding d using s(1) by (simp add: maxMeterLabelLen_def)
    ultimately show ?thesis using d by blast
  qed
qed

theorem disambiguatedMeterLabel_fits_witness:
  "length (disambiguatedMeterLabel (replicate 120 (CHR ''x'')) ''m'') \<le> 100"
  using disambiguatedMeterLabel_fits [of "''m''" "replicate 120 (CHR ''x'')"]
  by (simp add: maxMeterAPINameLen_def maxMeterLabelLen_def)

text \<open>
  C23.  A meter is deleted in order: the only requests are PUTs of the meter as it was with its
  locking status set to deprecated, followed by DELETEs, and a DELETE is sent only if the meter
  was deprecated already or the deprecating PUT has succeeded.
\<close>

theorem deleteMeterRecord_order:
  assumes "cl_retries c \<ge> 1" "run_state (deleteMeterRecord c m) s = (r, s')"
  shows "\<exists>D X. net_log s' = net_log s @ D @ X
    \<and> (\<forall>q\<in>set (sends D). rq_Method q = ''PUT'' \<and> rq_Body q = Some (print (enc_wireMeter (deprecated_wire m))))
    \<and> (\<forall>q\<in>set (sends X). rq_Method q = ''DELETE'')
    \<and> (X \<noteq> [] \<longrightarrow> me_LockingStatus m = lockingStatusDeprecated \<and> D = [] \<or> ends_well D)"
proof -
  let ?del = "doJSON c ''DELETE'' (''/meters/'' @ PathEscape (me_ID m)) NoBody dec_none ()"
  consider "me_ID m = []" "s' = s"
    | "me_LockingStatus m = lockingStatusDeprecated" "\<exists>rp. run_state ?del s = (rp, s')"
    | dep s1 where "run_state (deprecateMeter c m) s = (dep, s1)"
        "if dep = None then (\<exists>rp. run_state ?del s1 = (rp, s')) else s' = s1"
    using assms(2)
    by (auto simp: deleteMeterRecord_def run_simps split: if_splits prod.splits option.splits)
  then show ?thesis
  proof cases
    case 1
    then show ?thesis by (intro exI [of _ "[]"]) simp
  next
    case 2
    from 2(2) obtain rp where "run_state ?del s = (rp, s')" ..
    from delete_log [OF this] obtain X where "net_log s' = net_log s @ [] @ X" "\<forall>q\<in>set (sends X). rq_Method q = ''DELETE''"
      by auto
    with 2(1) show ?thesis by (intro exI [of _ "[]"] exI [of _ X]) simp
  next
    case 3
    from deprecate_log [OF assms(1) 3(1)] obtain D where D: "net_log s1 = net_log s @ D" "dep = None \<longrightarrow> ends_well D"
      "\<forall>q\<in>set (sends D). rq_Method q = ''PUT'' \<and> rq_Body q = Some (print (enc_wireMeter (deprecated_wire m)))" by blast
    show ?thesis
    proof (cases "dep = None")
      case True
      with 3(2) obtain rp where "run_state ?del s1 = (rp, s')" by auto
      from delete_log [OF this] obtain X where "net_log s' = net_log s1 @ X" "\<forall>q\<in>set (sends X). rq_Method q = ''DELETE''"
        by blast
      with D True show ?thesis by (intro exI [of _ D] exI [of _ X]) simp
    next
      case False
      with 3(2) D show ?thesis by (intro exI [of _ D] exI [of _ "[]"]) simp
    qed
  qed
qed

definition sample_meter :: Meter where
  "sample_meter = \<lparr>me_ID = ''id-1'', me_APIName = ''m'', me_Label = ''M'', me_MeterType = ''sum_of_all_usage'',
     me_AggregationDimensions = [], me_Unit = [], me_Dimensions = [], me_LockingStatus = lockingStatusActive, me_Raw = []\<rparr>"

theorem deleteMeterRecord_order_witness:
  "\<exists>D X. net_log (snd (run_state (deleteMeterRecord (scripted 1) sample_meter)
       (fresh [Response 200 [] ''{}'', Response 200 [] []]))) = D @ X
     \<and> (X \<noteq> [] \<longrightarrow> ends_well D)"
proof -
  have "me_LockingStatus sample_meter \<noteq> lockingStatusDeprecated"
    by (simp add: sample_meter_def lockingStatusActive_def lockingStatusDeprecated_def)
  with deleteMeterRecord_order [of "scripted 1" sample_meter "fresh [Response 200 [] ''{}'', Response 200 [] []]",
      OF _ prod.collapse [symmetric]]
  show ?thesis by (auto simp: fresh_def)
qed

end
