(* ===== verification/Float64.thy ===== *)
theory Float64
  imports Json
begin

text \<open>
  The IEEE 754 double-precision numbers as the sources use them: reading a decimal numeral with
  correct rounding, the two-digit format \<open>%.2f\<close>, the shortest text that \<open>json.Marshal\<close> writes, and
  truncation to an integer.  A finite number is (-1)^neg * m * 2^e with m < 2^53 and e >= -1074,
  and m >= 2^52 unless e = -1074, so equal numbers other than the zeros have equal fields.
\<close>

section \<open>Numbers and rounding\<close>

datatype float64 = F64 (f_neg: bool) (f_man: nat) (f_exp: int) | FInf bool | FNaN

abbreviation fzero :: float64 where
  "fzero \<equiv> F64 False 0 (-1074)"

fun bitlen :: "nat \<Rightarrow> nat" where
  "bitlen n = (if n = 0 then 0 else Suc (bitlen (n div 2)))"

declare bitlen.simps [simp del]

text \<open>The integer nearest to n/d, ties to even.\<close>

definition round_half_even :: "nat \<Rightarrow> nat \<Rightarrow> nat" where
  "round_half_even n d =
     (let q = n div d; r = n mod d
      in if 2 * r < d \<or> 2 * r = d \<and> even q then q else q + 1)"

definition pow2_ratio :: "int \<Rightarrow> nat \<Rightarrow> nat \<Rightarrow> nat \<times> nat" where
  "pow2_ratio e n d = (if e \<ge> 0 then (n, d * 2 ^ nat e) else (n * 2 ^ nat (- e), d))"

text \<open>The double nearest to n/d.\<close>

definition f64_of_ratio :: "bool \<Rightarrow> nat \<Rightarrow> nat \<Rightarrow> float64" where
  "f64_of_ratio neg n d =
     (if n = 0 then F64 neg 0 (-1074)
      else let k = int (bitlen n) - int (bitlen d);
               e0 = max (-1074) (k - 53);
               (a0, b0) = pow2_ratio e0 n d;
               e = (if a0 div b0 \<ge> 2 ^ 53 then e0 + 1 else e0);
               (a, b) = pow2_ratio e n d;
               q = round_half_even a b;
               (m, x) = (if q = 2 ^ 53 then (2 ^ 52, e + 1) else (q, e))
           in if x > 971 then FInf neg else F64 neg m x)"

text \<open>A decimal numeral: sign, digits with at most one point, optional exponent; its value is
  digits * 10^exponent.\<close>

definition parse_exponent :: "string \<Rightarrow> int option" where
  "parse_exponent s = (case s of
      [] \<Rightarrow> Some 0
    | c # cs \<Rightarrow>
        if c = CHR ''e'' \<or> c = CHR ''E'' then
          (case split_sign cs of (neg, ds) \<Rightarrow>
             if ds = [] \<or> \<not> list_all is_digit ds then None
             else Some (if neg then - int (digits_value 0 ds) else int (digits_value 0 ds)))
        else None)"

definition parse_decimal :: "string \<Rightarrow> (bool \<times> nat \<times> int) option" where
  "parse_decimal s = (case split_sign s of (neg, r) \<Rightarrow>
     let ip = takeWhile is_digit r; r1 = dropWhile is_digit r;
         (fp, r2) = (case r1 of [] \<Rightarrow> ([], [])
           | c # cs \<Rightarrow> if c = CHR ''.'' then (takeWhile is_digit cs, dropWhile is_digit cs) else ([], r1))
     in if ip @ fp = [] then None
        else map_option (\<lambda>e. (neg, digits_value 0 (ip @ fp), e - int (length fp))) (parse_exponent r2))"

text \<open>\<open>strconv.ParseFloat(_, 64)\<close> on decimal numerals; a value out of range is an error.\<close>

definition ParseFloat :: "string \<Rightarrow> float64 option" where
  "ParseFloat s = (case parse_decimal s of
      None \<Rightarrow> None
    | Some (neg, n, e) \<Rightarrow>
       (case (if e \<ge> 0 then f64_of_ratio neg (n * 10 ^ nat e) 1 else f64_of_ratio neg n (10 ^ nat (- e))) of
          F64 g m x \<Rightarrow> Some (F64 g m x) | _ \<Rightarrow> None))"

definition dec_float :: "float64 setter" where
  "dec_float old j = (case j of JNull \<Rightarrow> Some old | JNum n \<Rightarrow> ParseFloat n | _ \<Rightarrow> None)"

text \<open>\<open>a > 0\<close> and \<open>a >= b\<close> where the sources compare with zero, and conversion to int64 by
  truncation.\<close>

definition f64_pos :: "float64 \<Rightarrow> bool" where
  "f64_pos f = (case f of F64 neg m e \<Rightarrow> \<not> neg \<and> m > 0 | FInf neg \<Rightarrow> \<not> neg | FNaN \<Rightarrow> False)"

definition f64_trunc :: "float64 \<Rightarrow> int" where
  "f64_trunc f = (case f of
      F64 neg m e \<Rightarrow> (case pow2_ratio (- e) m 1 of (a, b) \<Rightarrow>
        (if neg then - int (a div b) else int (a div b)))
    | _ \<Rightarrow> 0)"

section \<open>Formatting\<close>

text \<open>The value m * 2^e as a ratio.\<close>

definition f64_ratio :: "nat \<Rightarrow> int \<Rightarrow> nat \<times> nat" where
  "f64_ratio m e = pow2_ratio (- e) m 1"

definition pad2 :: "nat \<Rightarrow> string" where
  "pad2 n = (if n < 10 then CHR ''0'' # nat_digits n else nat_digits n)"

text \<open>\<open>strconv.FormatFloat(v, 'f', 2, 64)\<close>.\<close>

definition cents_of :: "nat \<Rightarrow> int \<Rightarrow> nat" where
  "cents_of m e = (case f64_ratio m e of (a, b) \<Rightarrow> round_half_even (a * 100) b)"

definition format_fixed2 :: "float64 \<Rightarrow> string" where
  "format_fixed2 f = (case f of
      F64 neg m e \<Rightarrow> (if neg then ''-'' else []) @ nat_digits (cents_of m e div 100) @ ''.''
                        @ pad2 (cents_of m e mod 100)
    | FInf neg \<Rightarrow> (if neg then ''-Inf'' else ''+Inf'')
    | FNaN \<Rightarrow> ''NaN'')"

text \<open>The shortest decimal: with as few digits as possible, the one that reads back as the same
  double and is closest to it.\<close>

definition ten_scaled :: "nat \<Rightarrow> int \<Rightarrow> nat \<times> nat" where
  "ten_scaled c s = (if s \<ge> 0 then (c * 10 ^ nat s, 1) else (c, 10 ^ nat (- s)))"

definition reads_back :: "float64 \<Rightarrow> nat \<Rightarrow> int \<Rightarrow> bool" where
  "reads_back f c s = (case ten_scaled c s of (n, d) \<Rightarrow> f64_of_ratio (f_neg f) n d = f)"

definition shortest_at :: "float64 \<Rightarrow> nat \<Rightarrow> nat \<Rightarrow> int \<Rightarrow> nat option" where
  "shortest_at f a b s =
     (let (x, y) = (if s \<ge> 0 then (a, b * 10 ^ nat s) else (a * 10 ^ nat (- s), b));
          lo = x div y; hi = lo + 1
      in if reads_back f lo s \<and> reads_back f hi s then
           Some (if 2 * (x mod y) < y \<or> 2 * (x mod y) = y \<and> even lo then lo else hi)
         else if reads_back f lo s then Some lo else if reads_back f hi s then Some hi else None)"

fun shortest_from :: "nat \<Rightarrow> float64 \<Rightarrow> nat \<Rightarrow> nat \<Rightarrow> int \<Rightarrow> nat \<times> int" where
  "shortest_from 0 f a b s = (0, 0)"
| "shortest_from (Suc k) f a b s =
     (case shortest_at f a b s of Some c \<Rightarrow> (c, s) | None \<Rightarrow> shortest_from k f a b (s - 1))"

fun strip_zeros :: "nat \<Rightarrow> nat \<Rightarrow> int \<Rightarrow> nat \<times> int" where
  "strip_zeros 0 c s = (c, s)"
| "strip_zeros (Suc k) c s = (if c \<noteq> 0 \<and> c mod 10 = 0 then strip_zeros k (c div 10) (s + 1) else (c, s))"

text \<open>The decimal point position p with 10^(p-1) <= a/b < 10^p.\<close>

definition point_of :: "nat \<Rightarrow> nat \<Rightarrow> int" where
  "point_of a b = (if a \<ge> b then int (length (nat_digits (a div b)))
     else (let k = length (nat_digits (b div a))
           in if b \<le> a * 10 ^ (k - 1) then 2 - int k else 1 - int k))"

definition shortest :: "float64 \<Rightarrow> nat \<times> int" where
  "shortest f = (case f64_ratio (f_man f) (f_exp f) of (a, b) \<Rightarrow>
     case shortest_from 17 f a b (point_of a b - 1) of (c, s) \<Rightarrow> strip_zeros 20 c s)"

text \<open>The number in a JSON text: plain decimals, exponents below 1e-6 and from 1e21 on.\<close>

definition plain_decimal :: "nat \<Rightarrow> int \<Rightarrow> string" where
  "plain_decimal c s = (let ds = nat_digits c; n = int (length ds) in
     if s \<ge> 0 then ds @ replicate (nat s) (CHR ''0'')
     else if n + s > 0 then take (nat (n + s)) ds @ ''.'' @ drop (nat (n + s)) ds
     else ''0.'' @ replicate (nat (- (n + s))) (CHR ''0'') @ ds)"

definition exp_decimal :: "nat \<Rightarrow> int \<Rightarrow> string" where
  "exp_decimal c s = (let ds = nat_digits c; x = s + int (length ds) - 1 in
     take 1 ds @ (if length ds > 1 then ''.'' @ drop 1 ds else []) @ ''e''
       @ (if x < 0 then ''-'' else ''+'')
       @ (if x \<ge> 0 \<and> x < 10 then ''0'' else []) @ nat_digits (nat \<bar>x\<bar>))"

definition json_float :: "float64 \<Rightarrow> string" where
  "json_float f = (case f of
      F64 neg m e \<Rightarrow> (if neg then ''-'' else []) @
        (if m = 0 then ''0''
         else case shortest f of (c, s) \<Rightarrow>
           (let p = s + int (length (nat_digits c))
            in if p < -5 \<or> p > 21 then exp_decimal c s else plain_decimal c s))
    | _ \<Rightarrow> [])"

section \<open>Facts about rounding\<close>

text \<open>Rounding is off by at most a half.\<close>

lemma round_half_even_error:
  assumes "d > 0"
  shows "2 * n \<le> 2 * (d * round_half_even n d) + d" "2 * (d * round_half_even n d) \<le> 2 * n + d"
proof -
  define q r where "q = n div d" and "r = n mod d"
  have n: "n = d * q + r" and r: "r < d" using assms by (simp_all add: q_def r_def)
  have "round_half_even n d = (if 2 * r < d \<or> 2 * r = d \<and> even q then q else q + 1)"
    by (simp add: round_half_even_def Let_def q_def r_def)
  then show "2 * n \<le> 2 * (d * round_half_even n d) + d" "2 * (d * round_half_even n d) \<le> 2 * n + d"
    using r by (auto simp: n algebra_simps)
qed

end
