(* ===== verification/ProductPlan.thy ===== *)
theory ProductPlan
  imports Meter CustomerPlan Float64
begin

text \<open>
  internal/amberflo/product_plan.go: the wire format of product plans, prices and plan generators,
  the translation of rates into a price machine, and the operations on product items, item prices
  and plans.  A \<open>json.RawMessage\<close> is the JSON value it holds (none when it is empty).
\<close>

section \<open>Desired plans\<close>

definition productItemPricePath :: string where
  "productItemPricePath = ''/payments/pricing/amberflo/account-pricing/product-item-price''"

definition productPlansPath :: string where
  "productPlansPath = ''/payments/pricing/amberflo/account-pricing/product-plans''"

definition lockingStatusClose :: string where
  "lockingStatusClose = ''close_to_changes''"

definition productPlanTypeCustom :: string where
  "productPlanTypeCustom = ''custom_pricing_plan''"

datatype PlanChargeType = Usage | OneTime | Recurring | OtherCharge string

record DimensionFilter =
  df_Dimension :: string
  df_Value :: string

record DesiredPriceTier =
  dt_StartAfterUnit :: int
  dt_BatchSize :: int
  dt_PricePerBatch :: float64
  dt_AllowPartialBatch :: bool

record DesiredPlanRate =
  rt_Match :: "DimensionFilter option"
  rt_Flat :: "float64 option"
  rt_Tiers :: "DesiredPriceTier list"

record DesiredPlanItem =
  it_ID :: string
  it_Label :: string
  it_ChargeType :: PlanChargeType
  it_MeterAPIName :: string
  it_Rates :: "DesiredPlanRate list"
  it_Amount :: float64

record DesiredProductPlan =
  pp_ID :: string
  pp_Name :: string
  pp_Description :: string
  pp_ProductID :: string
  pp_Currency :: string
  pp_Items :: "DesiredPlanItem list"

record ProductPlan =
  pl_ID :: string
  pl_Name :: string
  pl_ProductID :: string
  pl_Currency :: string
  pl_Description :: string
  pl_Raw :: string

section \<open>Price machines\<close>

record wirePriceTier =
  wt_StartAfterUnit :: int
  wt_BatchSize :: int
  wt_PricePerBatch :: float64

record wireLeafNode =
  ln_Type :: string
  ln_AllowPartialBatch :: bool
  ln_Tiers :: "wirePriceTier list"

record wireDimensionPrice =
  wd_DimensionValues :: "string list"
  wd_LeafNode :: wireLeafNode

record wireDimensionMatrixNode =
  mx_Type :: string
  mx_DimensionKeys :: "string list"
  mx_DimensionsPrices :: "wireDimensionPrice list"

datatype price_machine = LeafMachine wireLeafNode | MatrixMachine wireDimensionMatrixNode

definition leafFromRate :: "DesiredPlanRate \<Rightarrow> goerr + wireLeafNode" where
  "leafFromRate r =
     (let hasFlat = (rt_Flat r \<noteq> None); hasTiers = (rt_Tiers r \<noteq> []) in
      if hasFlat = hasTiers then Inl (Plain ''exactly one of Flat or Tiers must be set'')
      else case rt_Flat r of
        Some price \<Rightarrow>
          Inr \<lparr>ln_Type = ''LeafNode'', ln_AllowPartialBatch = True,
               ln_Tiers = [\<lparr>wt_StartAfterUnit = 0, wt_BatchSize = 1, wt_PricePerBatch = price\<rparr>]\<rparr>
      | None \<Rightarrow>
          Inr \<lparr>ln_Type = ''LeafNode'',
               ln_AllowPartialBatch = fold (\<lambda>t b. if dt_AllowPartialBatch t then True else b) (rt_Tiers r) True,
               ln_Tiers = map (\<lambda>t. \<lparr>wt_StartAfterUnit = dt_StartAfterUnit t,
                   wt_BatchSize = (if dt_BatchSize t \<le> 0 then 1 else dt_BatchSize t),
                   wt_PricePerBatch = dt_PricePerBatch t\<rparr>) (rt_Tiers r)\<rparr>)"

text \<open>The loop over matched rates: the dimension key so far and the entries so far.\<close>

fun matched_rates :: "DesiredPlanRate list \<Rightarrow> string \<Rightarrow> wireDimensionPrice list
    \<Rightarrow> goerr + string \<times> wireDimensionPrice list" where
  "matched_rates [] dimKey dims = Inr (dimKey, dims)"
| "matched_rates (r # rs) dimKey dims =
     (case rt_Match r of
        None \<Rightarrow> Inl (Plain ''amberflo cannot sync an unmatched catch-all beside matched rates'')
      | Some m \<Rightarrow>
         if dimKey \<noteq> [] \<and> dimKey \<noteq> df_Dimension m then
           Inl (Plain (''mixed match dimensions '' @ print_str dimKey @ '' and '' @ print_str (df_Dimension m)
             @ '' are not supported''))
         else case leafFromRate r of
           Inl e \<Rightarrow> Inl e
         | Inr leaf \<Rightarrow>
             matched_rates rs (if dimKey = [] then df_Dimension m else dimKey)
               (dims @ [\<lparr>wd_DimensionValues = [df_Value m], wd_LeafNode = leaf\<rparr>]))"

definition buildWirePrice :: "DesiredPlanRate list \<Rightarrow> goerr + price_machine" where
  "buildWirePrice rates =
     (if rates = [] then Inl (Plain ''at least one rate is required'')
      else if \<not> list_ex (\<lambda>r. rt_Match r \<noteq> None) rates then
        (if length rates \<noteq> 1 then
           Inl (Plain ''multiple unmatched rates are not supported; use Match filters'')
         else case leafFromRate (hd rates) of Inl e \<Rightarrow> Inl e | Inr leaf \<Rightarrow> Inr (LeafMachine leaf))
      else case matched_rates rates [] [] of
        Inl e \<Rightarrow> Inl e
      | Inr (dimKey, dims) \<Rightarrow>
          if dimKey = [] \<or> dims = [] then Inl (Plain ''matched rates required for DimensionMatrixNode'')
          else Inr (MatrixMachine
            \<lparr>mx_Type = ''DimensionMatrixNode'', mx_DimensionKeys = [dimKey],
             mx_DimensionsPrices = sort_key (\<lambda>d. hd (wd_DimensionValues d)) dims\<rparr>))"

definition enc_tier :: "wirePriceTier \<Rightarrow> json" where
  "enc_tier t = JObj [(''startAfterUnit'', JNum (itoa (wt_StartAfterUnit t))),
     (''batchSize'', JNum (itoa (wt_BatchSize t))), (''pricePerBatch'', JNum (json_float (wt_PricePerBatch t)))]"

definition enc_leaf :: "wireLeafNode \<Rightarrow> json" where
  "enc_leaf l = JObj [(''type'', JStr (ln_Type l)), (''allowPartialBatch'', JBool (ln_AllowPartialBatch l)),
     (''tiers'', JArr (map enc_tier (ln_Tiers l)))]"

definition enc_price :: "price_machine \<Rightarrow> json" where
  "enc_price p = (case p of
      LeafMachine l \<Rightarrow> enc_leaf l
    | MatrixMachine m \<Rightarrow> JObj [(''type'', JStr (mx_Type m)), (''dimensionKeys'', json_strs (mx_DimensionKeys m)),
        (''dimensionsPrices'', JArr (map (\<lambda>d. JObj [(''dimensionValues'', json_strs (wd_DimensionValues d)),
           (''leafNode'', enc_leaf (wd_LeafNode d))]) (mx_DimensionsPrices m)))])"

section \<open>Comparing raw JSON\<close>

text \<open>A raw message decoded into \<open>any\<close>: numbers are doubles, objects are maps.\<close>

datatype any =
    ANull
  | ABool bool
  | ANum float64
  | AStr string
  | AArr "any list"
  | AObj "(string \<times> any) list"

definition norm_float :: "float64 \<Rightarrow> float64" where
  "norm_float f = (case f of F64 neg m e \<Rightarrow> if m = 0 then fzero else f | _ \<Rightarrow> f)"

fun to_any :: "json \<Rightarrow> any option" and to_anys :: "json list \<Rightarrow> any list option"
  and to_entries :: "(string \<times> json) list \<Rightarrow> (string \<times> any) list \<Rightarrow> (string \<times> any) list option" where
  "to_any JNull = Some ANull"
| "to_any (JBool b) = Some (ABool b)"
| "to_any (JNum n) = map_option (\<lambda>f. ANum (norm_float f)) (ParseFloat n)"
| "to_any (JStr s) = Some (AStr s)"
| "to_any (JArr js) = map_option AArr (to_anys js)"
| "to_any (JObj ms) = map_option (\<lambda>es. AObj (sort_key fst es)) (to_entries ms [])"
| "to_anys [] = Some []"
| "to_anys (j # js) = (case to_any j of None \<Rightarrow> None
     | Some a \<Rightarrow> (case to_anys js of None \<Rightarrow> None | Some as \<Rightarrow> Some (a # as)))"
| "to_entries [] es = Some es"
| "to_entries ((k, j) # ms) es = (case to_any j of None \<Rightarrow> None
     | Some a \<Rightarrow> to_entries ms (AList.update k a es))"

definition jsonEqual :: "json option \<Rightarrow> json option \<Rightarrow> bool" where
  "jsonEqual a b = (case (a, b) of
      (None, None) \<Rightarrow> True
    | (Some x, Some y) \<Rightarrow>
        (case to_any x of
           None \<Rightarrow> x = y
         | Some av \<Rightarrow> (case to_any y of None \<Rightarrow> x = y | Some bv \<Rightarrow> av = bv))
    | _ \<Rightarrow> False)"

section \<open>Plans on the wire\<close>

record wireProductItemPrice =
  ip_ID :: string
  ip_ProductItemID :: string
  ip_ProductItemPriceName :: string
  ip_Price :: "json option"
  ip_LockingStatus :: string

record wirePlanFee =
  fe_Name :: string
  fe_Cost :: float64
  fe_IsOneTimeFee :: bool

record wireBillingPeriod =
  bp_Interval :: string
  bp_IntervalsCount :: int

record wirePriceGenerator =
  pg_ID :: string
  pg_Type :: string
  pg_ProductItemID :: string
  pg_ProductItemPriceName :: string
  pg_LockingStatus :: string
  pg_Scalar :: float64
  pg_LeafNodeType :: string
  pg_DimensionKeys :: "string list option"
  pg_PriceTiers :: "json option"

record wirePlanGenerator =
  gn_Type :: string
  gn_ID :: string
  gn_BillingPeriod :: wireBillingPeriod
  gn_PlanName :: string
  gn_Description :: string
  gn_LockingStatus :: string
  gn_IsDefault :: "bool option"
  gn_PlanCurrency :: string
  gn_PriceGenerators :: "wirePriceGenerator list"
  gn_FeeMap :: "(string \<times> wirePlanFee) list"
  gn_RealTimePricing :: bool

record wireProductPlan =
  wpl_ID :: string
  wpl_ProductID :: string
  wpl_ProductPlanName :: string
  wpl_Description :: string
  wpl_BillingPeriod :: wireBillingPeriod
  wpl_ProductItemPriceIdsMap :: strmap
  wpl_FeeMap :: "(string \<times> wirePlanFee) list"
  wpl_LockingStatus :: string
  wpl_PlanCurrency :: string
  wpl_Type :: string
  wpl_IsDefault :: "bool option"
  wpl_PlanGenerator :: "wirePlanGenerator option"

definition zero_itemPrice :: wireProductItemPrice where
  "zero_itemPrice = \<lparr>ip_ID = [], ip_ProductItemID = [], ip_ProductItemPriceName = [], ip_Price = None,
     ip_LockingStatus = []\<rparr>"

definition zero_fee :: wirePlanFee where
  "zero_fee = \<lparr>fe_Name = [], fe_Cost = fzero, fe_IsOneTimeFee = False\<rparr>"

definition zero_period :: wireBillingPeriod where
  "zero_period = \<lparr>bp_Interval = [], bp_IntervalsCount = 0\<rparr>"

definition zero_priceGenerator :: wirePriceGenerator where
  "zero_priceGenerator = \<lparr>pg_ID = [], pg_Type = [], pg_ProductItemID = [], pg_ProductItemPriceName = [],
     pg_LockingStatus = [], pg_Scalar = fzero, pg_LeafNodeType = [], pg_DimensionKeys = None, pg_PriceTiers = None\<rparr>"

definition zero_planGenerator :: wirePlanGenerator where
  "zero_planGenerator = \<lparr>gn_Type = [], gn_ID = [], gn_BillingPeriod = zero_period, gn_PlanName = [],
     gn_Description = [], gn_LockingStatus = [], gn_IsDefault = None, gn_PlanCurrency = [],
     gn_PriceGenerators = [], gn_FeeMap = [], gn_RealTimePricing = False\<rparr>"

definition zero_productPlan :: wireProductPlan where
  "zero_productPlan = \<lparr>wpl_ID = [], wpl_ProductID = [], wpl_ProductPlanName = [], wpl_Description = [],
     wpl_BillingPeriod = zero_period, wpl_ProductItemPriceIdsMap = [], wpl_FeeMap = [], wpl_LockingStatus = [],
     wpl_PlanCurrency = [], wpl_Type = [], wpl_IsDefault = None, wpl_PlanGenerator = None\<rparr>"

definition itemPrice_fields :: "wireProductItemPrice fields" where
  "itemPrice_fields =
    [(''id'', field ip_ID (\<lambda>x. ip_ID_update (\<lambda>_. x)) dec_string),
     (''productItemId'', field ip_ProductItemID (\<lambda>x. ip_ProductItemID_update (\<lambda>_. x)) dec_string),
     (''productItemPriceName'', field ip_ProductItemPriceName (\<lambda>x. ip_ProductItemPriceName_update (\<lambda>_. x)) dec_string),
     (''price'', field ip_Price (\<lambda>x. ip_Price_update (\<lambda>_. x)) dec_raw),
     (''lockingStatus'', field ip_LockingStatus (\<lambda>x. ip_LockingStatus_update (\<lambda>_. x)) dec_string)]"

definition fee_fields :: "wirePlanFee fields" where
  "fee_fields =
    [(''name'', field fe_Name (\<lambda>x. fe_Name_update (\<lambda>_. x)) dec_string),
     (''cost'', field fe_Cost (\<lambda>x. fe_Cost_update (\<lambda>_. x)) dec_float),
     (''isOneTimeFee'', field fe_IsOneTimeFee (\<lambda>x. fe_IsOneTimeFee_update (\<lambda>_. x)) dec_bool)]"

definition period_fields :: "wireBillingPeriod fields" where
  "period_fields =
    [(''interval'', field bp_Interval (\<lambda>x. bp_Interval_update (\<lambda>_. x)) dec_string),
     (''intervalsCount'', field bp_IntervalsCount (\<lambda>x. bp_IntervalsCount_update (\<lambda>_. x)) dec_int64)]"

text \<open>A slice that keeps the difference between nil and empty.\<close>

definition dec_nil_list :: "string list option setter" where
  "dec_nil_list old j = (case j of JNull \<Rightarrow> Some None | _ \<Rightarrow> map_option Some (dec_list [] dec_string [] j))"

definition priceGenerator_fields :: "wirePriceGenerator fields" where
  "priceGenerator_fields =
    [(''id'', field pg_ID (\<lambda>x. pg_ID_update (\<lambda>_. x)) dec_string),
     (''type'', field pg_Type (\<lambda>x. pg_Type_update (\<lambda>_. x)) dec_string),
     (''productItemId'', field pg_ProductItemID (\<lambda>x. pg_ProductItemID_update (\<lambda>_. x)) dec_string),
     (''productItemPriceName'', field pg_ProductItemPriceName (\<lambda>x. pg_ProductItemPriceName_update (\<lambda>_. x)) dec_string),
     (''lockingStatus'', field pg_LockingStatus (\<lambda>x. pg_LockingStatus_update (\<lambda>_. x)) dec_string),
     (''scalar'', field pg_Scalar (\<lambda>x. pg_Scalar_update (\<lambda>_. x)) dec_float),
     (''leafNodeType'', field pg_LeafNodeType (\<lambda>x. pg_LeafNodeType_update (\<lambda>_. x)) dec_string),
     (''dimensionKeys'', field pg_DimensionKeys (\<lambda>x. pg_DimensionKeys_update (\<lambda>_. x)) dec_nil_list),
     (''priceTiers'', field pg_PriceTiers (\<lambda>x. pg_PriceTiers_update (\<lambda>_. x)) dec_raw)]"

definition planGenerator_fields :: "wirePlanGenerator fields" where
  "planGenerator_fields =
    [(''type'', field gn_Type (\<lambda>x. gn_Type_update (\<lambda>_. x)) dec_string),
     (''id'', field gn_ID (\<lambda>x. gn_ID_update (\<lambda>_. x)) dec_string),
     (''billingPeriod'', field gn_BillingPeriod (\<lambda>x. gn_BillingPeriod_update (\<lambda>_. x)) (decode_struct period_fields)),
     (''planName'', field gn_PlanName (\<lambda>x. gn_PlanName_update (\<lambda>_. x)) dec_string),
     (''description'', field gn_Description (\<lambda>x. gn_Description_update (\<lambda>_. x)) dec_string),
     (''lockingStatus'', field gn_LockingStatus (\<lambda>x. gn_LockingStatus_update (\<lambda>_. x)) dec_string),
     (''isDefault'', field gn_IsDefault (\<lambda>x. gn_IsDefault_update (\<lambda>_. x)) (dec_ptr False dec_bool)),
     (''planCurrency'', field gn_PlanCurrency (\<lambda>x. gn_PlanCurrency_update (\<lambda>_. x)) dec_string),
     (''priceGenerators'', field gn_PriceGenerators (\<lambda>x. gn_PriceGenerators_update (\<lambda>_. x))
        (dec_list zero_priceGenerator (decode_struct priceGenerator_fields))),
     (''feeMap'', field gn_FeeMap (\<lambda>x. gn_FeeMap_update (\<lambda>_. x)) (dec_map zero_fee (decode_struct fee_fields))),
     (''realTimePricing'', field gn_RealTimePricing (\<lambda>x. gn_RealTimePricing_update (\<lambda>_. x)) dec_bool)]"

definition productPlan_fields :: "wireProductPlan fields" where
  "productPlan_fields =
    [(''id'', field wpl_ID (\<lambda>x. wpl_ID_update (\<lambda>_. x)) dec_string),
     (''productId'', field wpl_ProductID (\<lambda>x. wpl_ProductID_update (\<lambda>_. x)) dec_string),
     (''productPlanName'', field wpl_ProductPlanName (\<lambda>x. wpl_ProductPlanName_update (\<lambda>_. x)) dec_string),
     (''description'', field wpl_Description (\<lambda>x. wpl_Description_update (\<lambda>_. x)) dec_string),
     (''billingPeriod'', field wpl_BillingPeriod (\<lambda>x. wpl_BillingPeriod_update (\<lambda>_. x)) (decode_struct period_fields)),
     (''productItemPriceIdsMap'', field wpl_ProductItemPriceIdsMap (\<lambda>x. wpl_ProductItemPriceIdsMap_update (\<lambda>_. x))
        (dec_map [] dec_string)),
     (''feeMap'', field wpl_FeeMap (\<lambda>x. wpl_FeeMap_update (\<lambda>_. x)) (dec_map zero_fee (decode_struct fee_fields))),
     (''lockingStatus'', field wpl_LockingStatus (\<lambda>x. wpl_LockingStatus_update (\<lambda>_. x)) dec_string),
     (''planCurrency'', field wpl_PlanCurrency (\<lambda>x. wpl_PlanCurrency_update (\<lambda>_. x)) dec_string),
     (''type'', field wpl_Type (\<lambda>x. wpl_Type_update (\<lambda>_. x)) dec_string),
     (''isDefault'', field wpl_IsDefault (\<lambda>x. wpl_IsDefault_update (\<lambda>_. x)) (dec_ptr False dec_bool)),
     (''planGenerator'', field wpl_PlanGenerator (\<lambda>x. wpl_PlanGenerator_update (\<lambda>_. x))
        (dec_ptr zero_planGenerator (decode_struct planGenerator_fields)))]"

definition dec_itemPrice :: "string \<Rightarrow> wireProductItemPrice option" where
  "dec_itemPrice = unmarshal (decode_struct itemPrice_fields) zero_itemPrice"

definition dec_productPlan :: "string \<Rightarrow> wireProductPlan option" where
  "dec_productPlan = unmarshal (decode_struct productPlan_fields) zero_productPlan"

definition omit_bool_ptr :: "string \<Rightarrow> bool option \<Rightarrow> (string \<times> json) list" where
  "omit_bool_ptr k b = (case b of None \<Rightarrow> [] | Some v \<Rightarrow> [(k, JBool v)])"

definition omit_raw :: "string \<Rightarrow> json option \<Rightarrow> (string \<times> json) list" where
  "omit_raw k j = (case j of None \<Rightarrow> [] | Some v \<Rightarrow> [(k, v)])"

definition enc_itemPrice :: "wireProductItemPrice \<Rightarrow> json" where
  "enc_itemPrice w = JObj
     (omit_str ''id'' (ip_ID w) @ [(''productItemId'', JStr (ip_ProductItemID w))]
      @ omit_str ''productItemPriceName'' (ip_ProductItemPriceName w)
      @ [(''price'', case ip_Price w of None \<Rightarrow> JNull | Some j \<Rightarrow> j)]
      @ omit_str ''lockingStatus'' (ip_LockingStatus w))"

definition enc_fee :: "wirePlanFee \<Rightarrow> json" where
  "enc_fee f = JObj (omit_str ''name'' (fe_Name f)
     @ [(''cost'', JNum (json_float (fe_Cost f))), (''isOneTimeFee'', JBool (fe_IsOneTimeFee f))])"

definition enc_period :: "wireBillingPeriod \<Rightarrow> json" where
  "enc_period p = JObj [(''interval'', JStr (bp_Interval p)), (''intervalsCount'', JNum (itoa (bp_IntervalsCount p)))]"

definition enc_priceGenerator :: "wirePriceGenerator \<Rightarrow> json" where
  "enc_priceGenerator g = JObj
     ([(''id'', JStr (pg_ID g)), (''type'', JStr (pg_Type g)), (''productItemId'', JStr (pg_ProductItemID g))]
      @ omit_str ''productItemPriceName'' (pg_ProductItemPriceName g)
      @ omit_str ''lockingStatus'' (pg_LockingStatus g)
      @ (if f_man (pg_Scalar g) = 0 then [] else [(''scalar'', JNum (json_float (pg_Scalar g)))])
      @ omit_str ''leafNodeType'' (pg_LeafNodeType g)
      @ omit_list JStr ''dimensionKeys'' (case pg_DimensionKeys g of None \<Rightarrow> [] | Some ks \<Rightarrow> ks)
      @ omit_raw ''priceTiers'' (pg_PriceTiers g))"

definition enc_planGenerator :: "wirePlanGenerator \<Rightarrow> json" where
  "enc_planGenerator g = JObj
     ([(''type'', JStr (gn_Type g))] @ omit_str ''id'' (gn_ID g)
      @ [(''billingPeriod'', enc_period (gn_BillingPeriod g))]
      @ omit_str ''planName'' (gn_PlanName g) @ omit_str ''description'' (gn_Description g)
      @ omit_str ''lockingStatus'' (gn_LockingStatus g) @ omit_bool_ptr ''isDefault'' (gn_IsDefault g)
      @ omit_str ''planCurrency'' (gn_PlanCurrency g)
      @ omit_list enc_priceGenerator ''priceGenerators'' (gn_PriceGenerators g)
      @ omit_map enc_fee ''feeMap'' (gn_FeeMap g)
      @ [(''realTimePricing'', JBool (gn_RealTimePricing g))])"

definition enc_productPlan :: "wireProductPlan \<Rightarrow> json" where
  "enc_productPlan w = JObj
     (omit_str ''id'' (wpl_ID w) @ omit_str ''productId'' (wpl_ProductID w)
      @ omit_str ''productPlanName'' (wpl_ProductPlanName w) @ omit_str ''description'' (wpl_Description w)
      @ [(''billingPeriod'', enc_period (wpl_BillingPeriod w))]
      @ omit_map JStr ''productItemPriceIdsMap'' (wpl_ProductItemPriceIdsMap w)
      @ omit_map enc_fee ''feeMap'' (wpl_FeeMap w)
      @ omit_str ''lockingStatus'' (wpl_LockingStatus w) @ omit_str ''planCurrency'' (wpl_PlanCurrency w)
      @ omit_str ''type'' (wpl_Type w) @ omit_bool_ptr ''isDefault'' (wpl_IsDefault w)
      @ (case wpl_PlanGenerator w of None \<Rightarrow> [] | Some g \<Rightarrow> [(''planGenerator'', enc_planGenerator g)]))"

end
