(* ===== verification/PlanOps.thy ===== *)
theory PlanOps
  imports ProductPlan
begin

text \<open>
  The operations of internal/amberflo/product_plan.go: when a stored plan differs from the wanted
  one, ensuring a product item and its price, EnsureProductPlan and DeleteProductPlan.
\<close>

section \<open>Comparing plans\<close>

definition f64_eq :: "float64 \<Rightarrow> float64 \<Rightarrow> bool" where
  "f64_eq a b \<longleftrightarrow> norm_float a = norm_float b"

definition fee_eq :: "wirePlanFee \<Rightarrow> wirePlanFee \<Rightarrow> bool" where
  "fee_eq a b \<longleftrightarrow> fe_Name a = fe_Name b \<and> f64_eq (fe_Cost a) (fe_Cost b) \<and> fe_IsOneTimeFee a = fe_IsOneTimeFee b"

text \<open>\<open>reflect.DeepEqual\<close> of two maps, nil and empty maps having been made equal.\<close>

definition map_equal :: "('v \<Rightarrow> 'v \<Rightarrow> bool) \<Rightarrow> (string \<times> 'v) list \<Rightarrow> (string \<times> 'v) list \<Rightarrow> bool" where
  "map_equal eq a b \<longleftrightarrow> length a = length b
     \<and> list_all (\<lambda>(k, v). case map_of b k of None \<Rightarrow> False | Some w \<Rightarrow> eq v w) a"

definition byItem :: "wirePriceGenerator list \<Rightarrow> (string \<times> wirePriceGenerator) list" where
  "byItem gens = fold (\<lambda>g m. AList.update (pg_ProductItemID g) g m) gens []"

definition generator_eq :: "wirePriceGenerator \<Rightarrow> wirePriceGenerator \<Rightarrow> bool" where
  "generator_eq ag bg \<longleftrightarrow>
     (if pg_Type ag \<noteq> pg_Type bg \<or> pg_ID ag \<noteq> pg_ID bg \<or> pg_LeafNodeType ag \<noteq> pg_LeafNodeType bg then False
      else if \<not> jsonEqual (pg_PriceTiers ag) (pg_PriceTiers bg) then False
      else pg_DimensionKeys ag = pg_DimensionKeys bg)"

definition planGeneratorsEqual :: "wirePlanGenerator option \<Rightarrow> wirePlanGenerator option \<Rightarrow> bool" where
  "planGeneratorsEqual a b = (case (a, b) of
      (None, None) \<Rightarrow> True
    | (Some x, Some y) \<Rightarrow>
        if gn_Type x \<noteq> gn_Type y \<or> gn_PlanName x \<noteq> gn_PlanName y \<or> gn_Description x \<noteq> gn_Description y then False
        else if \<not> map_equal fee_eq (gn_FeeMap x) (gn_FeeMap y) then False
        else if length (gn_PriceGenerators x) \<noteq> length (gn_PriceGenerators y) then False
        else map_equal generator_eq (byItem (gn_PriceGenerators x)) (byItem (gn_PriceGenerators y))
    | _ \<Rightarrow> False)"

definition productPlanNeedsUpdate :: "wireProductPlan \<Rightarrow> wireProductPlan \<Rightarrow> bool" where
  "productPlanNeedsUpdate existing want \<longleftrightarrow>
     (if wpl_ProductPlanName existing \<noteq> wpl_ProductPlanName want then True
      else if wpl_Description existing \<noteq> wpl_Description want then True
      else if wpl_PlanCurrency existing \<noteq> wpl_PlanCurrency want \<and> wpl_PlanCurrency want \<noteq> [] then True
      else if wpl_LockingStatus existing \<noteq> wpl_LockingStatus want \<and> wpl_LockingStatus want \<noteq> [] then True
      else if wpl_Type existing \<noteq> wpl_Type want \<and> wpl_Type want \<noteq> [] then True
      else if \<not> map_equal (=) (wpl_ProductItemPriceIdsMap existing) (wpl_ProductItemPriceIdsMap want) then True
      else if \<not> map_equal fee_eq (wpl_FeeMap existing) (wpl_FeeMap want) then True
      else \<not> planGeneratorsEqual (wpl_PlanGenerator existing) (wpl_PlanGenerator want))"

section \<open>Building a plan\<close>

definition buildPlanGenerator :: "DesiredProductPlan \<Rightarrow> wireBillingPeriod \<Rightarrow> string \<Rightarrow> wirePriceGenerator list
    \<Rightarrow> (string \<times> wirePlanFee) list \<Rightarrow> bool option \<Rightarrow> wirePlanGenerator" where
  "buildPlanGenerator desired period currency generators feeMap isDefault =
     \<lparr>gn_Type = productPlanTypeCustom, gn_ID = pp_ID desired, gn_BillingPeriod = period,
      gn_PlanName = pp_Name desired, gn_Description = pp_Description desired,
      gn_LockingStatus = lockingStatusClose, gn_IsDefault = isDefault, gn_PlanCurrency = currency,
      gn_PriceGenerators = generators, gn_FeeMap = feeMap, gn_RealTimePricing = False\<rparr>"

text \<open>The double 1, the scalar of every price generator.\<close>

definition f64_one :: float64 where
  "f64_one = F64 False 4503599627370496 (-52)"

definition priceGeneratorFromMachine :: "string \<Rightarrow> DesiredPlanItem \<Rightarrow> price_machine \<Rightarrow> string \<Rightarrow> wirePriceGenerator" where
  "priceGeneratorFromMachine priceID item price productItemID =
     (let gen = \<lparr>pg_ID = priceID, pg_Type = [], pg_ProductItemID = productItemID,
        pg_ProductItemPriceName = disambiguatedMeterLabel (firstNonEmpty [it_Label item, it_ID item]) priceID,
        pg_LockingStatus = lockingStatusClose, pg_Scalar = f64_one, pg_LeafNodeType = [],
        pg_DimensionKeys = None, pg_PriceTiers = None\<rparr>
      in case price of
        LeafMachine l \<Rightarrow>
          gen\<lparr>pg_Type := ''usage_based_no_dimension'', pg_LeafNodeType := ''PricePerUnitLeafNode'',
              pg_PriceTiers := Some (JArr (map enc_tier (ln_Tiers l)))\<rparr>
      | MatrixMachine m \<Rightarrow>
          gen\<lparr>pg_Type := ''usage_based_dimension'', pg_DimensionKeys := Some (mx_DimensionKeys m),
              pg_PriceTiers := Some (JArr (map (\<lambda>d. JObj
                (omit_list JStr ''dimensionValues'' (wd_DimensionValues d)
                 @ omit_list enc_tier ''priceTiers'' (ln_Tiers (wd_LeafNode d))
                 @ [(''leafNodeType'', JStr ''PricePerUnitLeafNode'')])) (mx_DimensionsPrices m)))\<rparr>)"

definition productItemPriceID :: "string \<Rightarrow> string \<Rightarrow> string" where
  "productItemPriceID planID itemID = planID @ ''--'' @ itemID"

definition productPlanFromWire :: "wireProductPlan \<Rightarrow> string \<Rightarrow> ProductPlan" where
  "productPlanFromWire wp raw =
     \<lparr>pl_ID = wpl_ID wp, pl_Name = wpl_ProductPlanName wp, pl_ProductID = wpl_ProductID wp,
      pl_Currency = wpl_PlanCurrency wp, pl_Description = wpl_Description wp, pl_Raw = raw\<rparr>"

section \<open>Product items and prices\<close>

definition isProductItemSameMeterError :: "goerr \<Rightarrow> bool" where
  "isProductItemSameMeterError err = perm_contains err ''have the same meter''"

definition isProductItemPriceNameCollisionError :: "goerr \<Rightarrow> bool" where
  "isProductItemPriceNameCollisionError err \<longleftrightarrow>
     perm_contains err ''Product item rate with name already exists'' \<or>
     perm_contains err ''Property productItemPriceName''"

definition productItemPriceNameAcceptable :: "string \<Rightarrow> string \<Rightarrow> string \<Rightarrow> bool" where
  "productItemPriceNameAcceptable existing want priceID \<longleftrightarrow>
     existing = want \<or> existing = disambiguatedMeterLabel want priceID"

text \<open>The leftover product item to reuse: the one on this meter, or else the one of this name, if
  no live foreign meter holds it.\<close>

definition leftoverProductItem :: "'w client \<Rightarrow> wireProductItem \<Rightarrow> ('w net, goerr + wireProductItem option) io" where
  "leftoverProductItem c item = do {
     onMeter \<leftarrow> productItemForMeter c (pi_MeterAPIName item);
     case onMeter of
       Inl e \<Rightarrow> ret (Inl e)
     | Inr found \<Rightarrow> (case found of
         Some i \<Rightarrow> ret (Inr (Some i))
       | None \<Rightarrow> do {
           named \<leftarrow> productItemNamed c (pi_ProductItemName item);
           case named of
             Inl e \<Rightarrow> ret (Inl e)
           | Inr found' \<Rightarrow> (case found' of
               None \<Rightarrow> ret (Inr None)
             | Some i \<Rightarrow> do {
                 live \<leftarrow> rejectLiveForeignProductItem c i (pi_MeterAPIName item);
                 ret (case live of Some e \<Rightarrow> Inl e | None \<Rightarrow> Inr (Some i))
               })
         })
   }"

definition createProductItem :: "'w client \<Rightarrow> wireProductItem \<Rightarrow> ('w net, goerr + string) io" where
  "createProductItem c item = do {
     r \<leftarrow> doJSON c ''POST'' productItemsPath (Encoded (print (enc_wireProductItem item))) dec_none ();
     if (case rp_err r of None \<Rightarrow> False | Some e \<Rightarrow> \<not> isProductItemSameMeterError e)
     then ret (case rp_err r of Some e \<Rightarrow> Inl e | None \<Rightarrow> Inr (pi_ID item))
     else do {
       onMeter \<leftarrow> productItemForMeter c (pi_MeterAPIName item);
       ret (case onMeter of
         Inl e \<Rightarrow> Inl e
       | Inr (Some i) \<Rightarrow> Inr (pi_ID i)
       | Inr None \<Rightarrow> (case rp_err r of Some e \<Rightarrow> Inl e | None \<Rightarrow> Inr (pi_ID item)))
     }
   }"

text \<open>A product item was found: point it at the meter, or fall back when it cannot be.\<close>

definition reuseProductItem :: "'w client \<Rightarrow> wireProductItem \<Rightarrow> wireProductItem \<Rightarrow> ('w net, goerr + string) io" where
  "reuseProductItem c item got = do {
     p \<leftarrow> pointProductItemAtMeter c got (pi_MeterAPIName item);
     case p of
       None \<Rightarrow> ret (Inr (pi_ID got))
     | Some e \<Rightarrow>
         if IsTransient e then ret (Inl e)
         else do {
           sibling \<leftarrow> productItemForMeter c (pi_MeterAPIName item);
           case sibling of
             Inl e' \<Rightarrow> ret (Inl e')
           | Inr found \<Rightarrow>
               if (case found of None \<Rightarrow> False | Some s \<Rightarrow> pi_ID s \<noteq> pi_ID got)
               then ret (Inr (case found of None \<Rightarrow> [] | Some s \<Rightarrow> pi_ID s))
               else createProductItem c
                 (item\<lparr>pi_ProductItemName := disambiguatedMeterLabel (pi_ProductItemName item) (pi_MeterAPIName item)\<rparr>)
         }
   }"

definition ensureProductItem :: "'w client \<Rightarrow> wireProductItem \<Rightarrow> ('w net, goerr + string) io" where
  "ensureProductItem c item =
     (if pi_ID item = [] then ret (Inl (permanent ''product item id is required''))
      else do {
        r \<leftarrow> doJSON c ''GET'' (accountPricingQueryPath productItemsPath ''productItemId'' (pi_ID item))
               NoBody dec_wireProductItem zero_wireProductItem;
        if (case rp_err r of None \<Rightarrow> False | Some e \<Rightarrow> \<not> is_404 e)
        then ret (case rp_err r of Some e \<Rightarrow> Inl e | None \<Rightarrow> Inr [])
        else do {
          got \<leftarrow> (if rp_err r = None \<and> pi_ID (rp_val r) \<noteq> [] then ret (Inr (Some (rp_val r)))
                 else leftoverProductItem c item);
          case got of
            Inl e \<Rightarrow> ret (Inl e)
          | Inr found \<Rightarrow> (case found of
              None \<Rightarrow> createProductItem c item
            | Some i \<Rightarrow> reuseProductItem c item i)
        }
      })"

definition postItemPrice :: "'w client \<Rightarrow> wireProductItemPrice \<Rightarrow> ('w net, goerr option) io" where
  "postItemPrice c price = do {
     r \<leftarrow> doJSON c ''POST'' productItemPricePath (Encoded (print (enc_itemPrice price))) dec_none ();
     ret (rp_err r)
   }"

definition recoverProductItemPriceNameCollision :: "'w client \<Rightarrow> wireProductItemPrice \<Rightarrow> goerr option
    \<Rightarrow> ('w net, goerr option) io" where
  "recoverProductItemPriceNameCollision c price err =
     (case err of
        None \<Rightarrow> ret None
      | Some e \<Rightarrow>
          if \<not> isProductItemPriceNameCollisionError e then ret (Some e)
          else postItemPrice c
            (price\<lparr>ip_ProductItemPriceName := disambiguatedMeterLabel (ip_ProductItemPriceName price) (ip_ID price)\<rparr>))"

definition post_and_recover :: "'w client \<Rightarrow> wireProductItemPrice \<Rightarrow> ('w net, goerr option) io" where
  "post_and_recover c price = do {
     e \<leftarrow> postItemPrice c price;
     recoverProductItemPriceNameCollision c price e
   }"

definition ensureProductItemPrice :: "'w client \<Rightarrow> wireProductItemPrice \<Rightarrow> ('w net, goerr option) io" where
  "ensureProductItemPrice c price = do {
     r \<leftarrow> doJSON c ''GET'' (accountPricingQueryPath productItemPricePath ''id'' (ip_ID price))
            NoBody dec_itemPrice zero_itemPrice;
     case rp_err r of
       None \<Rightarrow>
         (let existing = rp_val r in
          if ip_ID existing \<noteq> [] then
            (if ip_ProductItemID existing = ip_ProductItemID price
                \<and> productItemPriceNameAcceptable (ip_ProductItemPriceName existing) (ip_ProductItemPriceName price) (ip_ID price)
                \<and> jsonEqual (ip_Price existing) (ip_Price price)
             then ret None
             else post_and_recover c
               (if ip_ProductItemPriceName existing \<noteq> []
                then price\<lparr>ip_ProductItemPriceName := ip_ProductItemPriceName existing\<rparr> else price))
          else post_and_recover c price)
     | Some e \<Rightarrow> if is_404 e then post_and_recover c price else ret (Some e)
   }"

section \<open>Plans\<close>

definition plan_not_found :: "string \<Rightarrow> goerr" where
  "plan_not_found pid = Wrap [] (Sentinel ErrProductPlanNotFound) ('': '' @ pid)"

definition GetProductPlan :: "'w client \<Rightarrow> string \<Rightarrow> ('w net, goerr + ProductPlan) io" where
  "GetProductPlan c pid =
     (if pid = [] then ret (Inl (permanent ''product plan id is required''))
      else do {
        r \<leftarrow> doJSON c ''GET'' (accountPricingQueryPath productPlansPath ''productPlanId'' pid)
               NoBody dec_productPlan zero_productPlan;
        ret (case rp_err r of
          Some e \<Rightarrow> if is_404 e then Inl (plan_not_found pid) else Inl e
        | None \<Rightarrow>
            if wpl_ID (rp_val r) = [] then Inl (plan_not_found pid)
            else Inr (productPlanFromWire (rp_val r) (rp_body r)))
      })"

definition putProductPlan :: "'w client \<Rightarrow> string \<Rightarrow> wireProductPlan \<Rightarrow> ('w net, goerr + ProductPlan) io" where
  "putProductPlan c meth wp = do {
     r \<leftarrow> doJSON c meth productPlansPath (Encoded (print (enc_productPlan wp))) dec_productPlan zero_productPlan;
     ret (case rp_err r of
       Some e \<Rightarrow> Inl e
     | None \<Rightarrow> Inr (productPlanFromWire (if wpl_ID (rp_val r) = [] then wp else rp_val r) (rp_body r)))
   }"

text \<open>What the loop over the items builds: price ids by product item, fees, and generators.\<close>

record plan_parts =
  pt_priceIDs :: strmap
  pt_feeMap :: "(string \<times> wirePlanFee) list"
  pt_generators :: "wirePriceGenerator list"

definition item_error :: "DesiredPlanItem \<Rightarrow> goerr \<Rightarrow> goerr" where
  "item_error item e = PermanentError (Wrap (''DesiredPlanItem '' @ print_str (it_ID item) @ '': '') e []) 0 []"

definition ensureUsageItem :: "'w client \<Rightarrow> DesiredProductPlan \<Rightarrow> string \<Rightarrow> DesiredPlanItem \<Rightarrow> plan_parts
    \<Rightarrow> ('w net, goerr + plan_parts) io" where
  "ensureUsageItem c desired productID item parts =
     (if it_MeterAPIName item = [] then
        ret (Inl (permanent (''DesiredPlanItem '' @ print_str (it_ID item) @ '': MeterAPIName is required for usage'')))
      else do {
        pitem \<leftarrow> ensureProductItem c
          \<lparr>pi_ID = it_MeterAPIName item, pi_ProductItemName = firstNonEmpty [it_Label item, it_MeterAPIName item],
           pi_MeterAPIName = it_MeterAPIName item, pi_ProductID = productID, pi_LockingStatus = []\<rparr>;
        case pitem of
          Inl e \<Rightarrow> ret (Inl e)
        | Inr productItemID \<Rightarrow>
            (let priceID = productItemPriceID (pp_ID desired) (it_ID item) in
             case buildWirePrice (it_Rates item) of
               Inl e \<Rightarrow> ret (Inl (item_error item e))
             | Inr price \<Rightarrow> do {
                 e \<leftarrow> ensureProductItemPrice c
                   \<lparr>ip_ID = priceID, ip_ProductItemID = productItemID,
                    ip_ProductItemPriceName = disambiguatedMeterLabel (firstNonEmpty [it_Label item, it_ID item]) priceID,
                    ip_Price = Some (enc_price price), ip_LockingStatus = lockingStatusClose\<rparr>;
                 ret (case e of
                   Some err \<Rightarrow> Inl err
                 | None \<Rightarrow> Inr (parts
                     \<lparr>pt_priceIDs := mset_key productItemID priceID (pt_priceIDs parts),
                      pt_generators := pt_generators parts @ [priceGeneratorFromMachine priceID item price productItemID]\<rparr>))
               })
      })"

fun ensureItems :: "'w client \<Rightarrow> DesiredProductPlan \<Rightarrow> string \<Rightarrow> nat \<Rightarrow> DesiredPlanItem list \<Rightarrow> plan_parts
    \<Rightarrow> ('w net, goerr + plan_parts) io" where
  "ensureItems c desired productID i [] parts = ret (Inr parts)"
| "ensureItems c desired productID i (item # items) parts =
     (if it_ID item = [] then
        ret (Inl (permanent (''DesiredPlanItem['' @ itoa (int i) @ ''].ID is required'')))
      else case it_ChargeType item of
        Usage \<Rightarrow> do {
          r \<leftarrow> ensureUsageItem c desired productID item parts;
          case r of Inl e \<Rightarrow> ret (Inl e) | Inr parts' \<Rightarrow> ensureItems c desired productID (i + 1) items parts'
        }
      | OtherCharge t \<Rightarrow>
          ret (Inl (permanent (''DesiredPlanItem '' @ print_str (it_ID item) @ '': unsupported ChargeType '' @ print_str t)))
      | fixed \<Rightarrow>
          ensureItems c desired productID (i + 1) items
            (parts\<lparr>pt_feeMap := AList.update (it_ID item)
               \<lparr>fe_Name = firstNonEmpty [it_Label item, it_ID item], fe_Cost = it_Amount item,
                fe_IsOneTimeFee = (fixed = OneTime)\<rparr> (pt_feeMap parts)\<rparr>))"

definition want_plan :: "DesiredProductPlan \<Rightarrow> string \<Rightarrow> string \<Rightarrow> plan_parts \<Rightarrow> bool option \<Rightarrow> wireProductPlan" where
  "want_plan desired productID currency parts isDefault =
     (let period = \<lparr>bp_Interval = ''month'', bp_IntervalsCount = 1\<rparr> in
      \<lparr>wpl_ID = pp_ID desired, wpl_ProductID = productID, wpl_ProductPlanName = pp_Name desired,
       wpl_Description = pp_Description desired, wpl_BillingPeriod = period,
       wpl_ProductItemPriceIdsMap = pt_priceIDs parts, wpl_FeeMap = pt_feeMap parts,
       wpl_LockingStatus = lockingStatusClose, wpl_PlanCurrency = currency, wpl_Type = productPlanTypeCustom,
       wpl_IsDefault = isDefault,
       wpl_PlanGenerator = Some (buildPlanGenerator desired period currency (pt_generators parts) (pt_feeMap parts) isDefault)\<rparr>)"

text \<open>The stored plan, from the body it was read from; a body that does not decode leaves the zero plan.\<close>

definition stored_plan :: "string \<Rightarrow> wireProductPlan" where
  "stored_plan raw = (case dec_productPlan raw of None \<Rightarrow> zero_productPlan | Some w \<Rightarrow> w)"

definition EnsureProductPlan :: "'w client \<Rightarrow> DesiredProductPlan \<Rightarrow> ('w net, goerr + ProductPlan) io" where
  "EnsureProductPlan c desired0 =
     (if pp_ID desired0 = [] then ret (Inl (permanent ''DesiredProductPlan.ID is required''))
      else
       (let desired = (if pp_Name desired0 = [] then desired0\<lparr>pp_Name := pp_ID desired0\<rparr> else desired0);
            productID = (if pp_ProductID desired = [] then defaultProductPlanPID else pp_ProductID desired);
            currency = (if pp_Currency desired = [] then ''USD'' else pp_Currency desired)
        in do {
          built \<leftarrow> ensureItems c desired productID 0 (pp_Items desired)
                    \<lparr>pt_priceIDs = [], pt_feeMap = [], pt_generators = []\<rparr>;
          case built of
            Inl e \<Rightarrow> ret (Inl e)
          | Inr parts \<Rightarrow> do {
              got \<leftarrow> GetProductPlan c (pp_ID desired);
              case got of
                Inl e \<Rightarrow>
                  if errors_Is e ErrProductPlanNotFound
                  then putProductPlan c ''POST'' (want_plan desired productID currency parts None)
                  else ret (Inl e)
              | Inr existing \<Rightarrow>
                  (let stored = stored_plan (pl_Raw existing);
                       want = want_plan desired productID currency parts (wpl_IsDefault stored)
                   in if \<not> productPlanNeedsUpdate stored want then ret (Inr existing)
                      else putProductPlan c ''POST'' want)
            }
        }))"

definition DeleteProductPlan :: "'w client \<Rightarrow> string \<Rightarrow> ('w net, goerr option) io" where
  "DeleteProductPlan c pid =
     (if pid = [] then ret (Some (permanent ''product plan id is required''))
      else do {
        got \<leftarrow> GetProductPlan c pid;
        case got of
          Inl e \<Rightarrow> ret (if errors_Is e ErrProductPlanNotFound then None else Some e)
        | Inr existing \<Rightarrow>
            (let wire0 = (if pl_Raw existing \<noteq> [] then stored_plan (pl_Raw existing) else zero_productPlan);
                 wire = wire0\<lparr>wpl_ID := firstNonEmpty [wpl_ID wire0, pl_ID existing, pid]\<rparr>
             in do {
               dep \<leftarrow> (if wpl_LockingStatus wire \<noteq> lockingStatusDeprecated
                      then putProductPlan c ''POST'' (wire\<lparr>wpl_LockingStatus := lockingStatusDeprecated\<rparr>)
                      else ret (Inr existing));
               case dep of
                 Inl e \<Rightarrow> ret (if is_404 e then None else Some e)
               | Inr _ \<Rightarrow> do {
                   r \<leftarrow> doJSON c ''DELETE'' (accountPricingQueryPath productPlansPath ''productPlanId'' pid)
                          NoBody dec_none ();
                   ret (case rp_err r of None \<Rightarrow> None | Some e \<Rightarrow> if is_404 e then None else Some e)
                 }
             })
      })"

section \<open>Price machines\<close>

lemma matched_rates_spec:
  "matched_rates rs k0 ds0 = Inr (k, ds) \<Longrightarrow>
     (\<forall>r\<in>set rs. \<exists>m. rt_Match r = Some m \<and> df_Dimension m \<in> {k, []})
     \<and> map wd_DimensionValues ds = map wd_DimensionValues ds0 @ map (\<lambda>r. [df_Value (the (rt_Match r))]) rs
     \<and> (k0 \<noteq> [] \<longrightarrow> k = k0)"
proof (induction rs k0 ds0 rule: matched_rates.induct)
  case (1 k0 ds0)
  then show ?case by simp
next
  case (2 r rs k0 ds0)
  from 2(2) obtain m leaf where m: "rt_Match r = Some m" "\<not> (k0 \<noteq> [] \<and> k0 \<noteq> df_Dimension m)"
    "leafFromRate r = Inr leaf"
    "matched_rates rs (if k0 = [] then df_Dimension m else k0)
       (ds0 @ [\<lparr>wd_DimensionValues = [df_Value m], wd_LeafNode = leaf\<rparr>]) = Inr (k, ds)"
    by (auto split: option.splits if_splits sum.splits)
  from 2(1) [OF m(1,2,3,4)] m(1,2) show ?case
    by (cases "k0 = []"; cases "df_Dimension m = []") auto
qed

section \<open>Properties\<close>

text \<open>
  C31.  A price matrix is built only from rates that are all matched, on one dimension (a rate may
  also leave its dimension empty), and it holds the matched values, one entry each, in ascending
  order, nothing lost and nothing added.
\<close>

theorem buildWirePrice_matrix:
  assumes "buildWirePrice rates = Inr (MatrixMachine m)"
  shows "\<exists>k. mx_DimensionKeys m = [k] \<and> k \<noteq> []
    \<and> (\<forall>r\<in>set rates. \<exists>f. rt_Match r = Some f \<and> df_Dimension f \<in> {k, []})
    \<and> map (\<lambda>d. hd (wd_DimensionValues d)) (mx_DimensionsPrices m)
        = sort (map (\<lambda>r. df_Value (the (rt_Match r))) rates)"
proof -
  from assms obtain k ds where m: "matched_rates rates [] [] = Inr (k, ds)" "k \<noteq> []"
    "mx_DimensionKeys m = [k]" "mx_DimensionsPrices m = sort_key (\<lambda>d. hd (wd_DimensionValues d)) ds"
    by (auto simp: buildWirePrice_def split: if_splits sum.splits prod.splits)
  from matched_rates_spec [OF m(1)] have s: "\<forall>r\<in>set rates. \<exists>f. rt_Match r = Some f \<and> df_Dimension f \<in> {k, []}"
    "map wd_DimensionValues ds = map (\<lambda>r. [df_Value (the (rt_Match r))]) rates" by simp_all
  from s(2) have "map (\<lambda>d. hd (wd_DimensionValues d)) ds = map (\<lambda>r. df_Value (the (rt_Match r))) rates"
    by (metis (no_types, lifting) list.map_comp list.sel(1) map_eq_conv o_apply)
  with m s(1) show ?thesis by (auto simp: map_sort_key)
qed

definition flat_rate :: "string \<Rightarrow> DesiredPlanRate" where
  "flat_rate v = \<lparr>rt_Match = Some \<lparr>df_Dimension = ''region'', df_Value = v\<rparr>, rt_Flat = Some fzero, rt_Tiers = []\<rparr>"

theorem buildWirePrice_matrix_witness:
  "\<exists>m. buildWirePrice [flat_rate ''b'', flat_rate ''a''] = Inr (MatrixMachine m)
     \<and> map (\<lambda>d. hd (wd_DimensionValues d)) (mx_DimensionsPrices m) = [''a'', ''b'']"
proof -
  obtain m where m: "buildWirePrice [flat_rate ''b'', flat_rate ''a''] = Inr (MatrixMachine m)"
    by (simp add: buildWirePrice_def leafFromRate_def Let_def flat_rate_def)
  moreover have "sort [''b'', ''a''] = [''a'', ''b'']" by code_simp
  ultimately show ?thesis
    using buildWirePrice_matrix [OF m] by (auto simp: flat_rate_def)
qed

text \<open>
  Every leaf price allows partial batches: the flag a desired tier carries has no effect,
  because the leaf starts out allowing them and a tier can only switch them on.  Every batch size
  on the wire is at least one when the tiers' are arbitrary integers.
\<close>

theorem leafFromRate_partial_batches:
  assumes "leafFromRate r = Inr l"
  shows "ln_AllowPartialBatch l \<and> (\<forall>t\<in>set (ln_Tiers l). wt_BatchSize t \<ge> 1)
    \<and> leafFromRate (r\<lparr>rt_Tiers := map (\<lambda>t. t\<lparr>dt_AllowPartialBatch := b\<rparr>) (rt_Tiers r)\<rparr>) = Inr l"
proof -
  have "fold (\<lambda>t b. if dt_AllowPartialBatch t then True else b) ts True" for ts
    by (induction ts) auto
  with assms show ?thesis
    by (auto simp: leafFromRate_def Let_def split: if_splits option.splits)
qed

theorem leafFromRate_partial_batches_witness:
  "leafFromRate \<lparr>rt_Match = None, rt_Flat = None, rt_Tiers = [\<lparr>dt_StartAfterUnit = 0, dt_BatchSize = 0,
      dt_PricePerBatch = fzero, dt_AllowPartialBatch = False\<rparr>]\<rparr>
   = Inr \<lparr>ln_Type = ''LeafNode'', ln_AllowPartialBatch = True,
       ln_Tiers = [\<lparr>wt_StartAfterUnit = 0, wt_BatchSize = 1, wt_PricePerBatch = fzero\<rparr>]\<rparr>"
proof -
  have "leafFromRate \<lparr>rt_Match = None, rt_Flat = None, rt_Tiers = [\<lparr>dt_StartAfterUnit = 0, dt_BatchSize = 0,
      dt_PricePerBatch = fzero, dt_AllowPartialBatch = True\<rparr>]\<rparr>
   = Inr \<lparr>ln_Type = ''LeafNode'', ln_AllowPartialBatch = True,
       ln_Tiers = [\<lparr>wt_StartAfterUnit = 0, wt_BatchSize = 1, wt_PricePerBatch = fzero\<rparr>]\<rparr>"
    by (simp add: leafFromRate_def)
  from leafFromRate_partial_batches [OF this, of False] show ?thesis by simp
qed

lemma byItem_distinct:
  "distinct (map pg_ProductItemID gens) \<Longrightarrow> byItem gens = map (\<lambda>g. (pg_ProductItemID g, g)) gens"
proof -
  have "fold (\<lambda>g m. AList.update (pg_ProductItemID g) g m) gs m = m @ map (\<lambda>g. (pg_ProductItemID g, g)) gs"
    if "distinct (map fst m @ map pg_ProductItemID gs)" for gs and m :: "(string \<times> wirePriceGenerator) list"
    using that
  proof (induction gs arbitrary: m)
    case (Cons g gs)
    then have "AList.update (pg_ProductItemID g) g m = m @ [(pg_ProductItemID g, g)]"
      by (induction m) auto
    with Cons show ?case by simp
  qed simp
  from this [of "[]" gens] show "distinct (map pg_ProductItemID gens) \<Longrightarrow> ?thesis" by (simp add: byItem_def)
qed

lemma map_equal_perm:
  assumes "wf_map b" "mset a = mset b" "\<And>v. eq v v"
  shows "map_equal eq a b"
proof -
  have "set a = set b" "length a = length b" using assms(2) by (metis set_mset_mset, metis size_mset)
  moreover from this assms(1) have "map_of b k = Some v" if "(k, v) \<in> set a" for k v
    using that by (simp add: wf_map_def)
  ultimately show ?thesis using assms(3) by (auto simp: map_equal_def list_all_iff)
qed

lemma jsonEqual_refl [simp]: "jsonEqual a a"
  by (auto simp: jsonEqual_def split: option.split)

lemma generator_eq_refl [simp]: "generator_eq g g" and fee_eq_refl [simp]: "fee_eq f f"
  by (simp_all add: generator_eq_def fee_eq_def f64_eq_def)

text \<open>
  C32.  A plan the server gives back unchanged needs no update, in whatever order it lists the map
  entries and the price generators, as long as no two generators share a product item.
\<close>

theorem productPlan_stable:
  assumes "wf_map (wpl_ProductItemPriceIdsMap w)" "wf_map (wpl_FeeMap w)"
    and "wpl_PlanGenerator w = Some g" "wf_map (gn_FeeMap g)"
    and "distinct (map pg_ProductItemID (gn_PriceGenerators g))"
    and "mset ids = mset (wpl_ProductItemPriceIdsMap w)" "mset fees = mset (wpl_FeeMap w)"
    and "mset gens = mset (gn_PriceGenerators g)" "mset gfees = mset (gn_FeeMap g)"
  shows "\<not> productPlanNeedsUpdate
    (w\<lparr>wpl_ProductItemPriceIdsMap := ids, wpl_FeeMap := fees,
       wpl_PlanGenerator := Some (g\<lparr>gn_PriceGenerators := gens, gn_FeeMap := gfees\<rparr>)\<rparr>) w"
proof -
  have "mset (map pg_ProductItemID gens) = mset (map pg_ProductItemID (gn_PriceGenerators g))"
    using assms(8) by simp
  with assms(5) have d: "distinct (map pg_ProductItemID gens)" by (metis mset_eq_imp_distinct_iff)
  have "length gens = length (gn_PriceGenerators g)" using assms(8) by (metis size_mset)
  moreover have "map_equal generator_eq (byItem gens) (byItem (gn_PriceGenerators g))"
    unfolding byItem_distinct [OF d] byItem_distinct [OF assms(5)]
    by (rule map_equal_perm) (use assms(5,8) in \<open>simp_all add: wf_map_def o_def\<close>)
  ultimately show ?thesis
    using map_equal_perm [OF assms(1,6), of "(=)"] map_equal_perm [OF assms(2,7), of fee_eq]
      map_equal_perm [OF assms(4,9), of fee_eq] assms(3)
    by (simp add: productPlanNeedsUpdate_def planGeneratorsEqual_def)
qed

definition sample_generator :: "string \<Rightarrow> wirePriceGenerator" where
  "sample_generator i = zero_priceGenerator\<lparr>pg_ProductItemID := i\<rparr>"

definition sample_wirePlan :: wireProductPlan where
  "sample_wirePlan = zero_productPlan\<lparr>wpl_ID := ''p'', wpl_PlanGenerator :=
     Some (zero_planGenerator\<lparr>gn_PriceGenerators := [sample_generator ''a'', sample_generator ''b'']\<rparr>)\<rparr>"

theorem productPlan_stable_witness:
  "\<not> productPlanNeedsUpdate
    (sample_wirePlan\<lparr>wpl_ProductItemPriceIdsMap := [], wpl_FeeMap := [], wpl_PlanGenerator :=
     Some (zero_planGenerator\<lparr>gn_PriceGenerators := [sample_generator ''b'', sample_generator ''a''], gn_FeeMap := []\<rparr>)\<rparr>)
    sample_wirePlan"
  using productPlan_stable [of sample_wirePlan
      "zero_planGenerator\<lparr>gn_PriceGenerators := [sample_generator ''a'', sample_generator ''b'']\<rparr>" "[]" "[]"
      "[sample_generator ''b'', sample_generator ''a'']" "[]"]
  by (simp add: sample_wirePlan_def sample_generator_def zero_productPlan_def zero_planGenerator_def)

end
