(* ===== verification/InvoiceApi.thy ===== *)
theory InvoiceApi
  imports Transport Url Float64
begin

text \<open>
  internal/amberflo/invoice.go: the invoice key, the invoice payload, and the three reads of
  customer-product invoices.
\<close>

section \<open>Data\<close>

definition defaultInvoiceProductID :: string where
  "defaultInvoiceProductID = ''1''"

definition PaymentStatusPrePayment :: string where "PaymentStatusPrePayment = ''PRE_PAYMENT''"
definition PaymentStatusRequiresAction :: string where "PaymentStatusRequiresAction = ''REQUIRES_ACTION''"
definition PaymentStatusPending :: string where "PaymentStatusPending = ''PENDING''"
definition PaymentStatusFailed :: string where "PaymentStatusFailed = ''FAILED''"
definition PaymentStatusSettled :: string where "PaymentStatusSettled = ''SETTLED''"
definition PaymentStatusNotNeeded :: string where "PaymentStatusNotNeeded = ''NOT_NEEDED''"
definition PaymentStatusUnknown :: string where "PaymentStatusUnknown = ''UNKNOWN''"

record InvoiceKey =
  ik_CustomerID :: string
  ik_ProductID :: string
  ik_ProductPlanID :: string
  ik_Year :: int
  ik_Month :: int
  ik_Day :: int

record ProductPlanBill =
  pb_TotalPrice :: float64

record CustomerProductInvoice =
  ci_InvoiceURI :: string
  ci_InvoiceKey :: InvoiceKey
  ci_InvoiceStartTimeInSeconds :: int
  ci_InvoiceEndTimeInSeconds :: int
  ci_GracePeriodInHours :: int
  ci_TotalBill :: ProductPlanBill
  ci_InvoicePriceStatus :: string
  ci_PaymentStatus :: string
  ci_PaymentCreatedInSeconds :: int
  ci_Raw :: string

definition key_complete :: "InvoiceKey \<Rightarrow> bool" where
  "key_complete k \<longleftrightarrow> ik_CustomerID k \<noteq> [] \<and> ik_ProductPlanID k \<noteq> [] \<and> ik_Year k > 0
     \<and> ik_Month k > 0 \<and> ik_Day k > 0"

definition zero_key :: InvoiceKey where
  "zero_key = \<lparr>ik_CustomerID = [], ik_ProductID = [], ik_ProductPlanID = [], ik_Year = 0, ik_Month = 0, ik_Day = 0\<rparr>"

definition zero_invoice :: CustomerProductInvoice where
  "zero_invoice = \<lparr>ci_InvoiceURI = [], ci_InvoiceKey = zero_key, ci_InvoiceStartTimeInSeconds = 0,
     ci_InvoiceEndTimeInSeconds = 0, ci_GracePeriodInHours = 0, ci_TotalBill = \<lparr>pb_TotalPrice = fzero\<rparr>,
     ci_InvoicePriceStatus = [], ci_PaymentStatus = [], ci_PaymentCreatedInSeconds = 0, ci_Raw = []\<rparr>"

definition key_fields :: "InvoiceKey fields" where
  "key_fields =
    [(''customerId'', field ik_CustomerID (\<lambda>x. ik_CustomerID_update (\<lambda>_. x)) dec_string),
     (''productId'', field ik_ProductID (\<lambda>x. ik_ProductID_update (\<lambda>_. x)) dec_string),
     (''productPlanId'', field ik_ProductPlanID (\<lambda>x. ik_ProductPlanID_update (\<lambda>_. x)) dec_string),
     (''year'', field ik_Year (\<lambda>x. ik_Year_update (\<lambda>_. x)) dec_int64),
     (''month'', field ik_Month (\<lambda>x. ik_Month_update (\<lambda>_. x)) dec_int64),
     (''day'', field ik_Day (\<lambda>x. ik_Day_update (\<lambda>_. x)) dec_int64)]"

definition bill_fields :: "ProductPlanBill fields" where
  "bill_fields = [(''totalPrice'', field pb_TotalPrice (\<lambda>x. pb_TotalPrice_update (\<lambda>_. x)) dec_float)]"

definition invoice_fields :: "CustomerProductInvoice fields" where
  "invoice_fields =
    [(''invoiceUri'', field ci_InvoiceURI (\<lambda>x. ci_InvoiceURI_update (\<lambda>_. x)) dec_string),
     (''invoiceKey'', field ci_InvoiceKey (\<lambda>x. ci_InvoiceKey_update (\<lambda>_. x)) (decode_struct key_fields)),
     (''invoiceStartTimeInSeconds'', field ci_InvoiceStartTimeInSeconds (\<lambda>x. ci_InvoiceStartTimeInSeconds_update (\<lambda>_. x)) dec_int64),
     (''invoiceEndTimeInSeconds'', field ci_InvoiceEndTimeInSeconds (\<lambda>x. ci_InvoiceEndTimeInSeconds_update (\<lambda>_. x)) dec_int64),
     (''gracePeriodInHours'', field ci_GracePeriodInHours (\<lambda>x. ci_GracePeriodInHours_update (\<lambda>_. x)) dec_int64),
     (''totalBill'', field ci_TotalBill (\<lambda>x. ci_TotalBill_update (\<lambda>_. x)) (decode_struct bill_fields)),
     (''invoicePriceStatus'', field ci_InvoicePriceStatus (\<lambda>x. ci_InvoicePriceStatus_update (\<lambda>_. x)) dec_string),
     (''paymentStatus'', field ci_PaymentStatus (\<lambda>x. ci_PaymentStatus_update (\<lambda>_. x)) dec_string),
     (''paymentCreatedInSeconds'', field ci_PaymentCreatedInSeconds (\<lambda>x. ci_PaymentCreatedInSeconds_update (\<lambda>_. x)) dec_int64)]"

definition dec_invoice :: "string \<Rightarrow> CustomerProductInvoice option" where
  "dec_invoice = unmarshal (decode_struct invoice_fields) zero_invoice"

definition dec_invoices :: "string \<Rightarrow> CustomerProductInvoice list option" where
  "dec_invoices = unmarshal (dec_list zero_invoice (decode_struct invoice_fields)) []"

text \<open>FormatInvoiceKey: the JSON of a key.\<close>

definition enc_key :: "InvoiceKey \<Rightarrow> json" where
  "enc_key k = JObj (omit_str ''customerId'' (ik_CustomerID k) @ omit_str ''productId'' (ik_ProductID k)
     @ omit_str ''productPlanId'' (ik_ProductPlanID k) @ omit_int ''year'' (ik_Year k)
     @ omit_int ''month'' (ik_Month k) @ omit_int ''day'' (ik_Day k))"

definition FormatInvoiceKey :: "InvoiceKey \<Rightarrow> string" where
  "FormatInvoiceKey k = print (enc_key k)"

definition dec_key :: "string \<Rightarrow> InvoiceKey option" where
  "dec_key = unmarshal (decode_struct key_fields) zero_key"

section \<open>Reads\<close>

definition invoiceListPath :: "string \<Rightarrow> bool \<Rightarrow> string" where
  "invoiceListPath customerID latest =
     ''/payments/billing/customer-product-invoice/all?'' @ Values_Encode
       ([(''customerId'', customerID), (''productId'', defaultInvoiceProductID), (''fromCache'', ''true''),
         (''withPaymentStatus'', ''true'')] @ (if latest then [(''latest'', ''true'')] else []))"

definition invoiceGetPath :: "InvoiceKey \<Rightarrow> string" where
  "invoiceGetPath key =
     ''/payments/billing/customer-product-invoice?'' @ Values_Encode
       [(''customerId'', ik_CustomerID key),
        (''productId'', if ik_ProductID key = [] then defaultInvoiceProductID else ik_ProductID key),
        (''productPlanId'', ik_ProductPlanID key), (''year'', itoa (ik_Year key)), (''month'', itoa (ik_Month key)),
        (''day'', itoa (ik_Day key)), (''fromCache'', ''true''), (''withPaymentStatus'', ''true'')]"

definition invoice_not_found :: "string \<Rightarrow> goerr" where
  "invoice_not_found x = Wrap [] (Sentinel ErrInvoiceNotFound) ('': '' @ x)"

definition ListInvoices :: "'w client \<Rightarrow> string \<Rightarrow> ('w net, goerr + CustomerProductInvoice list) io" where
  "ListInvoices c customerID =
     (if customerID = [] then ret (Inl (permanent ''customerID is required''))
      else do {
        r \<leftarrow> doJSON c ''GET'' (invoiceListPath customerID False) NoBody dec_invoices [];
        ret (case rp_err r of
          Some e \<Rightarrow> Inl e
        | None \<Rightarrow> if rp_body r = [] \<or> rp_body r = ''null'' then Inr [] else Inr (rp_val r))
      })"

text \<open>A successful answer without an invoice: empty, null or an empty object.\<close>

definition no_invoice :: "'a reply \<Rightarrow> bool" where
  "no_invoice r \<longleftrightarrow> rp_status r = 200 \<and> (rp_body r = [] \<or> rp_body r = ''null'' \<or> rp_body r = ''{}'')"

definition GetLatestInvoice :: "'w client \<Rightarrow> string \<Rightarrow> ('w net, goerr + CustomerProductInvoice) io" where
  "GetLatestInvoice c customerID =
     (if customerID = [] then ret (Inl (permanent ''customerID is required''))
      else do {
        r \<leftarrow> doJSON c ''GET'' (invoiceListPath customerID True) NoBody dec_invoice zero_invoice;
        ret (case rp_err r of
          Some e \<Rightarrow> if is_404 e then Inl (invoice_not_found customerID) else Inl e
        | None \<Rightarrow>
            if no_invoice r then Inl (invoice_not_found customerID)
            else Inr ((rp_val r)\<lparr>ci_Raw := rp_body r\<rparr>))
      })"

definition GetInvoice :: "'w client \<Rightarrow> InvoiceKey \<Rightarrow> ('w net, goerr + CustomerProductInvoice) io" where
  "GetInvoice c key =
     (if ik_CustomerID key = [] then ret (Inl (permanent ''InvoiceKey.CustomerID is required''))
      else if ik_ProductPlanID key = [] \<or> ik_Year key \<le> 0 \<or> ik_Month key \<le> 0 \<or> ik_Day key \<le> 0
      then ret (Inl (permanent ''InvoiceKey productPlanId, year, month, and day are required''))
      else do {
        r \<leftarrow> doJSON c ''GET'' (invoiceGetPath key) NoBody dec_invoice zero_invoice;
        ret (case rp_err r of
          Some e \<Rightarrow> if is_404 e then Inl (invoice_not_found (FormatInvoiceKey key)) else Inl e
        | None \<Rightarrow>
            if no_invoice r then Inl (invoice_not_found (FormatInvoiceKey key))
            else (let wire = (rp_val r)\<lparr>ci_Raw := rp_body r\<rparr> in
                  Inr (if ik_CustomerID (ci_InvoiceKey wire) = [] then wire\<lparr>ci_InvoiceKey := key\<rparr> else wire)))
      })"

section \<open>Facts\<close>

lemma key_field [dec_simps]:
  "map_of key_fields ''customerId'' = Some (field ik_CustomerID (\<lambda>x. ik_CustomerID_update (\<lambda>_. x)) dec_string)"
  "map_of key_fields ''productId'' = Some (field ik_ProductID (\<lambda>x. ik_ProductID_update (\<lambda>_. x)) dec_string)"
  "map_of key_fields ''productPlanId'' = Some (field ik_ProductPlanID (\<lambda>x. ik_ProductPlanID_update (\<lambda>_. x)) dec_string)"
  "map_of key_fields ''year'' = Some (field ik_Year (\<lambda>x. ik_Year_update (\<lambda>_. x)) dec_int64)"
  "map_of key_fields ''month'' = Some (field ik_Month (\<lambda>x. ik_Month_update (\<lambda>_. x)) dec_int64)"
  "map_of key_fields ''day'' = Some (field ik_Day (\<lambda>x. ik_Day_update (\<lambda>_. x)) dec_int64)"
  by (simp_all add: key_fields_def)

lemma enc_key_wf: "wf_json (enc_key k)"
  unfolding enc_key_def by (auto simp: omit_str_def omit_int_def)

section \<open>Properties\<close>

text \<open>
  C33.  An invoice key survives its annotation: the text of FormatInvoiceKey decodes to the same
  key, so two keys with the same text are equal.
\<close>

theorem FormatInvoiceKey_roundtrip:
  assumes "in_int64 (ik_Year k)" "in_int64 (ik_Month k)" "in_int64 (ik_Day k)"
  shows "dec_key (FormatInvoiceKey k) = Some k"
  using assms
  by (simp add: dec_key_def FormatInvoiceKey_def unmarshal_print enc_key_wf)
    (simp add: enc_key_def decode_struct_def decode_members_append zero_key_def dec_simps)

theorem FormatInvoiceKey_roundtrip_witness:
  "dec_key (FormatInvoiceKey \<lparr>ik_CustomerID = ''c<1>'', ik_ProductID = [], ik_ProductPlanID = ''p'', ik_Year = 2026,
     ik_Month = 3, ik_Day = 1\<rparr>) =
   Some \<lparr>ik_CustomerID = ''c<1>'', ik_ProductID = [], ik_ProductPlanID = ''p'', ik_Year = 2026, ik_Month = 3, ik_Day = 1\<rparr>"
  by (rule FormatInvoiceKey_roundtrip) (simp_all add: in_int64_def)

end
