(* ===== verification/InvoicePhase.thy ===== *)
theory InvoicePhase
  imports InvoiceApi
begin

text \<open>
  internal/invoice/phase.go: the phase of a Milo invoice, its due time, its amounts and its name,
  as functions of the Amberflo invoice and the clock.  The three phases are constants of the
  billing API, here constructors.
\<close>

datatype InvoicePhase = InvoicePhasePaid | InvoicePhasePastDue | InvoicePhaseOpen

text \<open>\<open>time.Duration(h) * time.Hour\<close> is a 64-bit product.\<close>

definition grace :: "CustomerProductInvoice \<Rightarrow> int" where
  "grace iv = wrap64 (ci_GracePeriodInHours iv * hour)"

definition pastDue :: "CustomerProductInvoice \<Rightarrow> int \<Rightarrow> bool" where
  "pastDue iv now \<longleftrightarrow>
     (if ci_InvoiceEndTimeInSeconds iv \<le> 0 then False
      else now > time_Unix (ci_InvoiceEndTimeInSeconds iv) + grace iv)"

definition DueTime :: "CustomerProductInvoice \<Rightarrow> int option" where
  "DueTime iv =
     (if ci_InvoiceEndTimeInSeconds iv \<le> 0 then None
      else Some (time_Unix (ci_InvoiceEndTimeInSeconds iv) + grace iv))"

definition MapPhase :: "CustomerProductInvoice \<Rightarrow> int \<Rightarrow> InvoicePhase" where
  "MapPhase iv now =
     (let st = ci_PaymentStatus iv in
      if st = PaymentStatusSettled \<or> st = PaymentStatusNotNeeded then InvoicePhasePaid
      else if st = PaymentStatusFailed then InvoicePhasePastDue
      else if st = PaymentStatusPrePayment \<or> st = PaymentStatusPending \<or> st = PaymentStatusRequiresAction then
        (if pastDue iv now then InvoicePhasePastDue else InvoicePhaseOpen)
      else if st = PaymentStatusUnknown \<or> st = [] then
        (if pastDue iv now then InvoicePhasePastDue else InvoicePhaseOpen)
      else (if pastDue iv now then InvoicePhasePastDue else InvoicePhaseOpen))"

definition FormatDecimal :: "float64 \<Rightarrow> string" where
  "FormatDecimal v = format_fixed2 v"

definition Amounts :: "float64 \<Rightarrow> InvoicePhase \<Rightarrow> string \<times> string \<times> string" where
  "Amounts tot phase =
     (let totalStr = FormatDecimal tot in
      case phase of
        InvoicePhasePaid \<Rightarrow> (totalStr, totalStr, FormatDecimal fzero)
      | _ \<Rightarrow> (totalStr, FormatDecimal fzero, totalStr))"

definition InvoiceName :: "string \<Rightarrow> int \<Rightarrow> string" where
  "InvoiceName accountName startSeconds =
     (let t = time_Unix startSeconds in accountName @ ''-'' @ pad 4 (Year t) @ ''-'' @ pad 2 (Month t))"

section \<open>Facts\<close>

lemma DueTime_pastDue: "pastDue iv now \<longleftrightarrow> (case DueTime iv of None \<Rightarrow> False | Some d \<Rightarrow> now > d)"
  by (simp add: pastDue_def DueTime_def)

lemma pastDue_mono: "pastDue iv now \<Longrightarrow> now \<le> now' \<Longrightarrow> pastDue iv now'"
  by (auto simp: pastDue_def split: if_splits)

lemma cents_zero: "format_fixed2 fzero = ''0.00''"
  by (simp add: format_fixed2_def cents_of_def f64_ratio_def pow2_ratio_def round_half_even_def Let_def
      pad2_def nat_digits.simps digit_char_def char_of_eq_iff take_bit_eq_mod)

section \<open>Properties\<close>

text \<open>
  C34.  The phase of an invoice: paid exactly when Amberflo reports it settled or not needed;
  past due when the payment failed, or the invoice is unpaid and its due time has passed; open
  otherwise.  Time only ever moves an invoice from open to past due.
\<close>

theorem MapPhase_spec:
  "(MapPhase iv now = InvoicePhasePaid
      \<longleftrightarrow> ci_PaymentStatus iv \<in> {PaymentStatusSettled, PaymentStatusNotNeeded})
   \<and> (MapPhase iv now = InvoicePhasePastDue
      \<longleftrightarrow> ci_PaymentStatus iv \<notin> {PaymentStatusSettled, PaymentStatusNotNeeded}
         \<and> (ci_PaymentStatus iv = PaymentStatusFailed
             \<or> (\<exists>d. DueTime iv = Some d \<and> now > d)))
   \<and> (now \<le> now' \<longrightarrow> MapPhase iv now \<noteq> InvoicePhaseOpen \<longrightarrow> MapPhase iv now' = MapPhase iv now)"
proof -
  have p: "pastDue iv t \<longleftrightarrow> (\<exists>d. DueTime iv = Some d \<and> t > d)" for t
    by (auto simp: DueTime_pastDue split: option.split)
  show ?thesis
    using pastDue_mono [of iv now now']
    by (auto simp: MapPhase_def Let_def p PaymentStatusSettled_def PaymentStatusNotNeeded_def PaymentStatusFailed_def)
qed

definition sample_invoice :: CustomerProductInvoice where
  "sample_invoice = zero_invoice\<lparr>ci_InvoiceStartTimeInSeconds := 1000, ci_InvoiceEndTimeInSeconds := 2000,
     ci_GracePeriodInHours := 1, ci_PaymentStatus := ''PENDING''\<rparr>"

theorem MapPhase_spec_witness: "MapPhase sample_invoice (2 * hour) = InvoicePhasePastDue"
proof -
  have "DueTime sample_invoice = Some (2000 * second + hour)"
    by (simp add: DueTime_def sample_invoice_def time_Unix_def grace_def in_int64_def)
  then show ?thesis
    using MapPhase_spec [of sample_invoice "2 * hour" "2 * hour"]
    by (simp add: sample_invoice_def PaymentStatusSettled_def PaymentStatusNotNeeded_def)
qed

text \<open>
  The amounts of an invoice: the total is the price rounded to the nearest cent, a paid
  invoice has it all paid and nothing due, any other invoice the reverse.
\<close>

theorem Amounts_spec:
  "\<exists>cents a b. f64_ratio m e = (a, b) \<and> 2 * (a * 100) \<le> 2 * (b * cents) + b \<and> 2 * (b * cents) \<le> 2 * (a * 100) + b
    \<and> (let text = nat_digits (cents div 100) @ ''.'' @ pad2 (cents mod 100) in
       Amounts (F64 False m e) phase =
         (if phase = InvoicePhasePaid then (text, text, ''0.00'') else (text, ''0.00'', text)))"
proof -
  obtain a b where r: "f64_ratio m e = (a, b)" by fastforce
  then have "b > 0" by (auto simp: f64_ratio_def pow2_ratio_def split: if_splits)
  note err = round_half_even_error [OF this, of "a * 100"]
  have c: "cents_of m e = round_half_even (a * 100) b" by (simp add: cents_of_def r)
  define text_of where "text_of n = nat_digits (n div 100) @ ''.'' @ pad2 (n mod 100)" for n
  have "format_fixed2 (F64 False m e) = text_of (cents_of m e)"
    by (simp add: format_fixed2_def text_of_def)
  then have "Amounts (F64 False m e) phase =
      (let t = text_of (cents_of m e) in if phase = InvoicePhasePaid then (t, t, ''0.00'') else (t, ''0.00'', t))"
    by (cases phase) (simp_all add: Amounts_def FormatDecimal_def cents_zero Let_def)
  note amounts = this [unfolded text_of_def]
  show ?thesis
    by (rule exI [of _ "cents_of m e"], rule exI [of _ a], rule exI [of _ b], intro conjI)
      (rule r, unfold c, rule err(1), rule err(2), use amounts in \<open>simp only: c Let_def\<close>)
qed

text \<open>
  Invoice names: one per account and calendar month of the start, so that two invoices of an
  account that start in the same month share one name, whatever their product plans are.
\<close>

theorem InvoiceName_month:
  assumes "Year (time_Unix s) = Year (time_Unix t)" "Month (time_Unix s) = Month (time_Unix t)"
  shows "InvoiceName a s = InvoiceName a t"
  using assms by (simp add: InvoiceName_def Let_def)

theorem InvoiceName_month_witness: "InvoiceName ''acme'' 86400 = InvoiceName ''acme'' 2000000"
proof -
  have "valid_date 1970 1 2" "valid_date 1970 1 24"
    by (simp_all add: valid_date_def month_lengths_def)
  moreover have "time_Unix 86400 = Date_utc 1970 1 2 + 0" "time_Unix 2000000 = Date_utc 1970 1 24 + 12800 * second"
    by (simp_all add: time_Unix_def in_int64_def Date_utc_def Date_days_def days_of_civil_def before_year_def)
  ultimately have "Year (time_Unix 86400) = 1970" "Month (time_Unix 86400) = 1"
    "Year (time_Unix 2000000) = 1970" "Month (time_Unix 2000000) = 1"
    using fields_of_date [of 1970 1 2 0] fields_of_date [of 1970 1 24 "12800 * second"] by simp_all
  then show ?thesis by (intro InvoiceName_month) simp_all
qed

end
