(* ===== verification/Kube.thy ===== *)
theory Kube
  imports GoTime Errors
begin

text \<open>
  What the controllers share: computations that leave a trace of the calls they made, the
  Kubernetes and billing API objects as far as the sources read and write them, the errors of the
  API server, and the finalizer helpers of controller-runtime as parameters with their laws.
\<close>

section \<open>Computations that leave a trace\<close>

text \<open>
  A component calls other services through an interface.  Its state is the world those services
  change, and the list of the calls made so far, each with what it returned.
\<close>

record ('w, 'e) traced_state =
  ts_world :: 'w
  ts_log :: "'e list"

type_synonym ('w, 'e, 'a) act = "(('w, 'e) traced_state, 'a) io"

definition perform :: "('w, 'a) io \<Rightarrow> ('a \<Rightarrow> 'e) \<Rightarrow> ('w, 'e, 'a) act" where
  "perform m g = State (\<lambda>s. case run_state m (ts_world s) of (x, w) \<Rightarrow>
     (x, s\<lparr>ts_world := w, ts_log := ts_log s @ [g x]\<rparr>))"

definition remark :: "'e \<Rightarrow> ('w, 'e, unit) act" where
  "remark e = State (\<lambda>s. ((), s\<lparr>ts_log := ts_log s @ [e]\<rparr>))"

lemma run_perform [run_simps]:
  "run_state (perform m g) s = (case run_state m (ts_world s) of (x, w) \<Rightarrow>
     (x, s\<lparr>ts_world := w, ts_log := ts_log s @ [g x]\<rparr>))"
  by (simp add: perform_def)

lemma run_remark [run_simps]: "run_state (remark e) s = ((), s\<lparr>ts_log := ts_log s @ [e]\<rparr>)"
  by (simp add: remark_def)

text \<open>\<open>leaves m R\<close>: whatever the services answer, \<open>R\<close> holds of the calls \<open>m\<close> makes and of its
  result.\<close>

definition leaves :: "('w, 'e, 'a) act \<Rightarrow> ('e list \<Rightarrow> 'a \<Rightarrow> bool) \<Rightarrow> bool" where
  "leaves m R \<longleftrightarrow> (\<forall>s x s'. run_state m s = (x, s') \<longrightarrow> (\<exists>es. ts_log s' = ts_log s @ es \<and> R es x))"

lemma leavesI:
  "(\<And>s x s'. run_state m s = (x, s') \<Longrightarrow> \<exists>es. ts_log s' = ts_log s @ es \<and> R es x) \<Longrightarrow> leaves m R"
  unfolding leaves_def by blast

lemma leavesD:
  "leaves m R \<Longrightarrow> run_state m s = (x, s') \<Longrightarrow> \<exists>es. ts_log s' = ts_log s @ es \<and> R es x"
  unfolding leaves_def by blast

lemma leaves_weaken: "leaves m R \<Longrightarrow> (\<And>es x. R es x \<Longrightarrow> R' es x) \<Longrightarrow> leaves m R'"
  unfolding leaves_def by blast

lemma leaves_ret: "R [] x \<Longrightarrow> leaves (ret x) R"
  unfolding leaves_def by (auto simp: run_simps)

lemma leaves_remark: "R [e] () \<Longrightarrow> leaves (remark e) R"
  unfolding leaves_def by (auto simp: run_simps)

lemma leaves_perform: "(\<And>x. R [g x] x) \<Longrightarrow> leaves (perform m g) R"
  unfolding leaves_def by (auto simp: run_simps split: prod.splits)

lemma leaves_bind:
  assumes "leaves m (\<lambda>es x. leaves (f x) (\<lambda>es'. R (es @ es')))"
  shows "leaves (State_Monad.bind m f) R"
proof (rule leavesI)
  fix s y s' assume "run_state (State_Monad.bind m f) s = (y, s')"
  then obtain x t where m: "run_state m s = (x, t)" and f: "run_state (f x) t = (y, s')"
    by (cases "run_state m s") (auto simp: run_simps)
  from leavesD [OF assms m] obtain es where es: "ts_log t = ts_log s @ es"
    "leaves (f x) (\<lambda>es'. R (es @ es'))" by blast
  from leavesD [OF es(2) f] es(1) show "\<exists>es. ts_log s' = ts_log s @ es \<and> R es y" by auto
qed

lemma leaves_perform_bind:
  "(\<And>x. leaves (f x) (\<lambda>es. R (g x # es))) \<Longrightarrow> leaves (State_Monad.bind (perform m g) f) R"
  by (rule leaves_bind, rule leaves_perform) simp

lemma leaves_remark_bind:
  "leaves (f ()) (\<lambda>es. R (e # es)) \<Longrightarrow> leaves (State_Monad.bind (remark e) f) R"
  by (rule leaves_bind, rule leaves_remark) simp

lemma leaves_if:
  "(b \<Longrightarrow> leaves m R) \<Longrightarrow> (\<not> b \<Longrightarrow> leaves n R) \<Longrightarrow> leaves (if b then m else n) R"
  by simp

lemma leaves_option:
  "(x = None \<Longrightarrow> leaves m R) \<Longrightarrow> (\<And>y. x = Some y \<Longrightarrow> leaves (f y) R)
     \<Longrightarrow> leaves (case x of None \<Rightarrow> m | Some y \<Rightarrow> f y) R"
  by (cases x) simp_all

lemma leaves_sum:
  "(\<And>e. x = Inl e \<Longrightarrow> leaves (f e) R) \<Longrightarrow> (\<And>y. x = Inr y \<Longrightarrow> leaves (g y) R)
     \<Longrightarrow> leaves (case x of Inl e \<Rightarrow> f e | Inr y \<Rightarrow> g y) R"
  by (cases x) simp_all

text \<open>\<open>keeps I m\<close>: \<open>m\<close> preserves \<open>I\<close> of the world and the trace together.\<close>

definition keeps :: "(('w, 'e) traced_state \<Rightarrow> bool) \<Rightarrow> ('w, 'e, 'a) act \<Rightarrow> bool" where
  "keeps I m \<longleftrightarrow> (\<forall>s x s'. run_state m s = (x, s') \<longrightarrow> I s \<longrightarrow> I s')"

lemma keepsD: "keeps I m \<Longrightarrow> run_state m s = (x, s') \<Longrightarrow> I s \<Longrightarrow> I s'"
  unfolding keeps_def by blast

lemma keeps_ret: "keeps I (ret x)"
  by (simp add: keeps_def run_simps)

lemma keeps_bind: "keeps I m \<Longrightarrow> (\<And>x. keeps I (f x)) \<Longrightarrow> keeps I (State_Monad.bind m f)"
  unfolding keeps_def by (auto simp: run_simps split: prod.splits)

lemma keeps_if: "keeps I m \<Longrightarrow> keeps I n \<Longrightarrow> keeps I (if b then m else n)"
  by simp

lemma keeps_option: "keeps I m \<Longrightarrow> (\<And>y. keeps I (f y)) \<Longrightarrow> keeps I (case x of None \<Rightarrow> m | Some y \<Rightarrow> f y)"
  by (cases x) simp_all

lemma keeps_sum: "(\<And>e. keeps I (f e)) \<Longrightarrow> (\<And>y. keeps I (g y)) \<Longrightarrow> keeps I (case x of Inl e \<Rightarrow> f e | Inr y \<Rightarrow> g y)"
  by (cases x) simp_all

lemmas keeps_intros = keeps_ret keeps_bind keeps_if keeps_option keeps_sum

text \<open>The rules for \<open>leaves\<close>, most specific first.\<close>

lemmas leaves_intros =
  leaves_ret leaves_remark leaves_perform leaves_if leaves_option leaves_sum
  leaves_perform_bind leaves_remark_bind

text \<open>\<open>only P m\<close>: every call \<open>m\<close> makes satisfies \<open>P\<close>.\<close>

definition only :: "('e \<Rightarrow> bool) \<Rightarrow> ('w, 'e, 'a) act \<Rightarrow> bool" where
  "only P m \<longleftrightarrow> leaves m (\<lambda>es _. \<forall>e\<in>set es. P e)"

lemma only_ret: "only P (ret x)"
  unfolding only_def by (rule leaves_ret) simp

lemma only_remark: "P e \<Longrightarrow> only P (remark e)"
  unfolding only_def by (rule leaves_remark) simp

lemma only_perform: "(\<And>x. P (g x)) \<Longrightarrow> only P (perform m g)"
  unfolding only_def by (rule leaves_perform) simp

lemma only_bind:
  assumes "only P m" "\<And>x. only P (f x)"
  shows "only P (State_Monad.bind m f)"
  unfolding only_def
  by (rule leaves_bind, rule leaves_weaken [OF assms(1) [unfolded only_def]],
      rule leaves_weaken [OF assms(2) [unfolded only_def]]) auto

lemma only_if: "(b \<Longrightarrow> only P m) \<Longrightarrow> (\<not> b \<Longrightarrow> only P n) \<Longrightarrow> only P (if b then m else n)"
  by simp

lemma only_option:
  "(x = None \<Longrightarrow> only P m) \<Longrightarrow> (\<And>y. x = Some y \<Longrightarrow> only P (f y)) \<Longrightarrow> only P (case x of None \<Rightarrow> m | Some y \<Rightarrow> f y)"
  by (cases x) simp_all

lemma only_sum:
  "(\<And>e. x = Inl e \<Longrightarrow> only P (f e)) \<Longrightarrow> (\<And>y. x = Inr y \<Longrightarrow> only P (g y))
     \<Longrightarrow> only P (case x of Inl e \<Rightarrow> f e | Inr y \<Rightarrow> g y)"
  by (cases x) simp_all

lemmas only_intros = only_ret only_remark only_perform only_bind only_if only_option only_sum

lemma only_weaken: "only P m \<Longrightarrow> (\<And>e. P e \<Longrightarrow> Q e) \<Longrightarrow> only Q m"
  unfolding only_def by (erule leaves_weaken) blast

lemma onlyD: "only P m \<Longrightarrow> run_state m s = (x, s') \<Longrightarrow> \<exists>es. ts_log s' = ts_log s @ es \<and> (\<forall>e\<in>set es. P e)"
  unfolding only_def by (rule leavesD)

text \<open>Two facts about the calls of one computation hold together.\<close>

lemma leaves_conj: "leaves m P \<Longrightarrow> leaves m Q \<Longrightarrow> leaves m (\<lambda>es x. P es x \<and> Q es x)"
proof (rule leavesI)
  fix s x s' assume "leaves m P" "leaves m Q" "run_state m s = (x, s')"
  from leavesD [OF this(1,3)] leavesD [OF this(2,3)]
  show "\<exists>es. ts_log s' = ts_log s @ es \<and> P es x \<and> Q es x" by auto
qed

section \<open>Errors of the API server and results of a reconcile\<close>

text \<open>\<open>apierrors.IsNotFound\<close>, \<open>IsAlreadyExists\<close>, \<open>IsForbidden\<close> look at the reason of a status
  error; every other error of the Kubernetes client is a text.\<close>

datatype kerr = NotFound | AlreadyExists | Forbidden | OtherKubeError string

datatype rerr = KubeErr string kerr | AmberfloErr goerr | TextErr string

record ctrl_result =
  RequeueAfter :: int

type_synonym reconciled = "ctrl_result \<times> rerr option"

definition done_ok :: reconciled where
  "done_ok = (\<lparr>RequeueAfter = 0\<rparr>, None)"

definition requeue_after :: "int \<Rightarrow> reconciled" where
  "requeue_after d = (\<lparr>RequeueAfter = d\<rparr>, None)"

definition failed_with :: "rerr \<Rightarrow> reconciled" where
  "failed_with e = (\<lparr>RequeueAfter = 0\<rparr>, Some e)"

definition prefix_err :: "string \<Rightarrow> rerr \<Rightarrow> rerr" where
  "prefix_err t e = (case e of KubeErr u k \<Rightarrow> KubeErr (t @ u) k
     | AmberfloErr g \<Rightarrow> AmberfloErr (Wrap t g []) | TextErr u \<Rightarrow> TextErr (t @ u))"

text \<open>controller-runtime calls a reconciler again after an error or a positive delay.\<close>

definition comes_back :: "reconciled \<Rightarrow> bool" where
  "comes_back r \<longleftrightarrow> RequeueAfter (fst r) > 0 \<or> snd r \<noteq> None"

definition transientRequeueAfter :: int where
  "transientRequeueAfter = 30 * second"

definition permanentDisableRequeueAfter :: int where
  "permanentDisableRequeueAfter = 5 * minute"

lemma comes_back_simps [simp]:
  "\<not> comes_back done_ok" "comes_back (requeue_after d) \<longleftrightarrow> d > 0" "comes_back (failed_with e)"
  by (simp_all add: comes_back_def done_ok_def requeue_after_def failed_with_def)

lemma requeue_pos [simp]: "transientRequeueAfter > 0" "permanentDisableRequeueAfter > 0"
  by (simp_all add: transientRequeueAfter_def permanentDisableRequeueAfter_def)

section \<open>Kubernetes objects\<close>

record OwnerReference =
  or_APIVersion :: string
  or_Kind :: string
  or_Name :: string
  or_UID :: string
  or_Controller :: "bool option"
  or_BlockOwnerDeletion :: "bool option"

record ObjectMeta =
  om_Name :: string
  om_Namespace :: string
  om_UID :: string
  om_Generation :: int
  om_Annotations :: strmap
  om_Finalizers :: "string list"
  om_DeletionTimestamp :: "int option"
  om_OwnerReferences :: "OwnerReference list"

definition named_meta :: "string \<Rightarrow> string \<Rightarrow> string \<Rightarrow> ObjectMeta" where
  "named_meta ns name uid = \<lparr>om_Name = name, om_Namespace = ns, om_UID = uid, om_Generation = 0,
     om_Annotations = [], om_Finalizers = [], om_DeletionTimestamp = None, om_OwnerReferences = []\<rparr>"

text \<open>\<open>DeletionTimestamp.IsZero()\<close> is true of a nil pointer and of the zero time.\<close>

definition deleting :: "ObjectMeta \<Rightarrow> bool" where
  "deleting m \<longleftrightarrow> (case om_DeletionTimestamp m of None \<Rightarrow> False | Some t \<Rightarrow> t \<noteq> zero_time)"

text \<open>The finalizer helpers of controllerutil, on the finalizer list of an object.\<close>

record finalizer_lib =
  fl_Contains :: "string list \<Rightarrow> string \<Rightarrow> bool"
  fl_Add :: "string list \<Rightarrow> string \<Rightarrow> string list"
  fl_Remove :: "string list \<Rightarrow> string \<Rightarrow> string list"

definition finalizer_laws :: "finalizer_lib \<Rightarrow> bool" where
  "finalizer_laws u \<longleftrightarrow>
     (\<forall>fs f. fl_Contains u fs f \<longleftrightarrow> f \<in> set fs)
   \<and> (\<forall>fs f. set (fl_Add u fs f) = insert f (set fs))
   \<and> (\<forall>fs f. set (fl_Remove u fs f) = set fs - {f})"

definition list_finalizers :: finalizer_lib where
  "list_finalizers = \<lparr>fl_Contains = (\<lambda>fs f. f \<in> set fs),
     fl_Add = (\<lambda>fs f. if f \<in> set fs then fs else fs @ [f]), fl_Remove = (\<lambda>fs f. removeAll f fs)\<rparr>"

lemma list_finalizers_laws: "finalizer_laws list_finalizers"
  by (auto simp: finalizer_laws_def list_finalizers_def)

section \<open>Objects of the billing API\<close>

record Condition =
  co_Type :: string
  co_Status :: string
  co_Reason :: string
  co_Message :: string
  co_ObservedGeneration :: int
  co_LastTransitionTime :: int

record BillingPaymentTerms =
  bt_NetDays :: int
  bt_InvoiceFrequency :: string
  bt_InvoiceDayOfMonth :: int

record BillingAccount =
  ba_Meta :: ObjectMeta
  ba_CurrencyCode :: string
  ba_ContactEmail :: "string option"
  ba_PaymentTerms :: "BillingPaymentTerms option"
  ba_DefaultPaymentMethodRef :: "string option"
  ba_Conditions :: "Condition list"

definition plain_account :: "string \<Rightarrow> string \<Rightarrow> string \<Rightarrow> BillingAccount" where
  "plain_account ns name uid = \<lparr>ba_Meta = named_meta ns name uid, ba_CurrencyCode = [],
     ba_ContactEmail = None, ba_PaymentTerms = None, ba_DefaultPaymentMethodRef = None, ba_Conditions = []\<rparr>"

abbreviation ba_Name :: "BillingAccount \<Rightarrow> string" where "ba_Name a \<equiv> om_Name (ba_Meta a)"
abbreviation ba_Namespace :: "BillingAccount \<Rightarrow> string" where "ba_Namespace a \<equiv> om_Namespace (ba_Meta a)"
abbreviation ba_UID :: "BillingAccount \<Rightarrow> string" where "ba_UID a \<equiv> om_UID (ba_Meta a)"

datatype MeterPhase = PhaseDraft | PhasePublished | PhaseDeprecated | PhaseOther string

datatype MeterAggregation =
  MeterAggregationSum | MeterAggregationCount | MeterAggregationUniqueCount | OtherAggregation string

record MeterDefinition =
  md_Meta :: ObjectMeta
  md_MeterName :: string
  md_DisplayName :: string
  md_Phase :: MeterPhase
  md_Aggregation :: MeterAggregation
  md_Unit :: string
  md_Dimensions :: "string list"

end
