(* ===== verification/Submission.thy ===== *)
theory Submission
  imports Kube PaymentSwitch Meter Sha
begin

text \<open>
  internal/submission: the consumer that takes validated CloudEvents from JetStream and submits
  them to the Amberflo ingest API, and the two informer-fed caches it resolves names with.
  The CloudEvents library and the ULID library are parameters; a JetStream message is its subject
  and its data, and acknowledging it is a call in the trace.
\<close>

section \<open>The caches\<close>

type_synonym cache = "string \<rightharpoonup> string"

definition empty_cache :: cache where
  "empty_cache = (\<lambda>_. None)"

text \<open>billingaccount_cache.go: UIDs of billing accounts by name.\<close>

definition BillingAccountCache_upsert :: "BillingAccount \<Rightarrow> cache \<Rightarrow> cache" where
  "BillingAccountCache_upsert a uidByName = uidByName(ba_Name a \<mapsto> ba_UID a)"

definition BillingAccountCache_delete :: "BillingAccount \<Rightarrow> cache \<Rightarrow> cache" where
  "BillingAccountCache_delete a uidByName = uidByName(ba_Name a := None)"

definition GetUID :: "cache \<Rightarrow> string \<Rightarrow> string option" where
  "GetUID uidByName name = uidByName name"

text \<open>meterdefinition_cache.go: Amberflo meter names of published and deprecated meters by meter
  name.\<close>

definition MeterDefinitionCache_delete :: "MeterDefinition \<Rightarrow> cache \<Rightarrow> cache" where
  "MeterDefinitionCache_delete md apiNameByMeterName = apiNameByMeterName(md_MeterName md := None)"

definition MeterDefinitionCache_upsert :: "MeterDefinition \<Rightarrow> cache \<Rightarrow> cache" where
  "MeterDefinitionCache_upsert md apiNameByMeterName =
     (if md_Phase md \<noteq> PhasePublished \<and> md_Phase md \<noteq> PhaseDeprecated
      then MeterDefinitionCache_delete md apiNameByMeterName
      else apiNameByMeterName(md_MeterName md \<mapsto> MeterAPIName (om_Name (md_Meta md))))"

definition GetAPIName :: "cache \<Rightarrow> string \<Rightarrow> string option" where
  "GetAPIName apiNameByMeterName meterName = apiNameByMeterName meterName"

text \<open>The informer's handlers: an added or updated object is upserted, a deleted one deleted; the
  last known state in a tombstone counts as the object, any other object is ignored.\<close>

datatype 'o informer_event =
    Added 'o
  | Updated 'o 'o
  | Deleted 'o
  | DeletedFinalStateUnknown "'o option"

definition handle_event :: "('o \<Rightarrow> 's \<Rightarrow> 's) \<Rightarrow> ('o \<Rightarrow> 's \<Rightarrow> 's) \<Rightarrow> 'o informer_event \<Rightarrow> 's \<Rightarrow> 's" where
  "handle_event ups del e m = (case e of
      Added a \<Rightarrow> ups a m
    | Updated _ a \<Rightarrow> ups a m
    | Deleted a \<Rightarrow> del a m
    | DeletedFinalStateUnknown (Some a) \<Rightarrow> del a m
    | DeletedFinalStateUnknown None \<Rightarrow> m)"

definition BillingAccountCache_events :: "BillingAccount informer_event list \<Rightarrow> cache" where
  "BillingAccountCache_events es =
     fold (handle_event BillingAccountCache_upsert BillingAccountCache_delete) es empty_cache"

definition MeterDefinitionCache_events :: "MeterDefinition informer_event list \<Rightarrow> cache" where
  "MeterDefinitionCache_events es =
     fold (handle_event MeterDefinitionCache_upsert MeterDefinitionCache_delete) es empty_cache"

section \<open>ingest.go\<close>

record 'u ulid_lib =
  ul_Timestamp :: "int \<Rightarrow> 64 word"
  ul_New :: "64 word \<Rightarrow> nat list \<Rightarrow> string + 'u"
  ul_String :: "'u \<Rightarrow> string"

definition ulidFromEventID :: "'u ulid_lib \<Rightarrow> string \<Rightarrow> int \<Rightarrow> string + string" where
  "ulidFromEventID u ceID ceTime =
     (let entropy = take 10 (sha256 ceID); ms = ul_Timestamp u ceTime
      in case ul_New u ms entropy of Inl e \<Rightarrow> Inl e | Inr i \<Rightarrow> Inr (ul_String u i))"

section \<open>submission.go\<close>

record eventData =
  ed_Value :: string
  ed_Dimensions :: strmap

definition zero_eventData :: eventData where
  "zero_eventData = \<lparr>ed_Value = [], ed_Dimensions = []\<rparr>"

definition eventData_fields :: "eventData fields" where
  "eventData_fields =
    [(''value'', field ed_Value (\<lambda>x. ed_Value_update (\<lambda>_. x)) dec_string),
     (''dimensions'', field ed_Dimensions (\<lambda>x. ed_Dimensions_update (\<lambda>_. x)) (dec_map [] dec_string))]"

definition dec_eventData :: "string \<Rightarrow> eventData option" where
  "dec_eventData = unmarshal (decode_struct eventData_fields) zero_eventData"

text \<open>The CloudEvents library: reading an event from JSON, its attributes, the value of an
  extension attribute (nil or a value, with its \<open>%v\<close> text), and \<open>DataAs\<close>, which passes the data
  to the decoder of the target type or fails.  An error is its text.\<close>

record ('v, 'x) ce_lib =
  ce_parse :: "string \<Rightarrow> string + 'v"
  ce_ID :: "'v \<Rightarrow> string"
  ce_Type :: "'v \<Rightarrow> string"
  ce_Time :: "'v \<Rightarrow> int"
  ce_Extensions :: "'v \<Rightarrow> (string \<times> 'x option) list"
  ce_text :: "'x \<Rightarrow> string"
  ce_DataAs :: "(string \<Rightarrow> eventData option) \<Rightarrow> 'v \<Rightarrow> string + eventData"

definition billingAccountRefExtension :: string where
  "billingAccountRefExtension = ''billingaccountref''"

text \<open>\<open>fmt.Sscanf(s, "%d", &n)\<close>: leading white space other than a newline is skipped, then an
  optional sign and the longest run of digits is read as an int64; what follows is not looked at.\<close>

definition Sscanf_d :: "string \<Rightarrow> int option" where
  "Sscanf_d s =
     (case split_sign (trim_by (removeAll [CHR 0x0A] space_runes) s) of (neg, t) \<Rightarrow>
        let ds = takeWhile is_digit t
        in if ds = [] then None
           else let v = (if neg then - int (digits_value 0 ds) else int (digits_value 0 ds))
                in if in_int64 v then Some v else None)"

record message =
  ms_Subject :: string
  ms_Data :: string
  ms_Timestamp :: "int option"

datatype prepare_error = permanentValidationError string | cacheMiss string

fun isPermanentValidationError :: "prepare_error \<Rightarrow> bool" where
  "isPermanentValidationError (permanentValidationError _) = True"
| "isPermanentValidationError (cacheMiss _) = False"

record ('v, 'x, 'u) consumer =
  sc_ce :: "('v, 'x) ce_lib"
  sc_ulid :: "'u ulid_lib"
  sc_BillingAccountCache :: cache
  sc_MeterCache :: cache
  sc_FetchBatch :: int
  sc_RetryAfter :: int
  sc_AckWait :: int
  sc_FetchTimeout :: int

text \<open>The defaults \<open>Start\<close> fills in before it subscribes.\<close>

definition start_defaults :: "('v, 'x, 'u) consumer \<Rightarrow> ('v, 'x, 'u) consumer" where
  "start_defaults c =
     c\<lparr>sc_FetchBatch := if sc_FetchBatch c \<le> 0 then 1 else sc_FetchBatch c,
       sc_RetryAfter := if sc_RetryAfter c \<le> 0 then 5 * second else sc_RetryAfter c,
       sc_AckWait := if sc_AckWait c \<le> 0 then 30 * second else sc_AckWait c,
       sc_FetchTimeout := if sc_FetchTimeout c \<le> 0 then 5 * second else sc_FetchTimeout c\<rparr>"

definition prepareRecord :: "('v, 'x, 'u) consumer \<Rightarrow> message \<Rightarrow> prepare_error + UsageRecord" where
  "prepareRecord c msg =
    (let L = sc_ce c in
     case ce_parse L (ms_Data msg) of
       Inl e \<Rightarrow> Inl (permanentValidationError e)
     | Inr ce \<Rightarrow>
       (case map_of (ce_Extensions L ce) billingAccountRefExtension of
          None \<Rightarrow> Inl (permanentValidationError ''missing billingaccountref'')
        | Some None \<Rightarrow> Inl (permanentValidationError ''missing billingaccountref'')
        | Some (Some ref) \<Rightarrow>
          (let baName = ce_text L ref in
           case GetUID (sc_BillingAccountCache c) baName of
             None \<Rightarrow> Inl (cacheMiss (''BillingAccount '' @ print_str baName @ '' not found in cache''))
           | Some customerID \<Rightarrow>
             (case GetAPIName (sc_MeterCache c) (ce_Type L ce) of
                None \<Rightarrow> Inl (cacheMiss (''MeterDefinition '' @ print_str (ce_Type L ce) @ '' not found in cache''))
              | Some meterAPIName \<Rightarrow>
                (case ce_DataAs L dec_eventData ce of
                   Inl e \<Rightarrow> Inl (permanentValidationError e)
                 | Inr data \<Rightarrow>
                   (case Sscanf_d (ed_Value data) of
                      None \<Rightarrow> Inl (permanentValidationError ''value is not an int64'')
                    | Some meterValue \<Rightarrow>
                      (case ulidFromEventID (sc_ulid c) (ce_ID L ce) (ce_Time L ce) of
                         Inl e \<Rightarrow> Inl (permanentValidationError e)
                       | Inr uniqueID \<Rightarrow> Inr
                         \<lparr>ur_CustomerID = customerID, ur_MeterAPIName = meterAPIName,
                          ur_MeterValue = meterValue, ur_UniqueID = uniqueID,
                          ur_UTCTimeMillis = unix_millis (ce_Time L ce),
                          ur_Dimensions = ed_Dimensions data\<rparr>)))))))"

text \<open>The calls of the consumer: a submission with its outcome, an acknowledgement, a negative one
  with its delay, and the two metrics: the counter of a label, and the gauge of the age of the
  oldest message (its value in nanoseconds).  Errors of acknowledging are only logged.\<close>

datatype step =
    Submit "UsageRecord list" "goerr option"
  | Ack message
  | NakWithDelay message int
  | Counted string
  | setOldestUnsubmittedAge int

fun act_each :: "('a \<Rightarrow> ('w, 'e, unit) act) \<Rightarrow> 'a list \<Rightarrow> ('w, 'e, unit) act" where
  "act_each f [] = ret ()"
| "act_each f (x # xs) = do { f x; act_each f xs }"

definition settle :: "string \<Rightarrow> message \<Rightarrow> ('w, step, unit) act" where
  "settle label msg = do { remark (Counted label); remark (Ack msg) }"

definition put_back :: "('v, 'x, 'u) consumer \<Rightarrow> message \<Rightarrow> ('w, step, unit) act" where
  "put_back c msg = do { remark (Counted ''transient''); remark (NakWithDelay msg (sc_RetryAfter c)) }"

text \<open>The first loop of \<open>processMessages\<close>: what cannot be submitted is settled or put back at once.\<close>

fun validate :: "('v, 'x, 'u) consumer \<Rightarrow> message list \<Rightarrow> ('w, step, (message \<times> UsageRecord) list) act" where
  "validate c [] = ret []"
| "validate c (msg # msgs) =
     (case prepareRecord c msg of
        Inl err \<Rightarrow> do {
          (if isPermanentValidationError err then settle ''permanent'' msg
           else remark (NakWithDelay msg (sc_RetryAfter c)));
          validate c msgs
        }
      | Inr r \<Rightarrow> do {
          rest \<leftarrow> validate c msgs;
          ret ((msg, r) # rest)
        })"

definition submit_one :: "('v, 'x, 'u) consumer \<Rightarrow> (UsageRecord list \<Rightarrow> ('w, goerr option) io)
    \<Rightarrow> message \<times> UsageRecord \<Rightarrow> ('w, step, unit) act" where
  "submit_one c submit mr = do {
     e \<leftarrow> perform (submit [snd mr]) (Submit [snd mr]);
     case e of
       None \<Rightarrow> settle ''success'' (fst mr)
     | Some err \<Rightarrow> if IsPermanent err then settle ''permanent'' (fst mr) else put_back c (fst mr)
   }"

definition processMessages :: "('v, 'x, 'u) consumer \<Rightarrow> (UsageRecord list \<Rightarrow> ('w, goerr option) io)
    \<Rightarrow> message list \<Rightarrow> ('w, step, unit) act" where
  "processMessages c submit msgs = do {
     valid \<leftarrow> validate c msgs;
     (if valid = [] then ret ()
      else do {
        e \<leftarrow> perform (submit (map snd valid)) (Submit (map snd valid));
        case e of
          None \<Rightarrow> act_each (settle ''success'') (map fst valid)
        | Some err \<Rightarrow>
            if IsPermanent err then act_each (submit_one c submit) valid
            else act_each (put_back c) (map fst valid)
      })
   }"

text \<open>The loop of \<open>Start\<close>, on what the fetches give until the context is cancelled: nothing, or a
  batch, met with the caches as they are then and at a moment of time.\<close>

datatype fetch = FetchFailed | Fetched cache cache int "message list"

fun fetched :: "fetch \<Rightarrow> message list" where
  "fetched FetchFailed = []"
| "fetched (Fetched A M now msgs) = msgs"

text \<open>The oldest time among the messages that have one, or the zero time.\<close>

fun oldestTimestamp :: "int \<Rightarrow> message list \<Rightarrow> int" where
  "oldestTimestamp t [] = t"
| "oldestTimestamp t (msg # msgs) = oldestTimestamp
     (case ms_Timestamp msg of
        None \<Rightarrow> t
      | Some u \<Rightarrow> if u \<noteq> zero_time \<and> (t = zero_time \<or> u < t) then u else t) msgs"

text \<open>\<open>time.Since\<close> saturates.\<close>

definition time_since :: "int \<Rightarrow> int \<Rightarrow> int" where
  "time_since now t = max (- (2 ^ 63)) (min (2 ^ 63 - 1) (now - t))"

fun consume :: "('v, 'x, 'u) consumer \<Rightarrow> (UsageRecord list \<Rightarrow> ('w, goerr option) io)
    \<Rightarrow> fetch list \<Rightarrow> ('w, step, unit) act" where
  "consume c submit [] = remark (setOldestUnsubmittedAge 0)"
| "consume c submit (FetchFailed # fs) = consume c submit fs"
| "consume c submit (Fetched A M now msgs # fs) = do {
     (if oldestTimestamp zero_time msgs \<noteq> zero_time
      then remark (setOldestUnsubmittedAge (time_since now (oldestTimestamp zero_time msgs))) else ret ());
     (if length msgs > 0 then processMessages (c\<lparr>sc_BillingAccountCache := A, sc_MeterCache := M\<rparr>) submit msgs
      else ret ());
     remark (setOldestUnsubmittedAge 0);
     consume c submit fs
   }"

text \<open>\<open>Start\<close> returns an error if the caches do not sync or JetStream cannot be set up.\<close>

definition Start :: "('v, 'x, 'u) consumer \<Rightarrow> bool \<Rightarrow> string option \<Rightarrow> string option
    \<Rightarrow> (UsageRecord list \<Rightarrow> ('w, goerr option) io) \<Rightarrow> fetch list \<Rightarrow> ('w, step, string option) act" where
  "Start c synced js_err cons_err submit fs =
     (let c = start_defaults c in
      if \<not> synced then ret (Some ''submission consumer: cache sync failed or context cancelled'')
      else case js_err of
        Some e \<Rightarrow> ret (Some (''submission consumer: create jetstream context: '' @ e))
      | None \<Rightarrow>
        (case cons_err of
           Some e \<Rightarrow> ret (Some (''submission consumer: create/update durable consumer: '' @ e))
         | None \<Rightarrow> do { consume c submit fs; ret None }))"

section \<open>The contract of an informer-fed cache\<close>

text \<open>The objects that exist after a sequence of informer events, by their identity.\<close>

definition live_event :: "('o \<Rightarrow> 'i) \<Rightarrow> 'o informer_event \<Rightarrow> ('i \<rightharpoonup> 'o) \<Rightarrow> ('i \<rightharpoonup> 'o)" where
  "live_event ident = handle_event (\<lambda>a m. m(ident a \<mapsto> a)) (\<lambda>a m. m(ident a := None))"

definition live :: "('o \<Rightarrow> 'i) \<Rightarrow> 'o informer_event list \<Rightarrow> ('i \<rightharpoonup> 'o)" where
  "live ident es = fold (live_event ident) es (\<lambda>_. None)"

text \<open>The objects the events bring, and that none of two of them share a key.\<close>

fun event_objects :: "'o informer_event \<Rightarrow> 'o list" where
  "event_objects (Added a) = [a]"
| "event_objects (Updated a b) = [b]"
| "event_objects (Deleted a) = [a]"
| "event_objects (DeletedFinalStateUnknown x) = (case x of None \<Rightarrow> [] | Some a \<Rightarrow> [a])"

definition keys_identify :: "('o \<Rightarrow> 'i) \<Rightarrow> ('o \<Rightarrow> string) \<Rightarrow> 'o informer_event list \<Rightarrow> bool" where
  "keys_identify ident key es \<longleftrightarrow>
     (let os = concat (map event_objects es)
      in \<forall>a\<in>set os. \<forall>b\<in>set os. key a = key b \<longleftrightarrow> ident a = ident b)"

locale keyed_cache =
  fixes ups :: "'o \<Rightarrow> 's \<Rightarrow> 's"
    and del :: "'o \<Rightarrow> 's \<Rightarrow> 's"
    and lookup :: "'s \<Rightarrow> string \<Rightarrow> string option"
    and key :: "'o \<Rightarrow> string"
    and entry :: "'o \<Rightarrow> string option"
    and ident :: "'o \<Rightarrow> 'i"
    and start :: 's
  assumes lookup_start: "lookup start k = None"
    and lookup_ups: "lookup (ups a m) k = (if k = key a then entry a else lookup m k)"
    and lookup_del: "lookup (del a m) k = (if k = key a then None else lookup m k)"
begin

definition in_step :: "'o set \<Rightarrow> 's \<Rightarrow> ('i \<rightharpoonup> 'o) \<Rightarrow> bool" where
  "in_step D m l \<longleftrightarrow>
     (\<forall>i a. l i = Some a \<longrightarrow> ident a = i \<and> a \<in> D \<and> lookup m (key a) = entry a)
   \<and> (\<forall>k v. lookup m k = Some v \<longrightarrow> (\<exists>i a. l i = Some a \<and> key a = k \<and> entry a = Some v))"

lemma in_step_ups:
  assumes "in_step D m l" "a \<in> D" "\<forall>a\<in>D. \<forall>b\<in>D. key a = key b \<longleftrightarrow> ident a = ident b"
  shows "in_step D (ups a m) (l(ident a \<mapsto> a))"
  unfolding in_step_def
proof (intro conjI allI impI)
  fix i b assume "(l(ident a \<mapsto> a)) i = Some b"
  with assms show "ident b = i" "b \<in> D" "lookup (ups a m) (key b) = entry b"
    by (auto simp: in_step_def lookup_ups split: if_splits)
next
  fix k v assume k: "lookup (ups a m) k = Some v"
  show "\<exists>i b. (l(ident a \<mapsto> a)) i = Some b \<and> key b = k \<and> entry b = Some v"
  proof (cases "k = key a")
    case True
    with k show ?thesis by (intro exI [of _ "ident a"] exI [of _ a]) (simp add: lookup_ups)
  next
    case False
    with k have "lookup m k = Some v" by (simp add: lookup_ups)
    with assms(1) obtain i b where b: "l i = Some b" "key b = k" "entry b = Some v"
      unfolding in_step_def by blast
    with assms(1) have "ident b = i" "b \<in> D" by (auto simp: in_step_def)
    with False b assms(2,3) have "i \<noteq> ident a" by metis
    with b show ?thesis by (intro exI [of _ i] exI [of _ b]) simp
  qed
qed

lemma in_step_del:
  assumes "in_step D m l" "a \<in> D" "\<forall>a\<in>D. \<forall>b\<in>D. key a = key b \<longleftrightarrow> ident a = ident b"
  shows "in_step D (del a m) (l(ident a := None))"
  unfolding in_step_def
proof (intro conjI allI impI)
  fix i b assume "(l(ident a := None)) i = Some b"
  with assms show "ident b = i" "b \<in> D" "lookup (del a m) (key b) = entry b"
    by (auto simp: in_step_def lookup_del split: if_splits)
next
  fix k v assume "lookup (del a m) k = Some v"
  then have k: "k \<noteq> key a" "lookup m k = Some v" by (auto simp: lookup_del split: if_splits)
  from k(2) assms(1) obtain i b where b: "l i = Some b" "key b = k" "entry b = Some v"
    unfolding in_step_def by blast
  with assms(1) have "ident b = i" "b \<in> D" by (auto simp: in_step_def)
  with k b assms(2,3) have "i \<noteq> ident a" by metis
  with b show "\<exists>i b. (l(ident a := None)) i = Some b \<and> key b = k \<and> entry b = Some v"
    by (intro exI [of _ i] exI [of _ b]) simp
qed

lemma in_step_event:
  assumes "in_step D m l" "set (event_objects e) \<subseteq> D"
    "\<forall>a\<in>D. \<forall>b\<in>D. key a = key b \<longleftrightarrow> ident a = ident b"
  shows "in_step D (handle_event ups del e m) (live_event ident e l)"
  using assms in_step_ups in_step_del
  by (cases e) (auto simp: handle_event_def live_event_def split: option.splits)

lemma in_step_events:
  assumes "set (concat (map event_objects es)) \<subseteq> D"
    "\<forall>a\<in>D. \<forall>b\<in>D. key a = key b \<longleftrightarrow> ident a = ident b"
  shows "in_step D m l \<Longrightarrow> in_step D (fold (handle_event ups del) es m) (fold (live_event ident) es l)"
  using assms(1)
proof (induction es arbitrary: m l)
  case (Cons e es)
  then show ?case using in_step_event [OF Cons.prems(1) _ assms(2), of e] by simp
qed simp

text \<open>Replayed from the start, the cache answers for the objects that exist, and for no others.\<close>

lemma tracks:
  assumes "keys_identify ident key es"
  shows "lookup (fold (handle_event ups del) es start) k = Some v
    \<longleftrightarrow> (\<exists>i a. live ident es i = Some a \<and> key a = k \<and> entry a = Some v)"
proof -
  define D where "D = set (concat (map event_objects es))"
  have "in_step D (fold (handle_event ups del) es start) (live ident es)"
    unfolding live_def
    by (rule in_step_events)
      (use assms in \<open>simp_all add: D_def keys_identify_def Let_def in_step_def lookup_start\<close>)
  then show ?thesis by (auto simp: in_step_def)
qed

end

definition account_ident :: "BillingAccount \<Rightarrow> string \<times> string" where
  "account_ident a = (ba_Namespace a, ba_Name a)"

definition meter_ident :: "MeterDefinition \<Rightarrow> string" where
  "meter_ident md = om_Name (md_Meta md)"

definition meter_entry :: "MeterDefinition \<Rightarrow> string option" where
  "meter_entry md = (if md_Phase md = PhasePublished \<or> md_Phase md = PhaseDeprecated
                     then Some (MeterAPIName (om_Name (md_Meta md))) else None)"

interpretation account_cache: keyed_cache BillingAccountCache_upsert BillingAccountCache_delete GetUID
    "\<lambda>a. ba_Name a" "\<lambda>a. Some (ba_UID a)" account_ident empty_cache
  by unfold_locales
    (simp_all add: GetUID_def empty_cache_def BillingAccountCache_upsert_def BillingAccountCache_delete_def)

interpretation meter_cache: keyed_cache MeterDefinitionCache_upsert MeterDefinitionCache_delete GetAPIName
    md_MeterName meter_entry meter_ident empty_cache
  by unfold_locales
    (auto simp: GetAPIName_def empty_cache_def MeterDefinitionCache_upsert_def MeterDefinitionCache_delete_def
      meter_entry_def)

section \<open>Facts\<close>

fun disposed :: "step list \<Rightarrow> message list" where
  "disposed [] = []"
| "disposed (Ack m # es) = m # disposed es"
| "disposed (NakWithDelay m d # es) = m # disposed es"
| "disposed (Submit rs e # es) = disposed es"
| "disposed (Counted l # es) = disposed es"
| "disposed (setOldestUnsubmittedAge a # es) = disposed es"

lemma disposed_append [simp]: "disposed (xs @ ys) = disposed xs @ disposed ys"
  by (induction xs rule: disposed.induct) auto

text \<open>When a message may be acknowledged or put back, after the steps \<open>before\<close>.\<close>

definition may_ack :: "('v, 'x, 'u) consumer \<Rightarrow> step list \<Rightarrow> message \<Rightarrow> bool" where
  "may_ack c before m \<longleftrightarrow>
     (case prepareRecord c m of
        Inl e \<Rightarrow> isPermanentValidationError e
      | Inr r \<Rightarrow> \<exists>rs e. Submit rs e \<in> set before \<and> r \<in> set rs
          \<and> (e = None \<or> rs = [r] \<and> (\<exists>err. e = Some err \<and> IsPermanent err)))"

definition may_nak :: "('v, 'x, 'u) consumer \<Rightarrow> step list \<Rightarrow> message \<Rightarrow> int \<Rightarrow> bool" where
  "may_nak c before m d \<longleftrightarrow> d = sc_RetryAfter c \<and>
     (case prepareRecord c m of
        Inl e \<Rightarrow> \<not> isPermanentValidationError e
      | Inr r \<Rightarrow> \<exists>rs err. Submit rs (Some err) \<in> set before \<and> r \<in> set rs \<and> \<not> IsPermanent err)"

fun well_run :: "('v, 'x, 'u) consumer \<Rightarrow> step list \<Rightarrow> step list \<Rightarrow> bool" where
  "well_run c b [] = True"
| "well_run c b (e # es) =
     ((case e of Ack m \<Rightarrow> may_ack c b m | NakWithDelay m d \<Rightarrow> may_nak c b m d | _ \<Rightarrow> True)
      \<and> well_run c (b @ [e]) es)"

lemma well_run_append: "well_run c b (xs @ ys) \<longleftrightarrow> well_run c b xs \<and> well_run c (b @ xs) ys"
  by (induction xs arbitrary: b) auto

lemma may_ack_mono: "may_ack c b m \<Longrightarrow> set b \<subseteq> set b' \<Longrightarrow> may_ack c b' m"
  unfolding may_ack_def by (cases "prepareRecord c m") (simp_all, blast)

lemma may_nak_mono: "may_nak c b m d \<Longrightarrow> set b \<subseteq> set b' \<Longrightarrow> may_nak c b' m d"
proof (cases "prepareRecord c m")
  case (Inr r)
  assume "may_nak c b m d" "set b \<subseteq> set b'"
  with Inr obtain rs err where "d = sc_RetryAfter c" "Submit rs (Some err) \<in> set b'" "r \<in> set rs" "\<not> IsPermanent err"
    unfolding may_nak_def by fastforce
  with Inr show "may_nak c b' m d" unfolding may_nak_def by fastforce
qed (simp add: may_nak_def)

lemma well_run_mono: "well_run c b es \<Longrightarrow> set b \<subseteq> set b' \<Longrightarrow> well_run c b' es"
proof (induction es arbitrary: b b')
  case (Cons e es)
  then have "well_run c (b @ [e]) es" "set (b @ [e]) \<subseteq> set (b' @ [e])" by auto
  then have "well_run c (b' @ [e]) es" by (rule Cons.IH)
  with Cons.prems show ?case by (cases e) (auto dest: may_ack_mono may_nak_mono)
qed simp

lemma leaves_act_each:
  "(\<And>x. x \<in> set xs \<Longrightarrow> leaves (f x) (\<lambda>es _. P x es))
     \<Longrightarrow> leaves (act_each f xs) (\<lambda>es _. \<exists>ess. es = concat ess \<and> list_all2 P xs ess)"
proof (induction xs)
  case Nil
  show ?case by (simp add: leaves_ret)
next
  case (Cons x xs)
  have tl: "leaves (act_each f xs) (\<lambda>es' _. \<exists>ess. es @ es' = concat ess \<and> list_all2 P (x # xs) ess)"
    if "P x es" for es
  proof (rule leaves_weaken [OF Cons.IH])
    fix es' u assume "\<exists>ess. es' = concat ess \<and> list_all2 P xs ess"
    then obtain ess where "es' = concat ess" "list_all2 P xs ess" by blast
    with that have "es @ es' = concat (es # ess) \<and> list_all2 P (x # xs) (es # ess)" by simp
    then show "\<exists>ess. es @ es' = concat ess \<and> list_all2 P (x # xs) ess" by blast
  qed (use Cons.prems in simp)
  have "leaves (f x) (\<lambda>es _. P x es)" by (rule Cons.prems) simp
  then show ?case unfolding act_each.simps by (intro leaves_bind) (erule leaves_weaken, rule tl)
qed

text \<open>The first loop, and the three ways a batch ends.\<close>

definition validated :: "('v, 'x, 'u) consumer \<Rightarrow> message list \<Rightarrow> step list \<Rightarrow> (message \<times> UsageRecord) list \<Rightarrow> bool" where
  "validated c msgs es valid \<longleftrightarrow>
     mset (disposed es) + mset (map fst valid) = mset msgs \<and> well_run c [] es
     \<and> (\<forall>mr\<in>set valid. prepareRecord c (fst mr) = Inr (snd mr))
     \<and> (\<forall>rs e. Submit rs e \<notin> set es)"

lemma validate_leaves: "leaves (validate c msgs) (validated c msgs)"
proof (induction msgs)
  case Nil
  show ?case by (simp add: leaves_ret validated_def)
next
  case (Cons msg msgs)
  show ?case
  proof (cases "prepareRecord c msg")
    case (Inr r)
    have "validated c (msg # msgs) es ((msg, r) # valid)" if "validated c msgs es valid" for es valid
      using that Inr by (simp add: validated_def)
    then show ?thesis using Inr by (auto intro!: leaves_bind leaves_ret leaves_weaken [OF Cons.IH])
  next
    case (Inl err)
    have ack: "validated c (msg # msgs) (Counted l # Ack msg # es) valid"
      if "validated c msgs es valid" "isPermanentValidationError err" for es valid l
      using that Inl well_run_mono [of c "[]" es "[Counted l, Ack msg]"]
      by (auto simp: validated_def may_ack_def)
    have nak: "validated c (msg # msgs) (NakWithDelay msg (sc_RetryAfter c) # es) valid"
      if "validated c msgs es valid" "\<not> isPermanentValidationError err" for es valid
      using that Inl well_run_mono [of c "[]" es "[NakWithDelay msg (sc_RetryAfter c)]"]
      by (auto simp: validated_def may_nak_def)
    show ?thesis using Inl
      by (auto simp: settle_def intro!: leaves_bind leaves_remark_bind leaves_remark leaves_weaken [OF Cons.IH] ack nak)
  qed
qed

lemma settle_leaves: "leaves (settle l m) (\<lambda>es _. es = [Counted l, Ack m])"
  unfolding settle_def by (intro leaves_remark_bind leaves_remark) simp

lemma put_back_leaves: "leaves (put_back c m) (\<lambda>es _. es = [Counted ''transient'', NakWithDelay m (sc_RetryAfter c)])"
  unfolding put_back_def by (intro leaves_remark_bind leaves_remark) simp

lemma may_ack_submitted:
  "prepareRecord c m = Inr r \<Longrightarrow> Submit rs None \<in> set b \<Longrightarrow> r \<in> set rs \<Longrightarrow> may_ack c b m"
  unfolding may_ack_def by auto

lemma may_ack_rejected:
  "prepareRecord c m = Inr r \<Longrightarrow> Submit [r] (Some err) \<in> set b \<Longrightarrow> IsPermanent err \<Longrightarrow> may_ack c b m"
  unfolding may_ack_def by force

lemma may_nak_transient:
  "prepareRecord c m = Inr r \<Longrightarrow> Submit rs (Some err) \<in> set b \<Longrightarrow> r \<in> set rs \<Longrightarrow> \<not> IsPermanent err
     \<Longrightarrow> may_nak c b m (sc_RetryAfter c)"
  unfolding may_nak_def by auto

definition ends_batch :: "('v, 'x, 'u) consumer \<Rightarrow> step list \<Rightarrow> message \<times> UsageRecord \<Rightarrow> step list \<Rightarrow> bool" where
  "ends_batch c b mr es \<longleftrightarrow> disposed es = [fst mr] \<and> well_run c b es"

lemma ends_settle: "may_ack c b (fst mr) \<Longrightarrow> ends_batch c b mr [Counted l, Ack (fst mr)]"
  using may_ack_mono [of c b "fst mr" "b @ [Counted l]"] by (auto simp: ends_batch_def)

lemma ends_put_back:
  "may_nak c b (fst mr) d \<Longrightarrow> ends_batch c b mr [Counted l, NakWithDelay (fst mr) d]"
  using may_nak_mono [of c b "fst mr" d "b @ [Counted l]"] by (auto simp: ends_batch_def)

lemma ends_batch_submit:
  "ends_batch c (b @ [Submit rs e]) mr es \<Longrightarrow> ends_batch c b mr (Submit rs e # es)"
  by (simp add: ends_batch_def)

lemma submit_one_leaves:
  assumes "prepareRecord c (fst mr) = Inr (snd mr)"
  shows "leaves (submit_one c submit mr) (\<lambda>es _. ends_batch c b mr es)"
  unfolding submit_one_def
proof (intro leaves_perform_bind leaves_option leaves_if)
  fix e :: "goerr option" assume "e = None"
  then show "leaves (settle ''success'' (fst mr)) (\<lambda>es _. ends_batch c b mr (Submit [snd mr] e # es))"
    by (auto intro!: leaves_weaken [OF settle_leaves] ends_batch_submit ends_settle
        may_ack_submitted [OF assms, of "[snd mr]"])
next
  fix e err assume "e = Some err" "IsPermanent err"
  then show "leaves (settle ''permanent'' (fst mr)) (\<lambda>es _. ends_batch c b mr (Submit [snd mr] e # es))"
    by (auto intro!: leaves_weaken [OF settle_leaves] ends_batch_submit ends_settle
        may_ack_rejected [OF assms, of err])
next
  fix e err assume "e = Some err" "\<not> IsPermanent err"
  then show "leaves (put_back c (fst mr)) (\<lambda>es _. ends_batch c b mr (Submit [snd mr] e # es))"
    by (auto intro!: leaves_weaken [OF put_back_leaves] ends_batch_submit ends_put_back
        may_nak_transient [OF assms, of "[snd mr]" err])
qed

lemma batch_concat:
  "list_all2 (ends_batch c b) valid ess
     \<Longrightarrow> disposed (concat ess) = map fst valid \<and> well_run c b (concat ess)"
proof (induction valid ess rule: list_all2_induct)
  case (Cons mr valid es ess)
  then show ?case using well_run_mono [of c b "concat ess" "b @ es"]
    by (auto simp: ends_batch_def well_run_append)
qed simp

definition processed :: "('v, 'x, 'u) consumer \<Rightarrow> message list \<Rightarrow> step list \<Rightarrow> bool" where
  "processed c msgs es \<longleftrightarrow> mset (disposed es) = mset msgs \<and> well_run c [] es"

lemma finish_batch:
  assumes "validated c msgs es valid"
    and "\<And>mr. mr \<in> set valid \<Longrightarrow> prepareRecord c (fst mr) = Inr (snd mr)
           \<Longrightarrow> leaves (f mr) (\<lambda>es' _. ends_batch c (es @ [Submit rs e]) mr es')"
  shows "leaves (act_each f valid) (\<lambda>es' _. processed c msgs (es @ Submit rs e # es'))"
proof (rule leaves_weaken [OF leaves_act_each])
  fix mr assume "mr \<in> set valid"
  with assms show "leaves (f mr) (\<lambda>es' _. ends_batch c (es @ [Submit rs e]) mr es')"
    by (simp add: validated_def)
next
  fix es' u
  assume "\<exists>ess. es' = concat ess \<and> list_all2 (ends_batch c (es @ [Submit rs e])) valid ess"
  then have "disposed es' = map fst valid" "well_run c (es @ [Submit rs e]) es'"
    by (auto dest: batch_concat)
  with assms(1) show "processed c msgs (es @ Submit rs e # es')"
    by (simp add: processed_def validated_def well_run_append)
qed

lemma act_each_map: "act_each f (map g xs) = act_each (\<lambda>x. f (g x)) xs"
  by (induction xs) simp_all

lemma processMessages_leaves: "leaves (processMessages c submit msgs) (\<lambda>es _. processed c msgs es)"
  unfolding processMessages_def
proof (rule leaves_bind, rule leaves_weaken [OF validate_leaves])
  fix es :: "step list" and valid assume V: "validated c msgs es valid"
  have acked: "ends_batch c (es @ [Submit (map snd valid) None]) mr [Counted l, Ack (fst mr)]"
    if "mr \<in> set valid" "prepareRecord c (fst mr) = Inr (snd mr)" for mr l
    using that by (intro ends_settle may_ack_submitted [of c _ "snd mr" "map snd valid"]) auto
  have naked: "ends_batch c (es @ [Submit (map snd valid) (Some err)]) mr
      [Counted l, NakWithDelay (fst mr) (sc_RetryAfter c)]"
    if "mr \<in> set valid" "prepareRecord c (fst mr) = Inr (snd mr)" "\<not> IsPermanent err" for mr l err
    using that by (intro ends_put_back may_nak_transient [of c _ "snd mr" "map snd valid" err]) auto
  show "leaves (if valid = [] then ret ()
      else State_Monad.bind (perform (submit (map snd valid)) (Submit (map snd valid)))
        (\<lambda>e. case e of None \<Rightarrow> act_each (settle ''success'') (map fst valid)
          | Some err \<Rightarrow> if IsPermanent err then act_each (submit_one c submit) valid
              else act_each (put_back c) (map fst valid)))
      (\<lambda>es'. (\<lambda>es _. processed c msgs es) (es @ es'))"
  proof (intro leaves_if leaves_perform_bind leaves_option)
    assume "valid = []"
    with V show "leaves (ret ()) (\<lambda>es'. (\<lambda>es _. processed c msgs es) (es @ es'))"
      by (intro leaves_ret) (simp add: validated_def processed_def)
  qed (auto simp: act_each_map intro!: finish_batch [OF V] leaves_weaken [OF settle_leaves]
      leaves_weaken [OF put_back_leaves] submit_one_leaves acked naked)
qed

text \<open>Successful submissions leave their mark \<open>W\<close> on the world.\<close>

definition accounted :: "('w \<Rightarrow> UsageRecord list \<Rightarrow> bool) \<Rightarrow> ('w, step) traced_state \<Rightarrow> bool" where
  "accounted W s \<longleftrightarrow> (\<forall>rs. Submit rs None \<in> set (ts_log s) \<longrightarrow> W (ts_world s) rs)"

lemma accounted_remark: "(\<forall>rs. e \<noteq> Submit rs None) \<Longrightarrow> keeps (accounted W) (remark e)"
  by (auto simp: keeps_def accounted_def run_simps)

lemma accounted_settle: "keeps (accounted W) (settle l m)" "keeps (accounted W) (put_back c m)"
  unfolding settle_def put_back_def by (intro keeps_intros accounted_remark; simp)+

lemma keeps_act_each: "(\<And>x. keeps I (f x)) \<Longrightarrow> keeps I (act_each f xs)"
  by (induction xs) (auto intro: keeps_intros)

lemma accounted_validate: "keeps (accounted W) (validate c msgs)"
proof (induction msgs)
  case (Cons m msgs)
  show ?case unfolding validate.simps
    by (intro keeps_intros accounted_settle Cons.IH accounted_remark) simp
qed (simp add: keeps_ret)

definition marks :: "(UsageRecord list \<Rightarrow> ('w, goerr option) io) \<Rightarrow> ('w \<Rightarrow> UsageRecord list \<Rightarrow> bool) \<Rightarrow> bool" where
  "marks submit W \<longleftrightarrow> (\<forall>rs w e w'. run_state (submit rs) w = (e, w') \<longrightarrow>
     (e = None \<longrightarrow> W w' rs) \<and> (\<forall>rs'. W w rs' \<longrightarrow> W w' rs'))"

lemma accounted_submit: "marks submit W \<Longrightarrow> keeps (accounted W) (perform (submit rs) (Submit rs))"
  unfolding keeps_def accounted_def marks_def by (auto simp: run_simps split: prod.splits) 

lemma accounted_processMessages:
  assumes "marks submit W"
  shows "keeps (accounted W) (processMessages c submit msgs)"
  unfolding processMessages_def submit_one_def
  by (intro keeps_intros keeps_act_each accounted_settle accounted_validate accounted_submit [OF assms])

lemma accounted_consume:
  assumes "marks submit W"
  shows "keeps (accounted W) (consume c submit fs)"
proof (induction fs)
  case Nil
  show ?case unfolding consume.simps by (rule accounted_remark) simp
next
  case (Cons f fs)
  show ?case
  proof (cases f)
    case FetchFailed
    then show ?thesis using Cons.IH by simp
  next
    case (Fetched A M now msgs)
    show ?thesis unfolding Fetched consume.simps
      by (intro keeps_intros accounted_processMessages [OF assms] Cons.IH accounted_remark) simp_all
  qed
qed

lemma accounted_Start:
  assumes "marks submit W"
  shows "keeps (accounted W) (Start c synced js_err cons_err submit fs)"
  unfolding Start_def Let_def by (intro keeps_intros accounted_consume [OF assms])

section \<open>Properties\<close>

text \<open>
  A batch of messages: every message is acknowledged or put back exactly once.  A message is
  acknowledged only if it can never be submitted, or after a submission that carried its record
  succeeded, or after its record alone was permanently rejected; it is put back only, and always
  with the configured delay, if a name was missing from a cache or after a submission carrying its
  record failed for another reason than a permanent one.
\<close>

theorem processMessages_safe:
  assumes "run_state (processMessages c submit msgs) s = (x, s')"
  shows "\<exists>es. ts_log s' = ts_log s @ es \<and> mset (disposed es) = mset msgs
    \<and> (\<forall>before m after. es = before @ Ack m # after \<longrightarrow> may_ack c before m)
    \<and> (\<forall>before m d after. es = before @ NakWithDelay m d # after \<longrightarrow> may_nak c before m d)"
proof -
  from leavesD [OF processMessages_leaves assms] obtain es where
    es: "ts_log s' = ts_log s @ es" "mset (disposed es) = mset msgs" "well_run c [] es"
    unfolding processed_def by blast
  then show ?thesis by (intro exI [of _ es]) (auto simp: well_run_append)
qed

text \<open>The loop over the batches.\<close>

definition with_caches :: "('v, 'x, 'u) consumer \<Rightarrow> cache \<Rightarrow> cache \<Rightarrow> ('v, 'x, 'u) consumer" where
  "with_caches c A M = c\<lparr>sc_BillingAccountCache := A, sc_MeterCache := M\<rparr>"

definition consumed :: "('v, 'x, 'u) consumer \<Rightarrow> fetch list \<Rightarrow> step list \<Rightarrow> bool" where
  "consumed c fs es \<longleftrightarrow> mset (disposed es) = mset (concat (map fetched fs))
     \<and> (\<forall>m d. NakWithDelay m d \<in> set es \<longrightarrow> d = sc_RetryAfter c)
     \<and> (\<forall>m. Ack m \<in> set es \<longrightarrow> (\<exists>A M now msgs. Fetched A M now msgs \<in> set fs \<and> m \<in> set msgs
          \<and> may_ack (with_caches c A M) es m))"

lemma well_run_members:
  "well_run c b es \<Longrightarrow> Ack m \<in> set es \<Longrightarrow> may_ack c (b @ es) m"
  "well_run c b es \<Longrightarrow> NakWithDelay m d \<in> set es \<Longrightarrow> may_nak c (b @ es) m d"
proof -
  have "well_run c b es \<Longrightarrow> (Ack m \<in> set es \<longrightarrow> may_ack c (b @ es) m)
      \<and> (NakWithDelay m d \<in> set es \<longrightarrow> may_nak c (b @ es) m d)" for b
  proof (induction es arbitrary: b)
    case (Cons e es)
    have IH: "Ack m \<in> set es \<longrightarrow> may_ack c ((b @ [e]) @ es) m"
      "NakWithDelay m d \<in> set es \<longrightarrow> may_nak c ((b @ [e]) @ es) m d"
      using Cons.IH [of "b @ [e]"] Cons.prems by (simp_all del: append_assoc)
    have sub: "set b \<subseteq> set (b @ e # es)" by (simp add: subset_iff)
    from Cons.prems have "e = Ack m \<longrightarrow> may_ack c (b @ e # es) m" "e = NakWithDelay m d \<longrightarrow> may_nak c (b @ e # es) m d"
      using may_ack_mono [OF _ sub, of c m] may_nak_mono [OF _ sub, of c m d] by auto
    with IH show ?case by auto
  qed simp
  then show "well_run c b es \<Longrightarrow> Ack m \<in> set es \<Longrightarrow> may_ack c (b @ es) m"
    "well_run c b es \<Longrightarrow> NakWithDelay m d \<in> set es \<Longrightarrow> may_nak c (b @ es) m d" by blast+
qed

lemma disposed_Ack: "Ack m \<in> set es \<Longrightarrow> m \<in> set (disposed es)"
  by (induction es rule: disposed.induct) auto

lemma consumed_batch:
  assumes "processed (with_caches c A M) msgs es" "consumed c fs es'"
  shows "consumed c (Fetched A M now msgs # fs) (es @ es')"
proof -
  let ?c = "with_caches c A M"
  from assms(1) have es: "mset (disposed es) = mset msgs" "well_run ?c [] es" by (simp_all add: processed_def)
  have ack: "m \<in> set msgs \<and> may_ack ?c (es @ es') m" if "Ack m \<in> set es" for m
    using well_run_members(1) [OF es(2) that] disposed_Ack [OF that] es(1)
    by (auto elim: may_ack_mono dest: mset_eq_setD)
  have nak: "d = sc_RetryAfter c" if "NakWithDelay m d \<in> set es" for m d
    using well_run_members(2) [OF es(2) that] by (simp add: may_nak_def with_caches_def)
  have late: "\<exists>B N t ms. Fetched B N t ms \<in> set fs \<and> m \<in> set ms \<and> may_ack (with_caches c B N) (es @ es') m"
    if "Ack m \<in> set es'" for m
  proof -
    from that assms(2) obtain B N t ms where "Fetched B N t ms \<in> set fs" "m \<in> set ms" "may_ack (with_caches c B N) es' m"
      unfolding consumed_def by blast
    then show ?thesis by (intro exI conjI) (auto elim: may_ack_mono)
  qed
  have all: "mset (disposed (es @ es')) = mset (concat (map fetched (Fetched A M now msgs # fs)))"
    using es(1) assms(2) by (simp add: consumed_def)
  have naks: "d = sc_RetryAfter c" if "NakWithDelay m d \<in> set (es @ es')" for m d
    using that nak assms(2) by (auto simp: consumed_def)
  have acks: "\<exists>B N t ms. Fetched B N t ms \<in> set (Fetched A M now msgs # fs) \<and> m \<in> set ms
      \<and> may_ack (with_caches c B N) (es @ es') m" if "Ack m \<in> set (es @ es')" for m
  proof (cases "Ack m \<in> set es")
    case True
    from ack [OF this] show ?thesis by (intro exI [of _ A] exI [of _ M] exI [of _ now] exI [of _ msgs]) simp
  next
    case False
    with that have "Ack m \<in> set es'" by simp
    from late [OF this] obtain B N t ms where
      "Fetched B N t ms \<in> set fs" "m \<in> set ms" "may_ack (with_caches c B N) (es @ es') m" by blast
    then show ?thesis by (intro exI [of _ B] exI [of _ N] exI [of _ t] exI [of _ ms]) simp
  qed
  from all naks acks show ?thesis unfolding consumed_def by blast
qed

text \<open>What one fetch leaves: nothing, or the gauge with the age of the oldest message, the steps of
  its batch, and the gauge at zero.\<close>

definition lag_before :: "int \<Rightarrow> message list \<Rightarrow> step list" where
  "lag_before now msgs = (if oldestTimestamp zero_time msgs \<noteq> zero_time
     then [setOldestUnsubmittedAge (time_since now (oldestTimestamp zero_time msgs))] else [])"

fun batch :: "('v, 'x, 'u) consumer \<Rightarrow> fetch \<Rightarrow> step list \<Rightarrow> bool" where
  "batch c FetchFailed es \<longleftrightarrow> es = []"
| "batch c (Fetched A M now msgs) es \<longleftrightarrow> (\<exists>mid. processed (with_caches c A M) msgs mid
     \<and> (\<forall>a. setOldestUnsubmittedAge a \<notin> set mid) \<and> es = lag_before now msgs @ mid @ [setOldestUnsubmittedAge 0])"

lemma only_act_each: "(\<And>x. only P (f x)) \<Longrightarrow> only P (act_each f xs)"
  by (induction xs) (simp_all add: only_ret only_bind)

lemma only_validate:
  assumes "\<And>l. P (Counted l)" "\<And>m. P (Ack m)" "\<And>m d. P (NakWithDelay m d)"
  shows "only P (validate c msgs)"
proof (induction msgs)
  case (Cons m msgs)
  show ?case unfolding validate.simps settle_def
    by (intro only_sum only_bind only_if only_remark only_ret Cons.IH assms)
qed (simp add: only_ret)

lemma processMessages_silent: "only (\<lambda>e. \<forall>a. e \<noteq> setOldestUnsubmittedAge a) (processMessages c submit msgs)"
  unfolding processMessages_def submit_one_def settle_def put_back_def
  by (intro only_bind only_validate only_if only_option only_ret only_perform only_act_each only_remark) simp_all

lemma leaves_both: "leaves m R \<Longrightarrow> leaves m Q \<Longrightarrow> leaves m (\<lambda>es x. R es x \<and> Q es x)"
  unfolding leaves_def by (metis same_append_eq)

lemma processMessages_batch:
  "leaves (processMessages c submit msgs) (\<lambda>es _. processed c msgs es \<and> (\<forall>a. setOldestUnsubmittedAge a \<notin> set es))"
  by (rule leaves_weaken [OF leaves_both [OF processMessages_leaves processMessages_silent [unfolded only_def]]]) auto

lemma consume_leaves:
  "leaves (consume c submit fs) (\<lambda>es _. \<exists>ess. es = concat ess @ [setOldestUnsubmittedAge 0] \<and> list_all2 (batch c) fs ess)"
proof (induction fs)
  case Nil
  show ?case by (simp add: leaves_remark)
next
  case (Cons f fs)
  show ?case
  proof (cases f)
    case FetchFailed
    have "\<exists>ess'. concat ess @ [setOldestUnsubmittedAge 0] = concat ess' @ [setOldestUnsubmittedAge 0] \<and> list_all2 (batch c) (f # fs) ess'"
      if "list_all2 (batch c) fs ess" for ess using that by (intro exI [of _ "[] # ess"]) (simp add: FetchFailed)
    then show ?thesis unfolding FetchFailed consume.simps by (intro leaves_weaken [OF Cons.IH]) (auto simp: FetchFailed)
  next
    case (Fetched A M now msgs)
    have lag: "leaves (if oldestTimestamp zero_time msgs \<noteq> zero_time
        then remark (setOldestUnsubmittedAge (time_since now (oldestTimestamp zero_time msgs))) else ret ())
      (\<lambda>es _. es = lag_before now msgs)"
      by (intro leaves_if leaves_remark leaves_ret) (simp_all add: lag_before_def)
    have mid: "leaves (if length msgs > 0
        then processMessages (c\<lparr>sc_BillingAccountCache := A, sc_MeterCache := M\<rparr>) submit msgs else ret ())
      (\<lambda>es _. processed (with_caches c A M) msgs es \<and> (\<forall>a. setOldestUnsubmittedAge a \<notin> set es))"
      by (intro leaves_if leaves_ret)
        (simp_all add: processed_def [of _ "[]"] processMessages_batch [folded with_caches_def] flip: with_caches_def)
    have tail: "leaves (do { remark (setOldestUnsubmittedAge 0); consume c submit fs }) (\<lambda>es' _. \<exists>ess.
          lag_before now msgs @ es @ es' = concat ess @ [setOldestUnsubmittedAge 0] \<and> list_all2 (batch c) (f # fs) ess)"
      if "processed (with_caches c A M) msgs es \<and> (\<forall>a. setOldestUnsubmittedAge a \<notin> set es)" for es
    proof (intro leaves_remark_bind leaves_weaken [OF Cons.IH], elim exE conjE)
      fix es' ess assume "es' = concat ess @ [setOldestUnsubmittedAge 0]" "list_all2 (batch c) fs ess"
      with that show "\<exists>ess. lag_before now msgs @ es @ setOldestUnsubmittedAge 0 # es' = concat ess @ [setOldestUnsubmittedAge 0]
          \<and> list_all2 (batch c) (f # fs) ess"
        by (intro exI [of _ "(lag_before now msgs @ es @ [setOldestUnsubmittedAge 0]) # ess"]) (auto simp: Fetched)
    qed
    show ?thesis unfolding Fetched consume.simps
      by (rule leaves_bind, rule leaves_weaken [OF lag], simp only:, rule leaves_bind, rule leaves_weaken [OF mid],
          rule leaves_weaken [OF tail]) (auto simp: Fetched)
  qed
qed

lemma well_run_gauge: "well_run c b es \<Longrightarrow> well_run c b (setOldestUnsubmittedAge a # es)"
  using well_run_mono [of c b es "b @ [setOldestUnsubmittedAge a]"] by auto

lemma processed_batch:
  assumes "processed c msgs mid"
  shows "processed c msgs (lag_before now msgs @ mid @ [setOldestUnsubmittedAge 0])"
proof -
  from assms have "well_run c [] (mid @ [setOldestUnsubmittedAge 0])" by (simp add: processed_def well_run_append)
  with assms show ?thesis by (auto simp: processed_def lag_before_def dest: well_run_gauge)
qed

lemma batches_consumed: "list_all2 (batch c) fs ess \<Longrightarrow> consumed c fs (concat ess @ [setOldestUnsubmittedAge 0])"
proof (induction fs ess rule: list_all2_induct)
  case Nil
  show ?case by (simp add: consumed_def)
next
  case (Cons f fs es ess)
  show ?case
  proof (cases f)
    case FetchFailed
    with Cons show ?thesis by (auto simp: consumed_def)
  next
    case (Fetched A M now msgs)
    with Cons.hyps(1) have "processed (with_caches c A M) msgs es" using processed_batch by auto
    from consumed_batch [OF this Cons.IH] show ?thesis by (simp add: Fetched)
  qed
qed

definition sample_ce :: "(string, string) ce_lib" where
  "sample_ce = \<lparr>ce_parse = (\<lambda>d. if d = [] then Inl ''unexpected end of JSON input'' else Inr d),
     ce_ID = (\<lambda>v. v), ce_Type = (\<lambda>v. ''cpu''), ce_Time = (\<lambda>v. 0),
     ce_Extensions = (\<lambda>v. [(''billingaccountref'', Some ''acme'')]), ce_text = (\<lambda>x. x),
     ce_DataAs = (\<lambda>dec v. Inr \<lparr>ed_Value = ''7'', ed_Dimensions = []\<rparr>)\<rparr>"

definition sample_ulid :: "string ulid_lib" where
  "sample_ulid = \<lparr>ul_Timestamp = (\<lambda>t. 0), ul_New = (\<lambda>ms ent. Inr ''01H''), ul_String = (\<lambda>u. u)\<rparr>"

definition sample_consumer :: "(string, string, string) consumer" where
  "sample_consumer = \<lparr>sc_ce = sample_ce, sc_ulid = sample_ulid,
     sc_BillingAccountCache = empty_cache(''acme'' \<mapsto> ''uid-1''), sc_MeterCache = empty_cache(''cpu'' \<mapsto> ''cpu-api''),
     sc_FetchBatch = 10, sc_RetryAfter = 5 * second, sc_AckWait = 30 * second, sc_FetchTimeout = 5 * second\<rparr>"

definition sample_messages :: "message list" where
  "sample_messages = [\<lparr>ms_Subject = ''s'', ms_Data = ''e1'', ms_Timestamp = Some (- second)\<rparr>, \<lparr>ms_Subject = ''s'', ms_Data = [], ms_Timestamp = None\<rparr>]"

theorem processMessages_safe_witness:
  "\<exists>es. ts_log (snd (run_state (processMessages sample_consumer (\<lambda>rs. ret None) sample_messages)
        \<lparr>ts_world = (), ts_log = []\<rparr>)) = es
    \<and> mset (disposed es) = mset sample_messages"
proof -
  let ?r = "run_state (processMessages sample_consumer (\<lambda>rs. ret None) sample_messages)
    \<lparr>ts_world = (), ts_log = []\<rparr> :: unit \<times> (unit, step) traced_state"
  have "?r = (fst ?r, snd ?r)" by (rule surjective_pairing)
  from processMessages_safe [OF this] show ?thesis by auto
qed

lemma prepareRecord_libs:
  assumes "sc_ce c = sc_ce c'" "sc_ulid c = sc_ulid c'"
  shows "prepareRecord (with_caches c A M) m = prepareRecord (with_caches c' A M) m"
proof -
  have fields: "sc_ce (with_caches c A M) = sc_ce c'" "sc_ce (with_caches c' A M) = sc_ce c'"
    "sc_ulid (with_caches c A M) = sc_ulid c'" "sc_ulid (with_caches c' A M) = sc_ulid c'"
    "sc_BillingAccountCache (with_caches c A M) = A" "sc_BillingAccountCache (with_caches c' A M) = A"
    "sc_MeterCache (with_caches c A M) = M" "sc_MeterCache (with_caches c' A M) = M"
    using assms by (simp_all add: with_caches_def)
  show ?thesis unfolding prepareRecord_def fields ..
qed

lemma start_defaults_libs: "sc_ce (start_defaults c) = sc_ce c" "sc_ulid (start_defaults c) = sc_ulid c"
  by (simp_all add: start_defaults_def)

lemma Start_leaves:
  "leaves (Start c synced js_err cons_err submit fs) (\<lambda>es err.
      (err \<noteq> None \<longleftrightarrow> \<not> synced \<or> js_err \<noteq> None \<or> cons_err \<noteq> None)
      \<and> (err \<noteq> None \<longrightarrow> es = [])
      \<and> (err = None \<longrightarrow> (\<exists>ess. es = concat ess @ [setOldestUnsubmittedAge 0] \<and> list_all2 (batch (start_defaults c)) fs ess)))"
proof (cases "synced \<and> js_err = None \<and> cons_err = None")
  case True
  have "leaves (do { consume (start_defaults c) submit fs; ret None }) (\<lambda>es err. err = None
      \<and> (\<exists>ess. es = concat ess @ [setOldestUnsubmittedAge 0] \<and> list_all2 (batch (start_defaults c)) fs ess))"
    by (intro leaves_bind leaves_weaken [OF consume_leaves] leaves_ret) simp
  with True show ?thesis unfolding Start_def Let_def by (auto elim!: leaves_weaken)
next
  case False
  then show ?thesis unfolding Start_def Let_def by (auto intro!: leaves_ret split: option.split)
qed

lemma Start_run:
  assumes "run_state (Start c synced js_err cons_err submit fs) s = (err, s')"
  shows "\<exists>es. ts_log s' = ts_log s @ es
    \<and> (err \<noteq> None \<longleftrightarrow> \<not> synced \<or> js_err \<noteq> None \<or> cons_err \<noteq> None)
    \<and> (err \<noteq> None \<longrightarrow> es = [])
    \<and> (err = None \<longrightarrow> mset (disposed es) = mset (concat (map fetched fs)))
    \<and> (\<forall>m d. NakWithDelay m d \<in> set es \<longrightarrow> d > 0)
    \<and> (\<forall>m. Ack m \<in> set es \<longrightarrow> (\<exists>A M now msgs. Fetched A M now msgs \<in> set fs \<and> m \<in> set msgs
          \<and> may_ack (with_caches c A M) es m))"
proof -
  let ?d = "start_defaults c"
  have same: "may_ack (with_caches ?d A M) es m \<longleftrightarrow> may_ack (with_caches c A M) es m" for A M es m
    using prepareRecord_libs [of ?d c A M m] by (simp add: may_ack_def start_defaults_libs)
  have pos: "sc_RetryAfter ?d > 0" by (simp add: start_defaults_def)
  from leavesD [OF Start_leaves assms] obtain es where es: "ts_log s' = ts_log s @ es"
    "err \<noteq> None \<longleftrightarrow> \<not> synced \<or> js_err \<noteq> None \<or> cons_err \<noteq> None"
    "if err = None then consumed ?d fs es else es = []" by (cases err) (auto dest: batches_consumed)
  have "d > 0" if "NakWithDelay m d \<in> set es" for m d
  proof -
    from that es(3) have "consumed ?d fs es" by (cases err) auto
    with that pos show ?thesis unfolding consumed_def by blast
  qed
  with es show ?thesis by (intro exI [of _ es]) (cases err; simp add: consumed_def same)
qed

text \<open>
  C6.  A run of the consumer: either it fails before any message is touched, because the caches do
  not sync or JetStream cannot be set up, or every message of every fetch is acknowledged or put
  back exactly once; put back only with a positive delay, and acknowledged only if, with the caches
  its batch met, it can never be submitted, or a submission carrying its record succeeded, or its
  record alone was permanently rejected.
\<close>

theorem Start_disposes:
  assumes "run_state (Start c synced js_err cons_err submit fs) s = (err, s')"
  shows "\<exists>es. ts_log s' = ts_log s @ es
    \<and> (err \<noteq> None \<longleftrightarrow> \<not> synced \<or> js_err \<noteq> None \<or> cons_err \<noteq> None)
    \<and> (err \<noteq> None \<longrightarrow> es = [])
    \<and> (err = None \<longrightarrow> mset (disposed es) = mset (concat (map fetched fs)))
    \<and> (\<forall>m d. NakWithDelay m d \<in> set es \<longrightarrow> d > 0)
    \<and> (\<forall>m. Ack m \<in> set es \<longrightarrow> (\<exists>A M now msgs. Fetched A M now msgs \<in> set fs \<and> m \<in> set msgs
          \<and> may_ack (with_caches c A M) es m))"
  by (rule Start_run [OF assms])

theorem Start_disposes_witness:
  "\<exists>es. ts_log (snd (run_state (Start sample_consumer True None None (\<lambda>rs. ret None)
          [FetchFailed, Fetched empty_cache empty_cache 0 sample_messages]) \<lparr>ts_world = (), ts_log = []\<rparr>)) = es
    \<and> mset (disposed es) = mset sample_messages"
proof -
  let ?r = "run_state (Start sample_consumer True None None (\<lambda>rs. ret None)
      [FetchFailed, Fetched empty_cache empty_cache 0 sample_messages])
    \<lparr>ts_world = (), ts_log = []\<rparr> :: string option \<times> (unit, step) traced_state"
  have "?r = (fst ?r, snd ?r)" by (rule surjective_pairing)
  from Start_disposes [OF this] show ?thesis by auto
qed

text \<open>The times that are known.\<close>

definition known_times :: "message list \<Rightarrow> int set" where
  "known_times msgs = {t. t \<noteq> zero_time \<and> (\<exists>m\<in>set msgs. ms_Timestamp m = Some t)}"

lemma known_times_simps [simp]:
  "known_times [] = {}"
  "known_times (m # msgs) = (case ms_Timestamp m of None \<Rightarrow> {} | Some t \<Rightarrow> {t} - {zero_time}) \<union> known_times msgs"
  by (auto simp: known_times_def split: option.splits)

lemma known_times_finite: "finite (known_times msgs)"
  by (induction msgs) (auto split: option.splits)

lemma oldest_tracks: "oldestTimestamp t msgs
    = (let ts = ({t} - {zero_time}) \<union> known_times msgs in if ts = {} then zero_time else Min ts)"
proof (induction msgs arbitrary: t)
  case (Cons m msgs)
  show ?case
  proof (cases "\<exists>u. ms_Timestamp m = Some u \<and> u \<noteq> zero_time")
    case False
    then show ?thesis using Cons.IH by (auto split: option.splits)
  next
    case True
    then obtain u where u: "ms_Timestamp m = Some u" "u \<noteq> zero_time" by blast
    then show ?thesis using Cons.IH [of "if t = zero_time \<or> u < t then u else t"]
      by (cases "t = zero_time"; cases "known_times msgs = {}")
        (auto simp: Let_def known_times_finite min_def)
  qed
qed simp

lemma lag_before_known: "lag_before now msgs =
    (if known_times msgs = {} then [] else [setOldestUnsubmittedAge (time_since now (Min (known_times msgs)))])"
proof (cases "known_times msgs = {}")
  case False
  then have "Min (known_times msgs) \<in> known_times msgs" by (intro Min_in known_times_finite)
  with False show ?thesis by (simp add: lag_before_def oldest_tracks Let_def known_times_def)
qed (simp add: lag_before_def oldest_tracks)

text \<open>The steps of one fetch, as the gauge sees them.\<close>

fun gauged :: "fetch \<Rightarrow> step list \<Rightarrow> bool" where
  "gauged FetchFailed es \<longleftrightarrow> es = []"
| "gauged (Fetched A M now msgs) es \<longleftrightarrow> (\<exists>mid. mset (disposed mid) = mset msgs \<and> (\<forall>a. setOldestUnsubmittedAge a \<notin> set mid)
     \<and> es = (if known_times msgs = {} then [] else [setOldestUnsubmittedAge (time_since now (Min (known_times msgs)))])
            @ mid @ [setOldestUnsubmittedAge 0])"

lemma batch_gauged: "batch c f es \<Longrightarrow> gauged f es"
proof (cases f)
  case (Fetched A M now msgs)
  assume "batch c f es"
  then show ?thesis unfolding Fetched batch.simps gauged.simps lag_before_known processed_def by blast
qed simp

text \<open>
  C27.  The gauge of the pipeline's lag: while a batch is worked off, from before its first message
  is submitted, acknowledged or put back until after its last, the gauge holds the age, at the
  time of the fetch, of the oldest message whose time is known; between batches and after the end
  it is zero.  A failed fetch does not touch it.
\<close>

theorem Start_gauge:
  assumes "run_state (Start c synced js_err cons_err submit fs) s = (None, s')"
  shows "\<exists>ess. ts_log s' = ts_log s @ concat ess @ [setOldestUnsubmittedAge 0] \<and> list_all2 gauged fs ess"
proof -
  from leavesD [OF Start_leaves assms] obtain ess where
    "ts_log s' = ts_log s @ concat ess @ [setOldestUnsubmittedAge 0]" "list_all2 (batch (start_defaults c)) fs ess" by auto
  with batch_gauged show ?thesis by (blast intro: list_all2_mono)
qed

theorem Start_gauge_witness:
  "\<exists>s' mid. run_state (Start sample_consumer True None None (\<lambda>rs. ret None) [Fetched empty_cache empty_cache 0 sample_messages])
        \<lparr>ts_world = (), ts_log = []\<rparr> = (None, s')
     \<and> ts_log s' = [setOldestUnsubmittedAge second] @ mid @ [setOldestUnsubmittedAge 0, setOldestUnsubmittedAge 0]
     \<and> mset (disposed mid) = mset sample_messages"
proof -
  let ?r = "run_state (Start sample_consumer True None None (\<lambda>rs. ret None) [Fetched empty_cache empty_cache 0 sample_messages])
    \<lparr>ts_world = (), ts_log = []\<rparr> :: string option \<times> (unit, step) traced_state"
  have "fst ?r = None" by (simp add: Start_def Let_def run_simps split: prod.splits)
  then obtain s' where run: "?r = (None, s')" by (metis prod.collapse)
  have "known_times sample_messages = {- second}" by (simp add: sample_messages_def zero_time_def)
  moreover have "time_since 0 (- second) = second" by (simp add: time_since_def)
  ultimately show ?thesis using Start_gauge [OF run] run by (auto simp: list_all2_Cons1)
qed

text \<open>
  C19.  What the caches hold does not decide what an event is: an event discarded under one state
  of the caches yields a record under none, so no valid event is lost; and the records an event
  yields under two states of the caches differ at most in the customer and the meter, so a
  redelivered event carries the same idempotency key, value, time and dimensions.
\<close>

theorem prepareRecord_redelivery:
  assumes "c' = c\<lparr>sc_BillingAccountCache := A, sc_MeterCache := M\<rparr>"
  shows "(prepareRecord c msg = Inl (permanentValidationError e) \<longrightarrow> prepareRecord c' msg \<noteq> Inr r')
    \<and> (prepareRecord c msg = Inr r \<and> prepareRecord c' msg = Inr r' \<longrightarrow>
         r' = r\<lparr>ur_CustomerID := ur_CustomerID r', ur_MeterAPIName := ur_MeterAPIName r'\<rparr>)"
  unfolding assms prepareRecord_def Let_def
  by (auto split: sum.splits option.splits)

theorem prepareRecord_redelivery_witness:
  "\<forall>r. prepareRecord (sample_consumer\<lparr>sc_BillingAccountCache := empty_cache, sc_MeterCache := empty_cache\<rparr>)
      \<lparr>ms_Subject = [], ms_Data = [], ms_Timestamp = None\<rparr> \<noteq> Inr r"
proof
  fix r
  have "prepareRecord sample_consumer \<lparr>ms_Subject = [], ms_Data = [], ms_Timestamp = None\<rparr>
      = Inl (permanentValidationError ''unexpected end of JSON input'')"
    by (simp add: prepareRecord_def sample_consumer_def sample_ce_def)
  with prepareRecord_redelivery [OF refl, where c = sample_consumer and A = empty_cache and M = empty_cache and r' = r]
  show "prepareRecord (sample_consumer\<lparr>sc_BillingAccountCache := empty_cache, sc_MeterCache := empty_cache\<rparr>)
      \<lparr>ms_Subject = [], ms_Data = [], ms_Timestamp = None\<rparr> \<noteq> Inr r" by blast
qed



text \<open>Without that, deleting one of two accounts of one name hides the other.\<close>

lemma BillingAccountCache_shadowed:
  assumes "ba_Name a = ba_Name b" "ba_Namespace a \<noteq> ba_Namespace b"
  shows "live account_ident [Added a, Added b, Deleted b] (account_ident a) = Some a"
    "GetUID (BillingAccountCache_events [Added a, Added b, Deleted b]) (ba_Name a) = None"
  using assms
  by (auto simp: live_def live_event_def handle_event_def account_ident_def GetUID_def
      BillingAccountCache_events_def BillingAccountCache_upsert_def BillingAccountCache_delete_def)

text \<open>
  After any sequence of informer events in which meter names and definitions determine each
  other, the meter cache answers a meter name with the Amberflo name of the published or deprecated
  definition that exists under it, and knows no other meter names.
\<close>

theorem MeterDefinitionCache_tracks:
  assumes "keys_identify meter_ident md_MeterName es"
  shows "GetAPIName (MeterDefinitionCache_events es) name = Some apiName
    \<longleftrightarrow> (\<exists>i md. live meter_ident es i = Some md \<and> md_MeterName md = name
          \<and> (md_Phase md = PhasePublished \<or> md_Phase md = PhaseDeprecated)
          \<and> MeterAPIName (om_Name (md_Meta md)) = apiName)"
  using meter_cache.tracks [OF assms]
  by (simp add: MeterDefinitionCache_events_def meter_entry_def split: if_splits) blast

definition sample_definition :: "MeterPhase \<Rightarrow> MeterDefinition" where
  "sample_definition ph = \<lparr>md_Meta = named_meta [] ''cpu-seconds'' ''u'', md_MeterName = ''cpu'',
     md_DisplayName = [], md_Phase = ph, md_Aggregation = MeterAggregationSum, md_Unit = [], md_Dimensions = []\<rparr>"

theorem MeterDefinitionCache_tracks_witness:
  "GetAPIName (MeterDefinitionCache_events
     [Added (sample_definition PhasePublished), Updated (sample_definition PhasePublished) (sample_definition PhaseDraft)])
     ''cpu'' \<noteq> Some ''cpu-seconds''"
proof -
  let ?es = "[Added (sample_definition PhasePublished),
    Updated (sample_definition PhasePublished) (sample_definition PhaseDraft)]"
  have "keys_identify meter_ident md_MeterName ?es"
    by (auto simp: keys_identify_def meter_ident_def sample_definition_def)
  moreover have "live meter_ident ?es i = Some md \<Longrightarrow> md = sample_definition PhaseDraft" for i md
    by (auto simp: live_def live_event_def handle_event_def meter_ident_def sample_definition_def split: if_splits)
  moreover have "md_Phase (sample_definition PhaseDraft) = PhaseDraft" by (simp add: sample_definition_def)
  ultimately show ?thesis
    using MeterDefinitionCache_tracks [of ?es "''cpu''" "''cpu-seconds''"] by (metis MeterPhase.distinct(1,3))
qed

lemma space_heads:
  "list_all (\<lambda>p. p \<noteq> [] \<and> \<not> is_digit (hd p) \<and> hd p \<noteq> CHR ''-'') (removeAll [CHR 0x0A] space_runes)"
  by code_simp

text \<open>
  Reading the usage value: every int64 is read back from its decimal text, whatever follows
  the digits; so a value with a fraction or trailing garbage is accepted, not discarded.
\<close>

theorem Sscanf_d_prefix:
  assumes "in_int64 i" "rest = [] \<or> \<not> is_digit (hd rest)"
  shows "Sscanf_d (itoa i @ rest) = Some i"
proof -
  have tw: "takeWhile is_digit (nat_digits n @ rest) = nat_digits n" for n
  proof -
    have "takeWhile is_digit (nat_digits n @ rest) = nat_digits n @ takeWhile is_digit rest"
      using nat_digits_digits [of n] by (simp add: list_all_iff)
    with assms(2) show ?thesis by (cases rest) auto
  qed
  have start: "trim_by (removeAll [CHR 0x0A] space_runes) (c # t) = c # t" if "is_digit c \<or> c = CHR ''-''" for c t
  proof -
    define ps where "ps = removeAll [CHR 0x0A] space_runes"
    have "\<not> prefix p (c # t)" if p: "p \<in> set ps" for p
    proof
      assume pre: "prefix p (c # t)"
      from space_heads p have h: "p \<noteq> []" "\<not> is_digit (hd p)" "hd p \<noteq> CHR ''-''"
        by (auto simp: list_all_iff ps_def)
      with pre have "hd p = c" by (cases p) auto
      with h \<open>is_digit c \<or> c = CHR ''-''\<close> show False by auto
    qed
    then have "find (\<lambda>p. p \<noteq> [] \<and> prefix p (c # t)) (removeAll [CHR 0x0A] space_runes) = None"
      by (auto simp: find_None_iff ps_def simp del: set_removeAll)
    then show ?thesis by (subst trim_by.simps) simp
  qed
  have trim: "trim_by (removeAll [CHR 0x0A] space_runes) (itoa i @ rest) = itoa i @ rest"
  proof (cases "nat_digits (nat i)")
    case (Cons c cs)
    with nat_digits_digits [of "nat i"] have "is_digit c" by simp
    with Cons show ?thesis by (auto simp: itoa_def start)
  qed simp
  show ?thesis
  proof (cases "i < 0")
    case True
    then show ?thesis using assms(1) trim tw [of "nat (- i)"]
      by (simp add: Sscanf_d_def itoa_def split_sign_def Let_def)
  next
    case False
    obtain c cs where n: "nat_digits (nat i) = c # cs" "c \<noteq> CHR ''-''" "c \<noteq> CHR ''+''"
      using nat_digits_digits [of "nat i"] is_digit_no_sign by (cases "nat_digits (nat i)") auto
    then have "split_sign (itoa i @ rest) = (False, nat_digits (nat i) @ rest)"
      using False by (simp add: itoa_def split_sign_def)
    with False show ?thesis using assms(1) trim tw [of "nat i"]
      by (simp add: Sscanf_d_def Let_def)
  qed
qed

theorem Sscanf_d_prefix_witness: "Sscanf_d (itoa 12 @ ''.9 GB'') = Some 12"
proof (rule Sscanf_d_prefix)
  show "in_int64 12" by (simp add: in_int64_def)
  show "''.9 GB'' = [] \<or> \<not> is_digit (hd ''.9 GB'')" by code_simp
qed

end
