(* ===== verification/InvoiceSync.thy ===== *)
theory InvoiceSync
  imports Kube InvoicePhase
begin

text \<open>
  internal/invoice/sync.go: the syncer that projects an Amberflo invoice onto a Milo Invoice
  object.  The Kubernetes client and the helpers \<open>SetOwnerReference\<close> and \<open>SetStatusCondition\<close> are
  parameters; every call to the API server is in the trace with what it was given and returned.
\<close>

section \<open>Invoice objects\<close>

record InvoiceSpec =
  sp_BillingAccountName :: string
  sp_PeriodStart :: int
  sp_PeriodEnd :: int

record InvoiceStatus =
  is_Phase :: "InvoicePhase option"
  is_CurrencyCode :: string
  is_Total :: string
  is_AmountPaid :: string
  is_AmountDue :: string
  is_DocumentURI :: string
  is_ObservedGeneration :: int
  is_DueDate :: "int option"
  is_PaidAt :: "int option"
  is_Conditions :: "Condition list"

record Invoice =
  iv_Meta :: ObjectMeta
  iv_Spec :: InvoiceSpec
  iv_Status :: InvoiceStatus

definition zero_status :: InvoiceStatus where
  "zero_status = \<lparr>is_Phase = None, is_CurrencyCode = [], is_Total = [], is_AmountPaid = [],
     is_AmountDue = [], is_DocumentURI = [], is_ObservedGeneration = 0, is_DueDate = None,
     is_PaidAt = None, is_Conditions = []\<rparr>"

text \<open>The Kubernetes client and helpers.  Writes return the object as the API server sent it back;
  a patch gets the object it starts from and the object it wants.\<close>

record 'w invoice_api =
  api_Now :: "('w, int) io"
  api_Get :: "string \<Rightarrow> string \<Rightarrow> ('w, kerr + Invoice) io"
  api_Create :: "Invoice \<Rightarrow> ('w, kerr + Invoice) io"
  api_Patch :: "Invoice \<Rightarrow> Invoice \<Rightarrow> ('w, kerr + Invoice) io"
  api_StatusPatch :: "Invoice \<Rightarrow> Invoice \<Rightarrow> ('w, kerr + Invoice) io"
  api_SetOwnerReference :: "BillingAccount \<Rightarrow> OwnerReference list \<Rightarrow> string + OwnerReference list"
  api_SetStatusCondition :: "Condition list \<Rightarrow> Condition \<Rightarrow> Condition list"
  api_GroupVersion :: string
  api_ReadyCondition :: string
  api_phase_text :: "InvoicePhase \<Rightarrow> string"

datatype inv_step =
    NowIs int
  | GetInv string string "kerr + Invoice"
  | CreateInv Invoice "kerr + Invoice"
  | PatchInv Invoice Invoice "kerr + Invoice"
  | PatchInvStatus Invoice Invoice "kerr + Invoice"

section \<open>sync.go\<close>

definition InvoiceKeyAnnotation :: string where
  "InvoiceKeyAnnotation = ''amberflo.billing.miloapis.com/invoiceKey''"

text \<open>What one \<open>Upsert\<close> computes before it talks to the API server.\<close>

record projection =
  pj_Phase :: InvoicePhase
  pj_Total :: string
  pj_Paid :: string
  pj_Due :: string
  pj_Currency :: string
  pj_KeyAnnotation :: string
  pj_Now :: int

definition project :: "BillingAccount \<Rightarrow> CustomerProductInvoice \<Rightarrow> int \<Rightarrow> projection" where
  "project account iv t =
     (let phase = MapPhase iv t;
          (tot, paid, due) = Amounts (pb_TotalPrice (ci_TotalBill iv)) phase;
          key = ci_InvoiceKey iv;
          key = (if ik_CustomerID key = [] then key\<lparr>ik_CustomerID := ba_UID account\<rparr> else key)
      in \<lparr>pj_Phase = phase, pj_Total = tot, pj_Paid = paid, pj_Due = due,
          pj_Currency = ba_CurrencyCode account, pj_KeyAnnotation = FormatInvoiceKey key, pj_Now = t\<rparr>)"

definition disown :: "string \<Rightarrow> OwnerReference \<Rightarrow> OwnerReference" where
  "disown uid r = (if or_UID r = uid then r\<lparr>or_Controller := Some False, or_BlockOwnerDeletion := Some False\<rparr> else r)"

definition ready_condition :: "'w invoice_api \<Rightarrow> BillingAccount \<Rightarrow> projection \<Rightarrow> int \<Rightarrow> Condition" where
  "ready_condition api account pj gen =
     (let ph = api_phase_text api (pj_Phase pj);
          ready = \<lparr>co_Type = api_ReadyCondition api, co_Status = ''True'', co_Reason = ph,
            co_Message = ''Invoice projected from Amberflo with phase '' @ ph,
            co_ObservedGeneration = gen, co_LastTransitionTime = zero_time\<rparr>
      in if pj_Currency pj \<noteq> [] \<and> ba_CurrencyCode account \<noteq> [] \<and> pj_Currency pj \<noteq> ba_CurrencyCode account
         then ready\<lparr>co_Status := ''False'', co_Reason := ''CurrencyMismatch'',
                co_Message := ''invoice currency '' @ print_str (pj_Currency pj)
                  @ '' does not match BillingAccount currency '' @ print_str (ba_CurrencyCode account)\<rparr>
         else ready)"

definition want_status :: "'w invoice_api \<Rightarrow> BillingAccount \<Rightarrow> CustomerProductInvoice \<Rightarrow> projection
    \<Rightarrow> int \<Rightarrow> InvoiceStatus \<Rightarrow> InvoiceStatus" where
  "want_status api account iv pj gen st = st
     \<lparr>is_Phase := Some (pj_Phase pj), is_CurrencyCode := pj_Currency pj, is_Total := pj_Total pj,
      is_AmountPaid := pj_Paid pj, is_AmountDue := pj_Due pj, is_DocumentURI := ci_InvoiceURI iv,
      is_ObservedGeneration := gen,
      is_DueDate := (case DueTime iv of None \<Rightarrow> is_DueDate st | Some d \<Rightarrow> Some d),
      is_PaidAt := (if pj_Phase pj = InvoicePhasePaid
        then Some (if ci_PaymentCreatedInSeconds iv > 0 then time_Unix (ci_PaymentCreatedInSeconds iv) else pj_Now pj)
        else None),
      is_Conditions := api_SetStatusCondition api (is_Conditions st)
        (ready_condition api account pj gen)\<rparr>"

definition patchStatus :: "'w invoice_api \<Rightarrow> Invoice \<Rightarrow> BillingAccount \<Rightarrow> CustomerProductInvoice \<Rightarrow> projection
    \<Rightarrow> ('w, inv_step, rerr option) act" where
  "patchStatus api base account iv pj =
     (let m = iv_Meta base;
          anns = mset_key InvoiceKeyAnnotation (pj_KeyAnnotation pj) (om_Annotations m)
      in case api_SetOwnerReference api account (om_OwnerReferences m) of
        Inl e \<Rightarrow> ret (Some (TextErr (''set owner reference: '' @ e)))
      | Inr refs \<Rightarrow>
        (let obj = base\<lparr>iv_Meta := m\<lparr>om_Annotations := anns,
                   om_OwnerReferences := map (disown (ba_UID account)) refs\<rparr>\<rparr>
         in do {
           r \<leftarrow> perform (api_Patch api base obj) (PatchInv base obj);
           case r of
             Inl e \<Rightarrow> ret (Some (KubeErr (''patch Invoice metadata '' @ om_Namespace m @ ''/'' @ om_Name m) e))
           | Inr statusBase \<Rightarrow> do {
               let obj = statusBase\<lparr>iv_Status := want_status api account iv pj
                 (om_Generation (iv_Meta statusBase)) (iv_Status statusBase)\<rparr>;
               r \<leftarrow> perform (api_StatusPatch api statusBase obj) (PatchInvStatus statusBase obj);
               ret (case r of
                 Inl e \<Rightarrow> Some (KubeErr (''patch Invoice status '' @ om_Namespace m @ ''/'' @ om_Name m) e)
               | Inr _ \<Rightarrow> None)
             }
         }))"

definition new_invoice :: "'w invoice_api \<Rightarrow> BillingAccount \<Rightarrow> CustomerProductInvoice \<Rightarrow> string \<Rightarrow> projection \<Rightarrow> Invoice" where
  "new_invoice api account iv name pj =
     \<lparr>iv_Meta = (named_meta (ba_Namespace account) name [])
        \<lparr>om_Annotations := [(InvoiceKeyAnnotation, pj_KeyAnnotation pj)],
         om_OwnerReferences := [\<lparr>or_APIVersion = api_GroupVersion api, or_Kind = ''BillingAccount'',
           or_Name = ba_Name account, or_UID = ba_UID account, or_Controller = Some False,
           or_BlockOwnerDeletion = Some False\<rparr>]\<rparr>,
      iv_Spec = \<lparr>sp_BillingAccountName = ba_Name account,
        sp_PeriodStart = time_Unix (ci_InvoiceStartTimeInSeconds iv),
        sp_PeriodEnd = time_Unix (ci_InvoiceEndTimeInSeconds iv)\<rparr>,
      iv_Status = zero_status\<rparr>"

definition create_invoice :: "'w invoice_api \<Rightarrow> BillingAccount \<Rightarrow> CustomerProductInvoice \<Rightarrow> string \<Rightarrow> projection
    \<Rightarrow> ('w, inv_step, rerr option) act" where
  "create_invoice api account iv name pj =
     (let obj = new_invoice api account iv name pj; ns = ba_Namespace account in do {
        r \<leftarrow> perform (api_Create api obj) (CreateInv obj);
        case r of
          Inl e \<Rightarrow>
            if e = AlreadyExists then do {
              g \<leftarrow> perform (api_Get api ns name) (GetInv ns name);
              case g of
                Inl e \<Rightarrow> ret (Some (KubeErr (''create race re-get Invoice '' @ ns @ ''/'' @ name) e))
              | Inr existing \<Rightarrow> patchStatus api existing account iv pj
            }
            else ret (Some (KubeErr (''create Invoice '' @ ns @ ''/'' @ name) e))
        | Inr created \<Rightarrow> patchStatus api created account iv pj
      })"

definition Upsert :: "'w invoice_api \<Rightarrow> BillingAccount option \<Rightarrow> CustomerProductInvoice
    \<Rightarrow> ('w, inv_step, rerr option) act" where
  "Upsert api acc iv =
     (case acc of
        None \<Rightarrow> ret (Some (TextErr ''invoice sync: BillingAccount is required''))
      | Some account \<Rightarrow>
        if ci_InvoiceStartTimeInSeconds iv \<le> 0
        then ret (Some (TextErr ''invoice sync: invoiceStartTimeInSeconds is required''))
        else do {
          t \<leftarrow> perform (api_Now api) NowIs;
          let name = InvoiceName (ba_Name account) (ci_InvoiceStartTimeInSeconds iv);
          let ns = ba_Namespace account;
          let pj = project account iv t;
          g \<leftarrow> perform (api_Get api ns name) (GetInv ns name);
          case g of
            Inl e \<Rightarrow>
              if e = NotFound then create_invoice api account iv name pj
              else ret (Some (KubeErr (''get Invoice '' @ ns @ ''/'' @ name) e))
          | Inr existing \<Rightarrow> patchStatus api existing account iv pj
        })"

section \<open>What the API server promises\<close>

text \<open>The helpers: after \<open>SetOwnerReference\<close> the owner is referenced; after \<open>SetStatusCondition\<close> the
  list has the condition, up to its transition time, and no other of its type.\<close>

definition condition_set :: "Condition list \<Rightarrow> Condition \<Rightarrow> bool" where
  "condition_set cs c \<longleftrightarrow> filter (\<lambda>d. co_Type d = co_Type c) (map (\<lambda>d. d\<lparr>co_LastTransitionTime := co_LastTransitionTime c\<rparr>) cs) = [c]"

definition helper_laws :: "'w invoice_api \<Rightarrow> bool" where
  "helper_laws api \<longleftrightarrow>
     (\<forall>a rs rs'. api_SetOwnerReference api a rs = Inr rs' \<longrightarrow> (\<exists>r\<in>set rs'. or_UID r = ba_UID a))
   \<and> (\<forall>cs c. condition_set (api_SetStatusCondition api cs c) c)"

text \<open>An API server that nobody else writes to: \<open>store\<close> is its content.  A read that answers
  answers with the content; a failed call changes nothing; a created object keeps what it was
  created with; a patch from the current content stores the metadata and spec it wants, a status
  patch the status it wants.\<close>

type_synonym 'w invoice_store = "'w \<Rightarrow> string \<times> string \<Rightarrow> Invoice option"

definition key_of :: "Invoice \<Rightarrow> string \<times> string" where
  "key_of o1 = (om_Namespace (iv_Meta o1), om_Name (iv_Meta o1))"

definition same_labels :: "ObjectMeta \<Rightarrow> ObjectMeta \<Rightarrow> bool" where
  "same_labels m m' \<longleftrightarrow> om_Name m = om_Name m' \<and> om_Namespace m = om_Namespace m'
     \<and> om_Annotations m = om_Annotations m' \<and> om_OwnerReferences m = om_OwnerReferences m'"

definition write_law :: "(Invoice \<Rightarrow> ('w, kerr + Invoice) io) \<Rightarrow> 'w invoice_store \<Rightarrow> (Invoice \<Rightarrow> Invoice \<Rightarrow> bool) \<Rightarrow> bool" where
  "write_law m store good \<longleftrightarrow> (\<forall>obj w r w'. run_state (m obj) w = (r, w') \<longrightarrow>
     (case r of Inl e \<Rightarrow> store w' = store w
      | Inr o1 \<Rightarrow> good obj o1 \<and> store w' = (store w)(key_of obj := Some o1)))"

definition store_laws :: "'w invoice_api \<Rightarrow> 'w invoice_store \<Rightarrow> bool" where
  "store_laws api store \<longleftrightarrow>
     (\<forall>w r w'. run_state (api_Now api) w = (r, w') \<longrightarrow> store w' = store w)
   \<and> (\<forall>ns name w r w'. run_state (api_Get api ns name) w = (r, w') \<longrightarrow> store w' = store w
        \<and> (case r of Inl e \<Rightarrow> e = NotFound \<longrightarrow> store w (ns, name) = None
           | Inr o1 \<Rightarrow> store w (ns, name) = Some o1 \<and> key_of o1 = (ns, name)))
   \<and> write_law (api_Create api) store (\<lambda>obj o1. same_labels (iv_Meta o1) (iv_Meta obj) \<and> iv_Spec o1 = iv_Spec obj)
   \<and> (\<forall>base. write_law (api_Patch api base) store
        (\<lambda>obj o1. same_labels (iv_Meta o1) (iv_Meta obj) \<and> iv_Spec o1 = iv_Spec obj))
   \<and> (\<forall>base. write_law (api_StatusPatch api base) store
        (\<lambda>obj o1. same_labels (iv_Meta o1) (iv_Meta obj) \<and> iv_Spec o1 = iv_Spec obj
            \<and> iv_Status o1 = iv_Status obj))"


section \<open>Facts\<close>

lemma write_lawD:
  assumes "write_law m store good" "run_state (m obj) w = (Inr o1, w')"
  shows "good obj o1" "store w' = (store w)(key_of obj := Some o1)"
proof -
  from assms have "case (Inr o1 :: kerr + Invoice) of Inl e \<Rightarrow> store w' = store w
      | Inr o1 \<Rightarrow> good obj o1 \<and> store w' = (store w)(key_of obj := Some o1)"
    unfolding write_law_def by blast
  then show "good obj o1" "store w' = (store w)(key_of obj := Some o1)" by simp_all
qed

lemma write_lawE: "write_law m store good \<Longrightarrow> run_state (m obj) w = (Inl e, w') \<Longrightarrow> store w' = store w"
  unfolding write_law_def by fastforce

lemma get_law:
  assumes "store_laws api store" "run_state (api_Get api ns name) w = (r, w')"
  shows "store w' = store w \<and> (case r of Inl e \<Rightarrow> e = NotFound \<longrightarrow> store w (ns, name) = None
    | Inr o1 \<Rightarrow> store w (ns, name) = Some o1 \<and> key_of o1 = (ns, name))"
  using assms unfolding store_laws_def by blast

lemmas get_same = get_law [THEN conjunct1]
  and get_found = get_law [THEN conjunct2, of _ _ _ _ _ "Inr _", unfolded sum.case]

lemma get_missing:
  "store_laws api store \<Longrightarrow> run_state (api_Get api ns name) w = (Inl NotFound, w') \<Longrightarrow> store w (ns, name) = None"
  using get_law [of api store ns name w "Inl NotFound" w'] by simp

text \<open>What a stored invoice shows of its Amberflo invoice.\<close>

definition shows_invoice :: "'w invoice_api \<Rightarrow> BillingAccount \<Rightarrow> CustomerProductInvoice \<Rightarrow> projection \<Rightarrow> Invoice \<Rightarrow> bool" where
  "shows_invoice api account iv pj o1 \<longleftrightarrow>
     is_Phase (iv_Status o1) = Some (pj_Phase pj) \<and> is_CurrencyCode (iv_Status o1) = pj_Currency pj
   \<and> is_Total (iv_Status o1) = pj_Total pj \<and> is_AmountPaid (iv_Status o1) = pj_Paid pj
   \<and> is_AmountDue (iv_Status o1) = pj_Due pj \<and> is_DocumentURI (iv_Status o1) = ci_InvoiceURI iv
   \<and> (is_PaidAt (iv_Status o1) \<noteq> None \<longleftrightarrow> pj_Phase pj = InvoicePhasePaid)
   \<and> (\<forall>d. DueTime iv = Some d \<longrightarrow> is_DueDate (iv_Status o1) = Some d)
   \<and> map_of (om_Annotations (iv_Meta o1)) InvoiceKeyAnnotation = Some (pj_KeyAnnotation pj)
   \<and> (\<exists>r\<in>set (om_OwnerReferences (iv_Meta o1)). or_UID r = ba_UID account)
   \<and> (\<forall>r\<in>set (om_OwnerReferences (iv_Meta o1)). or_UID r = ba_UID account \<longrightarrow>
        or_Controller r = Some False \<and> or_BlockOwnerDeletion r = Some False)
   \<and> (\<exists>c\<in>set (is_Conditions (iv_Status o1)). co_Type c = api_ReadyCondition api
        \<and> co_Status c = ''True'' \<and> co_Reason c = api_phase_text api (pj_Phase pj))"

lemma condition_set_mem:
  assumes "condition_set cs c"
  shows "\<exists>d\<in>set cs. co_Type d = co_Type c \<and> co_Status d = co_Status c \<and> co_Reason d = co_Reason c"
proof -
  from assms have "c \<in> set (filter (\<lambda>d. co_Type d = co_Type c) (map (\<lambda>d. d\<lparr>co_LastTransitionTime := co_LastTransitionTime c\<rparr>) cs))"
    unfolding condition_set_def by simp
  then obtain d where d: "d \<in> set cs" "d\<lparr>co_LastTransitionTime := co_LastTransitionTime c\<rparr> = c" by force
  from arg_cong [OF d(2), of co_Type] arg_cong [OF d(2), of co_Status] arg_cong [OF d(2), of co_Reason]
  have "co_Type d = co_Type c" "co_Status d = co_Status c" "co_Reason d = co_Reason c" by simp_all
  with d(1) show ?thesis by blast
qed

text \<open>The currency an invoice gets is its account's, so the condition is never false.\<close>

lemma ready_condition_project:
  "ready_condition api account (project account iv t) gen =
     \<lparr>co_Type = api_ReadyCondition api, co_Status = ''True'', co_Reason = api_phase_text api (MapPhase iv t),
      co_Message = ''Invoice projected from Amberflo with phase '' @ api_phase_text api (MapPhase iv t),
      co_ObservedGeneration = gen, co_LastTransitionTime = zero_time\<rparr>"
  by (simp add: ready_condition_def project_def Let_def split: prod.split)

lemma same_labels_key: "same_labels m m' \<Longrightarrow> iv_Meta o1 = m \<Longrightarrow> iv_Meta o2 = m' \<Longrightarrow> key_of o1 = key_of o2"
  by (simp add: same_labels_def key_of_def)

lemma want_status_fields:
  assumes "helper_laws api" "pj = project account iv t"
  shows "\<exists>c\<in>set (is_Conditions (want_status api account iv pj gen st)). co_Type c = api_ReadyCondition api
     \<and> co_Status c = ''True'' \<and> co_Reason c = api_phase_text api (pj_Phase pj)"
proof -
  let ?c = "ready_condition api account pj gen"
  have c: "co_Type ?c = api_ReadyCondition api" "co_Status ?c = ''True''"
    "co_Reason ?c = api_phase_text api (pj_Phase pj)"
    by (simp_all add: assms(2) ready_condition_project) (simp add: project_def Let_def split: prod.split)
  from assms(1) have "condition_set (api_SetStatusCondition api (is_Conditions st) ?c) ?c"
    by (simp add: helper_laws_def)
  from condition_set_mem [OF this] c show ?thesis by (simp add: want_status_def)
qed

lemma patchStatus_stores:
  assumes laws: "helper_laws api" "store_laws api store" and pj: "pj = project account iv t"
    and run: "run_state (patchStatus api base account iv pj) s = (None, s')"
  shows "\<exists>o1. store (ts_world s') = (store (ts_world s))(key_of base := Some o1)
    \<and> iv_Spec o1 = iv_Spec base \<and> shows_invoice api account iv pj o1"
proof -
  let ?anns = "mset_key InvoiceKeyAnnotation (pj_KeyAnnotation pj) (om_Annotations (iv_Meta base))"
  obtain refs where refs: "api_SetOwnerReference api account (om_OwnerReferences (iv_Meta base)) = Inr refs"
    using run by (auto simp: patchStatus_def Let_def run_simps split: sum.splits)
  define obj where "obj = base\<lparr>iv_Meta := (iv_Meta base)\<lparr>om_Annotations := ?anns,
    om_OwnerReferences := map (disown (ba_UID account)) refs\<rparr>\<rparr>"
  obtain sb w1 where p: "run_state (api_Patch api base obj) (ts_world s) = (Inr sb, w1)"
    using run by (auto simp: patchStatus_def Let_def run_simps refs obj_def split: sum.splits prod.splits)
  define obj2 where "obj2 = sb\<lparr>iv_Status := want_status api account iv pj (om_Generation (iv_Meta sb)) (iv_Status sb)\<rparr>"
  obtain o1 w2 where q: "run_state (api_StatusPatch api sb obj2) w1 = (Inr o1, w2)" "ts_world s' = w2"
    using run p by (auto simp: patchStatus_def Let_def run_simps refs obj_def obj2_def split: sum.splits prod.splits)
  from laws(2) have L: "write_law (api_Patch api base) store
      (\<lambda>obj o1. same_labels (iv_Meta o1) (iv_Meta obj) \<and> iv_Spec o1 = iv_Spec obj)"
    "write_law (api_StatusPatch api sb) store
      (\<lambda>obj o1. same_labels (iv_Meta o1) (iv_Meta obj) \<and> iv_Spec o1 = iv_Spec obj \<and> iv_Status o1 = iv_Status obj)"
    by (simp_all add: store_laws_def)
  note P = write_lawD [OF L(1) p] and Q = write_lawD [OF L(2) q(1)]
  have k: "key_of obj = key_of base" "key_of obj2 = key_of base"
    using P(1) by (simp_all add: key_of_def obj_def obj2_def same_labels_def)
  from laws(1) refs have own: "\<exists>r\<in>set refs. or_UID r = ba_UID account" by (auto simp: helper_laws_def)
  have meta: "om_Annotations (iv_Meta o1) = ?anns"
    "om_OwnerReferences (iv_Meta o1) = map (disown (ba_UID account)) refs"
    using P(1) Q(1) by (simp_all add: obj_def obj2_def same_labels_def)
  from own obtain r where "r \<in> set refs" "or_UID r = ba_UID account" by blast
  then have own: "\<exists>r\<in>set (map (disown (ba_UID account)) refs). or_UID r = ba_UID account"
    by (intro bexI [of _ "disown (ba_UID account) r"]) (simp_all add: disown_def)
  have free: "\<forall>r\<in>set (map (disown (ba_UID account)) refs). or_UID r = ba_UID account \<longrightarrow>
      or_Controller r = Some False \<and> or_BlockOwnerDeletion r = Some False"
    by (auto simp: disown_def)
  have st: "iv_Status o1 = want_status api account iv pj (om_Generation (iv_Meta sb)) (iv_Status sb)"
    using Q(1) by (simp add: obj2_def)
  have "shows_invoice api account iv pj o1"
    unfolding shows_invoice_def meta st using own free want_status_fields [OF laws(1) pj]
    by (simp add: want_status_def)
  moreover have "iv_Spec o1 = iv_Spec base" using P(1) Q(1) by (simp add: obj_def obj2_def)
  moreover have "store (ts_world s') = (store (ts_world s))(key_of base := Some o1)"
    using P(2) Q(2) q(2) k by simp
  ultimately show ?thesis by blast
qed

section \<open>Properties\<close>

text \<open>
  A successful \<open>Upsert\<close> on an API server nobody else writes to: the invoice object of the
  account and month holds the phase, amounts, currency, due and payment times of the Amberflo
  invoice at the time of the call, its key annotation, a ready condition that is true, and the
  account as a non-controlling owner; the spec of an object that existed is untouched, that of a
  new one names the account and the period; no other invoice changes.
\<close>

theorem Upsert_projects:
  assumes "helper_laws api" "store_laws api store"
    and "run_state (Upsert api (Some account) iv) s = (None, s')"
  defines "nn \<equiv> (ba_Namespace account, InvoiceName (ba_Name account) (ci_InvoiceStartTimeInSeconds iv))"
  shows "\<exists>t o1. NowIs t \<in> set (ts_log s')
    \<and> store (ts_world s') = (store (ts_world s))(nn := Some o1)
    \<and> shows_invoice api account iv (project account iv t) o1
    \<and> iv_Spec o1 = (case store (ts_world s) nn of Some old \<Rightarrow> iv_Spec old
        | None \<Rightarrow> \<lparr>sp_BillingAccountName = ba_Name account,
            sp_PeriodStart = time_Unix (ci_InvoiceStartTimeInSeconds iv),
            sp_PeriodEnd = time_Unix (ci_InvoiceEndTimeInSeconds iv)\<rparr>)"
proof -
  obtain ns name where nn: "nn = (ns, name)" "ns = ba_Namespace account"
    "name = InvoiceName (ba_Name account) (ci_InvoiceStartTimeInSeconds iv)" by (simp add: nn_def)
  have start: "\<not> ci_InvoiceStartTimeInSeconds iv \<le> 0"
    using assms(3) by (auto simp: Upsert_def run_simps)
  obtain t w0 where now: "run_state (api_Now api) (ts_world s) = (t, w0)" by fastforce
  obtain g w1 where get: "run_state (api_Get api ns name) w0 = (g, w1)" by fastforce
  let ?s1 = "s\<lparr>ts_world := w1, ts_log := ts_log s @ [NowIs t, GetInv ns name g]\<rparr>"
  define pj where "pj = project account iv t"
  have run: "run_state (case g of Inl e \<Rightarrow> if e = NotFound then create_invoice api account iv name pj
        else ret (Some (KubeErr (''get Invoice '' @ ns @ ''/'' @ name) e))
      | Inr existing \<Rightarrow> patchStatus api existing account iv pj) ?s1 = (None, s')"
    using assms(3) start unfolding pj_def by (simp add: Upsert_def run_simps now get Let_def flip: nn)
  have w01: "store w0 = store (ts_world s)" "store w1 = store w0"
    using assms(2) now get_same [OF assms(2) get] by (simp_all add: store_laws_def)
  have log: "leaves (patchStatus api b account iv pj) (\<lambda>es _. True)" for b
    unfolding patchStatus_def Let_def by (intro leaves_sum leaves_perform_bind leaves_ret TrueI)
  show ?thesis
  proof (cases g)
    case (Inr existing)
    from run Inr have run: "run_state (patchStatus api existing account iv pj) ?s1 = (None, s')" by simp
    have ex: "store w0 nn = Some existing" "key_of existing = nn"
      using get_found [OF assms(2) get [unfolded Inr]] by (simp_all add: nn(1))
    from patchStatus_stores [OF assms(1,2) pj_def run] leavesD [OF log run] ex w01
    show ?thesis by (auto simp: pj_def intro!: exI [of _ t])
  next
    case (Inl e)
    with run have e: "e = NotFound" by (auto simp: run_simps split: if_splits)
    have none: "store w0 nn = None" using get_missing [OF assms(2) get [unfolded Inl e]] by (simp add: nn(1))
    let ?new = "new_invoice api account iv name pj"
    obtain r w2 where cr: "run_state (api_Create api ?new) w1 = (r, w2)" by fastforce
    from assms(2) have wl: "write_law (api_Create api) store
        (\<lambda>obj o1. same_labels (iv_Meta o1) (iv_Meta obj) \<and> iv_Spec o1 = iv_Spec obj)"
      by (simp add: store_laws_def)
    let ?s2 = "?s1\<lparr>ts_world := w2, ts_log := ts_log ?s1 @ [CreateInv ?new r]\<rparr>"
    show ?thesis
    proof (cases r)
      case (Inr created)
      with run Inl e cr have run: "run_state (patchStatus api created account iv pj) ?s2 = (None, s')"
        by (simp add: create_invoice_def run_simps Let_def nn(2))
      note C = write_lawD [OF wl cr [unfolded Inr]]
      have k: "key_of ?new = nn" "key_of created = nn"
        using C(1) by (simp_all add: new_invoice_def key_of_def same_labels_def named_meta_def nn)
      from patchStatus_stores [OF assms(1,2) pj_def run] leavesD [OF log run] C k w01 none
      show ?thesis by (auto simp: pj_def new_invoice_def intro!: exI [of _ t])
    next
      case (Inl e2)
      with run \<open>g = Inl e\<close> e cr obtain ex w3 where
        "e2 = AlreadyExists" "run_state (api_Get api ns name) w2 = (Inr ex, w3)"
        by (auto simp: create_invoice_def run_simps Let_def nn(2) split: if_splits sum.splits prod.splits)
      moreover have "store w2 = store w1"
        using write_lawE [OF wl, of ?new w1 e2 w2] cr Inl by simp
      ultimately have "store w1 nn = Some ex"
        using get_found [OF assms(2), of ns name w2 ex w3] by (simp add: nn(1))
      then have False using none w01 by simp
      then show ?thesis ..
    qed
  qed
qed

text \<open>An API server in memory, which keeps the laws.\<close>

definition store_put :: "Invoice \<Rightarrow> (string \<times> string \<Rightarrow> Invoice option, kerr + Invoice) io" where
  "store_put o1 = State (\<lambda>w. (Inr o1, w(key_of o1 := Some o1)))"

definition memory_api :: "(string \<times> string \<Rightarrow> Invoice option) invoice_api" where
  "memory_api = \<lparr>api_Now = ret (3000 * second),
     api_Get = (\<lambda>ns name. State (\<lambda>w. (case w (ns, name) of None \<Rightarrow> Inl NotFound
        | Some o1 \<Rightarrow> if key_of o1 = (ns, name) then Inr o1 else Inl (OtherKubeError []), w))),
     api_Create = (\<lambda>o1. State (\<lambda>w. if w (key_of o1) = None then run_state (store_put o1) w
        else (Inl AlreadyExists, w))),
     api_Patch = (\<lambda>b. store_put), api_StatusPatch = (\<lambda>b. store_put),
     api_SetOwnerReference = (\<lambda>a rs. Inr (if \<exists>r\<in>set rs. or_UID r = ba_UID a then rs
        else rs @ [\<lparr>or_APIVersion = [], or_Kind = ''BillingAccount'', or_Name = ba_Name a, or_UID = ba_UID a,
          or_Controller = None, or_BlockOwnerDeletion = None\<rparr>])),
     api_SetStatusCondition = (\<lambda>cs c. filter (\<lambda>d. co_Type d \<noteq> co_Type c) cs @ [c]),
     api_GroupVersion = ''v1'', api_ReadyCondition = ''Ready'', api_phase_text = (\<lambda>p. ''Phase'')\<rparr>"

lemma memory_api_laws: "helper_laws memory_api" "store_laws memory_api (\<lambda>w. w)"
proof -
  have "filter (\<lambda>d. co_Type d = co_Type c) (map (\<lambda>d. d\<lparr>co_LastTransitionTime := t\<rparr>)
      (filter (\<lambda>d. co_Type d \<noteq> co_Type c) cs)) = []" for cs c t
    by (auto simp: filter_empty_conv)
  then show "helper_laws memory_api"
    by (auto simp: helper_laws_def condition_set_def memory_api_def)
  have put: "write_law store_put (\<lambda>w. w) good" if "\<And>o1. good o1 o1" for good
    using that by (simp add: write_law_def store_put_def)
  show "store_laws memory_api (\<lambda>w. w)"
    by (auto simp: store_laws_def memory_api_def put same_labels_def run_simps write_law_def store_put_def
        split: option.splits if_splits)
qed

theorem Upsert_projects_witness:
  "\<exists>t o1. shows_invoice memory_api (plain_account ''ns'' ''acme'' ''u1'') sample_invoice
     (project (plain_account ''ns'' ''acme'' ''u1'') sample_invoice t) o1
     \<and> sp_BillingAccountName (iv_Spec o1) = ''acme''"
proof -
  let ?a = "plain_account ''ns'' ''acme'' ''u1''"
  let ?s = "\<lparr>ts_world = (\<lambda>_. None), ts_log = []\<rparr> :: (string \<times> string \<Rightarrow> Invoice option, inv_step) traced_state"
  obtain e s' where run: "run_state (Upsert memory_api (Some ?a) sample_invoice) ?s = (e, s')" by fastforce
  have "e = None"
    using run by (auto simp: Upsert_def run_simps memory_api_def sample_invoice_def Let_def create_invoice_def
        store_put_def patchStatus_def)
  from Upsert_projects [OF memory_api_laws run [unfolded this]]
  obtain t o1 where o1: "shows_invoice memory_api ?a sample_invoice (project ?a sample_invoice t) o1"
    "sp_BillingAccountName (iv_Spec o1) = ba_Name ?a" by auto
  have "ba_Name ?a = ''acme''" by (simp add: plain_account_def named_meta_def)
  with o1 show ?thesis by auto
qed

text \<open>What one call sends, whatever the server answers and whoever else writes.\<close>

definition polite :: "inv_step list \<Rightarrow> bool" where
  "polite es \<longleftrightarrow>
     (\<forall>b o1 r. PatchInv b o1 r \<in> set es \<longrightarrow> iv_Spec o1 = iv_Spec b \<and> iv_Status o1 = iv_Status b)
   \<and> (\<forall>b o1 r. PatchInvStatus b o1 r \<in> set es \<longrightarrow> iv_Spec o1 = iv_Spec b \<and> iv_Meta o1 = iv_Meta b
        \<and> (\<exists>b0 o0. PatchInv b0 o0 (Inr b) \<in> set es))
   \<and> (\<forall>before o1 r after. es = before @ CreateInv o1 r # after \<longrightarrow>
        (\<exists>ns name. GetInv ns name (Inl NotFound) \<in> set before \<and> key_of o1 = (ns, name)))"

lemma polite_append:
  assumes "polite pre" "polite es" "\<forall>o1 r. CreateInv o1 r \<notin> set es"
  shows "polite (pre @ es)"
  unfolding polite_def
proof (intro conjI allI impI)
  fix before o1 r after assume "pre @ es = before @ CreateInv o1 r # after"
  moreover from assms(3) have "CreateInv o1 r \<notin> set es" by blast
  ultimately have "\<exists>us. pre = before @ CreateInv o1 r # us"
    by (auto simp: append_eq_append_conv2 Cons_eq_append_conv append_eq_Cons_conv)
  with assms(1) show "\<exists>ns name. GetInv ns name (Inl NotFound) \<in> set before \<and> key_of o1 = (ns, name)"
    unfolding polite_def by blast
qed (use assms(1,2) in \<open>fastforce simp: polite_def\<close>)+

lemma patchStatus_sends:
  "leaves (patchStatus api base account iv pj) (\<lambda>es _. es = [] \<or>
     (\<exists>o1 r. iv_Spec o1 = iv_Spec base \<and> iv_Status o1 = iv_Status base \<and>
       (es = [PatchInv base o1 r]
        \<or> (\<exists>b2 o2 r2. r = Inr b2 \<and> iv_Spec o2 = iv_Spec b2 \<and> iv_Meta o2 = iv_Meta b2
            \<and> es = [PatchInv base o1 r, PatchInvStatus b2 o2 r2]))))"
  unfolding patchStatus_def Let_def
  by (intro leaves_sum leaves_perform_bind leaves_ret) (auto intro!: exI)

lemma polite_plain:
  "list_all (\<lambda>e. case e of NowIs t \<Rightarrow> True | GetInv ns n r \<Rightarrow> True | _ \<Rightarrow> False) es \<Longrightarrow> polite es"
  by (fastforce simp: polite_def list_all_iff)

lemma patchStatus_polite:
  "leaves (patchStatus api base account iv pj) (\<lambda>es _. polite es \<and> (\<forall>o1 r. CreateInv o1 r \<notin> set es))"
  by (rule leaves_weaken [OF patchStatus_sends])
    (auto simp: polite_def Cons_eq_append_conv append_eq_Cons_conv)

lemma polite_create:
  "polite es \<Longrightarrow> GetInv ns name (Inl NotFound) \<in> set es \<Longrightarrow> key_of o1 = (ns, name)
     \<Longrightarrow> polite (es @ [CreateInv o1 r])"
  unfolding polite_def by (auto simp: append_eq_append_conv2 Cons_eq_append_conv append_eq_Cons_conv) blast+

text \<open>
  C17.  Whatever the API server answers and whoever else writes: \<open>Upsert\<close> creates an object only
  after the server reported that very object missing; its metadata patch leaves spec and status of
  the object it started from alone, its status patch spec and metadata; and the status patch starts
  from what the metadata patch returned.
\<close>

theorem Upsert_polite:
  assumes "run_state (Upsert api acc iv) s = (e, s')"
  shows "\<exists>es. ts_log s' = ts_log s @ es \<and> polite es"
proof -
  have patch: "leaves (patchStatus api b account iv pj) (\<lambda>es _. polite (pre @ es))" if "polite pre" for b account pj pre
    by (rule leaves_weaken [OF patchStatus_polite]) (use that in \<open>auto intro: polite_append\<close>)
  have P1: "polite []" "polite [NowIs t]" "polite [NowIs t, GetInv ns name g]" for t ns name g
    by (rule polite_plain, simp)+
  have P3: "polite [NowIs t, GetInv (ba_Namespace a) name (Inl NotFound), CreateInv (new_invoice api a iv name pj) r]"
    for t a name pj r
    using polite_create [OF P1(3), of "ba_Namespace a" name t "ba_Namespace a" name]
    by (simp add: new_invoice_def key_of_def named_meta_def)
  have P4: "polite [NowIs t, GetInv (ba_Namespace a) name (Inl NotFound), CreateInv (new_invoice api a iv name pj) r,
      GetInv ns n g]" for t a name pj r ns n g
    using polite_append [OF P3, of "[GetInv ns n g]"] polite_plain [of "[GetInv ns n g]"] by simp
  note patch2 = patch [OF P1(3), unfolded append_Cons append_Nil]
    and patch3 = patch [OF P3, unfolded append_Cons append_Nil]
    and patch4 = patch [OF P4, unfolded append_Cons append_Nil]
  have "leaves (Upsert api acc iv) (\<lambda>es _. polite es)"
    unfolding Upsert_def create_invoice_def Let_def
    by (intro leaves_option leaves_if leaves_ret leaves_perform_bind leaves_sum)
      (auto intro: P1 P3 P4 patch2 patch3 patch4)
  from leavesD [OF this assms] show ?thesis by blast
qed

theorem Upsert_polite_witness:
  "polite (ts_log (snd (run_state (Upsert memory_api (Some (plain_account ''ns'' ''acme'' ''u1'')) sample_invoice)
     \<lparr>ts_world = (\<lambda>_. None), ts_log = []\<rparr>)))"
  using Upsert_polite [OF surjective_pairing, of memory_api "Some (plain_account ''ns'' ''acme'' ''u1'')" sample_invoice
      "\<lparr>ts_world = (\<lambda>_. None), ts_log = []\<rparr>"] by auto

end
