(* ===== verification/StripeSwitch.thy ===== *)
theory StripeSwitch
  imports Kube Customer PaymentSwitch InvoiceApi
begin

text \<open>
  internal/controller/stripe_customer.go: which Stripe customer an account charges through, the
  traits that link it, and the scheduling of the switch of its payment method.  The theory also
  holds the environment of the billing-account reconciler: the Kubernetes client, the Amberflo
  client interface and the invoice syncer, whose operations are parameters, and the trace of calls
  to them.
\<close>

section \<open>The environment of the billing-account reconciler\<close>

datatype BindingPhase = BillingAccountBindingPhaseActive | OtherBindingPhase string

record BillingAccountBinding =
  bb_Namespace :: string
  bb_BillingAccountRef :: string
  bb_ProjectRef :: string
  bb_Phase :: BindingPhase

datatype PaymentMethodPhase = PaymentMethodPhaseActive | OtherPaymentMethodPhase string

record PaymentMethod =
  pm_Namespace :: string
  pm_BillingAccountRef :: string
  pm_Phase :: PaymentMethodPhase

record StripePaymentMethod =
  spm_Namespace :: string
  spm_PaymentMethodRef :: string
  spm_StripeCustomerID :: string

record 'w account_env =
  env_Now :: "('w, int) io"
  env_GetAccount :: "string \<Rightarrow> string \<Rightarrow> ('w, kerr + BillingAccount) io"
  env_GetPaymentMethod :: "string \<Rightarrow> string \<Rightarrow> ('w, kerr + PaymentMethod) io"
  env_GetStripePaymentMethod :: "string \<Rightarrow> string \<Rightarrow> ('w, kerr + StripePaymentMethod) io"
  env_ListBindings :: "string \<Rightarrow> string \<Rightarrow> ('w, kerr + BillingAccountBinding list) io"
  env_Apply :: "string \<Rightarrow> string \<Rightarrow> string list \<Rightarrow> bool \<Rightarrow> ('w, kerr option) io"
  env_Update :: "BillingAccount \<Rightarrow> ('w, kerr option) io"
  env_GetCustomer :: "string \<Rightarrow> ('w, goerr + Customer) io"
  env_EnsureCustomer :: "DesiredCustomer \<Rightarrow> ('w, goerr + Customer) io"
  env_DisableCustomer :: "string \<Rightarrow> ('w, goerr option) io"
  env_ListPaymentSettings :: "('w, goerr + PaymentSetting list) io"
  env_ListPaymentMethodSwitches :: "string \<Rightarrow> ('w, goerr + PaymentMethodSwitch list) io"
  env_SchedulePaymentMethodSwitch :: "PaymentMethodSwitch \<Rightarrow> ('w, goerr + PaymentMethodSwitch) io"
  env_ListInvoices :: "string \<Rightarrow> ('w, goerr + CustomerProductInvoice list) io"
  env_UpsertInvoice :: "BillingAccount \<Rightarrow> CustomerProductInvoice \<Rightarrow> ('w, rerr option) io"
  env_IsStatusConditionTrue :: "Condition list \<Rightarrow> string \<Rightarrow> bool"
  env_DefaultPaymentMethodReady :: string
  env_finalizers :: finalizer_lib
  env_AllowCustomerDelete :: bool
  env_HasInvoiceSyncer :: bool
  env_HasRecorder :: bool
  env_StripePaymentSettingID :: string
  env_PaymentSwitchMinFutureSkew :: int

datatype account_step =
    ReadClock int
  | GotAccount "kerr + BillingAccount"
  | GotPaymentMethod "kerr + PaymentMethod"
  | GotStripePaymentMethod "kerr + StripePaymentMethod"
  | ListedBindings "kerr + BillingAccountBinding list"
  | Applied "string list" bool "kerr option"
  | UpdatedAccount BillingAccount "kerr option"
  | GotCustomer string "goerr + Customer"
  | EnsuredCustomer DesiredCustomer "goerr + Customer"
  | DisabledCustomer string "goerr option"
  | ListedSettings "goerr + PaymentSetting list"
  | ListedSwitches string "goerr + PaymentMethodSwitch list"
  | Scheduled PaymentMethodSwitch "goerr + PaymentMethodSwitch"
  | ListedInvoices string "goerr + CustomerProductInvoice list"
  | UpsertedInvoice CustomerProductInvoice "rerr option"
  | Event string string string

section \<open>When the switch takes effect\<close>

definition traitStripeID :: string where "traitStripeID = ''stripeid''"
definition traitPaymentProviderName :: string where "traitPaymentProviderName = ''paymentprovidername''"
definition paymentProviderStripe :: string where "paymentProviderStripe = ''stripe''"
definition stripePaymentSwitchFallbackID :: string where "stripePaymentSwitchFallbackID = ''stripe''"

definition defaultPaymentSwitchMinFutureSkew :: int where
  "defaultPaymentSwitchMinFutureSkew = 60 * second"

definition paymentSwitchMinFutureSkew :: "'w account_env \<Rightarrow> int" where
  "paymentSwitchMinFutureSkew env =
     (if env_PaymentSwitchMinFutureSkew env > 0 then env_PaymentSwitchMinFutureSkew env
      else defaultPaymentSwitchMinFutureSkew)"

definition monthStartUTC :: "int \<Rightarrow> int" where
  "monthStartUTC now = Date_utc (Year now) (Month now) 1"

definition invoiceDayInMonth :: "int \<Rightarrow> int \<Rightarrow> int \<Rightarrow> int" where
  "invoiceDayInMonth year month day =
     (let lastDay = Day (Date_utc year (month + 1) 0);
          day = (if day > lastDay then lastDay else day);
          day = (if day < 1 then 1 else day)
      in Date_utc year month day)"

definition periodStartUTC :: "int \<Rightarrow> BillingPaymentTerms option \<Rightarrow> int" where
  "periodStartUTC now terms =
     (case terms of
        None \<Rightarrow> monthStartUTC now
      | Some bt \<Rightarrow>
        if bt_InvoiceDayOfMonth bt \<le> 0 then monthStartUTC now
        else
          let day = bt_InvoiceDayOfMonth bt;
              start = invoiceDayInMonth (Year now) (Month now) day
          in if now < start
             then (let prev = AddDate now 0 (- 1) 0 in invoiceDayInMonth (Year prev) (Month prev) day)
             else start)"

definition switchTimeUnix :: "int \<Rightarrow> BillingPaymentTerms option \<Rightarrow> int \<Rightarrow> int" where
  "switchTimeUnix now terms skew =
     (let skew = (if skew \<le> 0 then defaultPaymentSwitchMinFutureSkew else skew);
          start = periodStartUTC now terms
      in if start > now then unix_secs start else unix_secs (now + skew))"

section \<open>Stripe customers and traits\<close>

definition resolveStripeCustomerID :: "'w account_env \<Rightarrow> BillingAccount \<Rightarrow> ('w, account_step, rerr + string) act" where
  "resolveStripeCustomerID env account =
     (if \<not> env_IsStatusConditionTrue env (ba_Conditions account) (env_DefaultPaymentMethodReady env) then ret (Inr [])
      else case ba_DefaultPaymentMethodRef account of
        None \<Rightarrow> ret (Inr [])
      | Some pmName \<Rightarrow>
        if pmName = [] then ret (Inr [])
        else do {
          let ns = ba_Namespace account;
          r \<leftarrow> perform (env_GetPaymentMethod env ns pmName) GotPaymentMethod;
          case r of
            Inl e \<Rightarrow> ret (if e = NotFound then Inr []
                          else Inl (KubeErr (''get PaymentMethod '' @ ns @ ''/'' @ pmName) e))
          | Inr pm \<Rightarrow>
            if pm_Phase pm \<noteq> PaymentMethodPhaseActive then ret (Inr [])
            else do {
              r \<leftarrow> perform (env_GetStripePaymentMethod env ns pmName) GotStripePaymentMethod;
              case r of
                Inl e \<Rightarrow> ret (if e = NotFound then Inr []
                              else Inl (KubeErr (''get StripePaymentMethod '' @ ns @ ''/'' @ pmName) e))
              | Inr spm \<Rightarrow>
                ret (if spm_StripeCustomerID spm = [] then Inr [] else Inr (spm_StripeCustomerID spm))
            }
        })"

definition stripeExtraTraitsForAccount :: "string \<Rightarrow> strmap" where
  "stripeExtraTraitsForAccount stripeCustomerID =
     (if stripeCustomerID = [] then []
      else [(traitStripeID, stripeCustomerID), (traitPaymentProviderName, paymentProviderStripe)])"

definition stripeTraitsFromExisting :: "strmap \<Rightarrow> strmap" where
  "stripeTraitsFromExisting traits =
     (if traits = [] then []
      else let ident = mget traits traitStripeID;
               ident = (if ident = [] then mget traits ''stripeId'' else ident)
           in if ident = [] then []
              else let res = [(traitStripeID, ident), (traitPaymentProviderName, paymentProviderStripe)];
                       v = mget traits traitPaymentProviderName
                   in if v \<noteq> [] then mset_key traitPaymentProviderName v res else res)"

section \<open>Scheduling the switch\<close>

definition resolveStripePaymentSwitchTarget :: "'w account_env \<Rightarrow> ('w, account_step, goerr + string \<times> string) act" where
  "resolveStripePaymentSwitchTarget env = do {
     r \<leftarrow> perform (env_ListPaymentSettings env) ListedSettings;
     ret (case r of
       Inl e \<Rightarrow> Inl (Wrap ''list Amberflo payment settings: '' e [])
     | Inr settings \<Rightarrow>
       (case FindPaymentSettingBySystem settings BillingSystemStripe (env_StripePaymentSettingID env) of
          Some setting \<Rightarrow>
            Inr (if ps_BillingSystem setting = [] then paymentProviderStripe else ps_BillingSystem setting,
                 ps_ID setting)
        | None \<Rightarrow>
            if env_StripePaymentSettingID env \<noteq> [] then
              Inl (permanent (''amberflo Stripe payment setting id '' @ print_str (env_StripePaymentSettingID env)
                @ '' not found in billing-settings/list''))
            else Inr (paymentProviderStripe, stripePaymentSwitchFallbackID)))
   }"

definition new_switch :: "string \<Rightarrow> string \<times> string \<Rightarrow> string \<Rightarrow> int \<Rightarrow> PaymentMethodSwitch" where
  "new_switch customerID target stripeCustomerID switchAt = zero_switch
     \<lparr>sw_CustomerID := customerID, sw_TargetPaymentType := fst target, sw_TargetPaymentID := snd target,
      sw_TargetCustomerIdentifier := stripeCustomerID, sw_SwitchTimeInSeconds := switchAt\<rparr>"

definition scheduleStripePaymentSwitch :: "'w account_env \<Rightarrow> BillingAccount \<Rightarrow> string \<Rightarrow> string \<Rightarrow> int
    \<Rightarrow> ('w, account_step, goerr option) act" where
  "scheduleStripePaymentSwitch env account customerID stripeCustomerID now =
     (if stripeCustomerID = [] \<or> customerID = [] then ret None
      else do {
        t \<leftarrow> resolveStripePaymentSwitchTarget env;
        case t of
          Inl e \<Rightarrow> ret (Some e)
        | Inr target \<Rightarrow> do {
            let switchAt = switchTimeUnix now (ba_PaymentTerms account) (paymentSwitchMinFutureSkew env);
            r \<leftarrow> perform (env_ListPaymentMethodSwitches env customerID) (ListedSwitches customerID);
            case r of
              Inl e \<Rightarrow> ret (Some (Wrap ''list Amberflo payment method switches: '' e []))
            | Inr existing \<Rightarrow>
              if HasMatchingPaymentMethodSwitch existing stripeCustomerID switchAt then ret None
              else do {
                let sw = new_switch customerID target stripeCustomerID switchAt;
                r \<leftarrow> perform (env_SchedulePaymentMethodSwitch env sw) (Scheduled sw);
                ret (case r of
                  Inl e \<Rightarrow> Some (Wrap ''schedule Amberflo payment method switch: '' e [])
                | Inr _ \<Rightarrow> None)
              }
          }
      })"

section \<open>Facts about billing periods\<close>

definition days_in_month :: "int \<Rightarrow> int \<Rightarrow> int" where
  "days_in_month y m = month_lengths y ! nat (m - 1)"

lemma days_in_month_bounds:
  assumes "1 \<le> m" "m \<le> 12" shows "28 \<le> days_in_month y m \<and> days_in_month y m \<le> 31"
proof -
  have "nat (m - 1) < length (month_lengths y)" using assms by (simp add: month_lengths_facts)
  then have "month_lengths y ! nat (m - 1) \<in> set (month_lengths y)" by (rule nth_mem)
  with month_lengths_facts(2) [of y] show ?thesis unfolding days_in_month_def list_all_iff by blast
qed

lemma next_month:
  assumes "1 \<le> m" "m \<le> 12"
  shows "Date_days y (m + 1) 1 = days_of_civil y m 1 + days_in_month y m"
proof (cases "m = 12")
  case True
  then show ?thesis by (simp add: Date_days_def days_of_civil_def before_year_Suc month_lengths_def days_in_month_def)
next
  case False
  with assms have m: "m div 12 = 0" "m mod 12 = m" by simp_all
  have n: "nat m = Suc (nat (m - 1))" "nat (m - 1) < length (month_lengths y)"
    using assms by (simp_all add: month_lengths_facts)
  show ?thesis using m
    by (simp add: Date_days_def days_of_civil_def days_in_month_def n(1) take_Suc_conv_app_nth [OF n(2)])
qed

lemma last_day:
  assumes "1 \<le> m" "m \<le> 12"
  shows "Day (Date_utc y (m + 1) 0) = days_in_month y m"
proof -
  let ?L = "days_in_month y m"
  have "Date_days y (m + 1) 0 = Date_days y (m + 1) 1 - 1" by (simp add: Date_days_def)
  with next_month [OF assms] have "Date_days y (m + 1) 0 = days_of_civil y m ?L" by (simp add: days_of_civil_def)
  then have "Date_utc y (m + 1) 0 = Date_utc y m ?L + 0"
    using assms by (simp add: Date_utc_def [of y "m + 1"] Date_utc_civil)
  moreover have "valid_date y m ?L" using assms days_in_month_bounds [OF assms, of y]
    by (simp add: valid_date_def days_in_month_def)
  ultimately show ?thesis using fields_of_date(3) [of y m ?L 0] by simp
qed

text \<open>The invoice day is in its month, as far down as the month is short.\<close>

lemma invoiceDayInMonth_eq:
  assumes "1 \<le> m" "m \<le> 12" "1 \<le> d"
  shows "invoiceDayInMonth y m d = Date_utc y m (min d (days_in_month y m))"
    "valid_date y m (min d (days_in_month y m))"
proof -
  from days_in_month_bounds [OF assms(1,2), of y] assms(3)
  show "invoiceDayInMonth y m d = Date_utc y m (min d (days_in_month y m))"
    by (auto simp: invoiceDayInMonth_def last_day [OF assms(1,2)] Let_def min_def)
  from days_in_month_bounds [OF assms(1,2), of y] assms
  show "valid_date y m (min d (days_in_month y m))" by (auto simp: valid_date_def days_in_month_def)
qed

lemma now_in_month: "Month t \<ge> 1 \<and> Month t \<le> 12" "1 \<le> Day t \<and> Day t \<le> days_in_month (Year t) (Month t)"
  using date_fields(1) [of t] by (simp_all add: valid_date_def days_in_month_def)

lemma day_of_le: "day_of t * (24 * hour) \<le> t"
proof -
  have "(24 * hour) * (t div (24 * hour)) \<le> t" by (rule conjunct1 [OF div_bounds]) simp
  then show ?thesis unfolding day_of_def by (subst mult.commute)
qed

lemma monthStart_le: "Date_utc (Year t) (Month t) 1 \<le> t"
proof -
  have "days_of_civil (Year t) (Month t) 1 \<le> days_of_civil (Year t) (Month t) (Day t)"
    using now_in_month(2) [of t] by (simp add: days_of_civil_def)
  with date_fields(2) [of t] have "days_of_civil (Year t) (Month t) 1 * (24 * hour) \<le> day_of t * (24 * hour)" by simp
  also note day_of_le
  finally show ?thesis using now_in_month(1) [of t] by (simp add: Date_utc_civil)
qed

lemma Date_utc_prev:
  assumes "1 \<le> m" "m \<le> 12"
  obtains y' m' where "1 \<le> m'" "m' \<le> 12" "\<And>d. Date_utc y (m - 1) d = Date_utc y' m' d"
    "Date_utc y m 1 = Date_utc y' (m' + 1) 1"
proof (cases "m = 1")
  case True
  show ?thesis by (rule that [of 12 "y - 1"]) (simp_all add: True Date_utc_def Date_days_def)
next
  case False
  show ?thesis by (rule that [of "m - 1" y]) (use assms False in simp_all)
qed

text \<open>Up to the 28th no month is skipped, and the period has begun.\<close>

lemma previous_period:
  assumes "Day t \<le> 28" "1 \<le> d"
  defines "prev \<equiv> AddDate t 0 (- 1) 0"
  shows "invoiceDayInMonth (Year prev) (Month prev) d < Date_utc (Year t) (Month t) 1"
proof -
  obtain y' m' where p: "1 \<le> m'" "m' \<le> 12" "\<And>d. Date_utc (Year t) (Month t - 1) d = Date_utc y' m' d"
    "Date_utc (Year t) (Month t) 1 = Date_utc y' (m' + 1) 1"
    by (rule Date_utc_prev [of "Month t" "Year t"]) (use now_in_month(1) in blast)+
  have "valid_date y' m' (Day t)"
    using assms(1) p days_in_month_bounds [OF p(1,2), of y'] now_in_month(2) [of t]
    by (auto simp: valid_date_def days_in_month_def)
  moreover have "0 \<le> t mod (24 * hour)" "t mod (24 * hour) < 24 * hour" by simp_all
  ultimately have f: "Year prev = y'" "Month prev = m'"
    using fields_of_date(1,2) [of y' m' "Day t"] by (simp_all add: prev_def AddDate_def p(3))
  have "days_of_civil y' m' (min d (days_in_month y' m')) < Date_days y' (m' + 1) 1"
    using next_month [OF p(1,2), of y'] by (simp add: days_of_civil_def)
  then have "days_of_civil y' m' (min d (days_in_month y' m')) * (24 * hour) < Date_days y' (m' + 1) 1 * (24 * hour)"
    by simp
  then show ?thesis
    using invoiceDayInMonth_eq(1) [OF p(1,2) assms(2), of y'] p(1,2)
    by (simp add: f p(4) Date_utc_civil) (simp add: Date_utc_def)
qed

lemma periodStart_begun:
  assumes "Day now \<le> 28"
  shows "periodStartUTC now terms \<le> now"
proof (cases terms)
  case None
  then show ?thesis using monthStart_le [of now] by (simp add: periodStartUTC_def monthStartUTC_def)
next
  case (Some bt)
  show ?thesis
  proof (cases "bt_InvoiceDayOfMonth bt \<le> 0")
    case True
    with Some show ?thesis using monthStart_le [of now] by (simp add: periodStartUTC_def monthStartUTC_def)
  next
    case False
    then have "1 \<le> bt_InvoiceDayOfMonth bt" by simp
    from previous_period [OF assms this] monthStart_le [of now] Some False show ?thesis
      by (auto simp: periodStartUTC_def Let_def)
  qed
qed

lemma period_whole_seconds: "\<exists>k. periodStartUTC now terms = k * second"
proof -
  have "\<exists>k. Date_utc y m d = k * second" for y m d
    unfolding Date_utc_def by (rule exI [of _ "Date_days y m d * 86400"]) simp
  then show ?thesis
    by (auto simp: periodStartUTC_def monthStartUTC_def invoiceDayInMonth_def Let_def split: option.split)
qed

lemma unix_secs_less: "now < k * second \<Longrightarrow> unix_secs now < unix_secs (k * second)"
proof -
  assume "now < k * second"
  with unix_secs_bounds [of now] have "unix_secs now * second < k * second" by linarith
  then show ?thesis by (simp add: unix_secs_def)
qed

lemma unix_secs_step: "a + second \<le> b \<Longrightarrow> unix_secs a < unix_secs b"
proof -
  assume "a + second \<le> b"
  with unix_secs_bounds [of a] unix_secs_bounds [of b] have "unix_secs a * second < unix_secs b * second"
    by (simp only: distrib_right mult_1) linarith
  then show ?thesis by simp
qed

lemma switchTimeUnix_cases:
  assumes "skew \<le> 0 \<or> second \<le> skew"
  shows "switchTimeUnix now terms skew > unix_secs now"
    "Day now \<le> 28 \<Longrightarrow> switchTimeUnix now terms skew = unix_secs (now + (if skew \<le> 0 then 60 * second else skew))"
proof -
  let ?skew = "if skew \<le> 0 then 60 * second else skew"
  obtain k where k: "periodStartUTC now terms = k * second" using period_whole_seconds by blast
  have e: "switchTimeUnix now terms skew =
      (if k * second > now then unix_secs (k * second) else unix_secs (now + ?skew))"
    by (simp add: switchTimeUnix_def Let_def k defaultPaymentSwitchMinFutureSkew_def)
  have "unix_secs now < unix_secs (now + ?skew)" by (rule unix_secs_step) (use assms in auto)
  moreover have "now < k * second \<Longrightarrow> unix_secs now < unix_secs (k * second)" by (rule unix_secs_less)
  ultimately show "switchTimeUnix now terms skew > unix_secs now" unfolding e by simp
  show "switchTimeUnix now terms skew = unix_secs (now + ?skew)" if "Day now \<le> 28"
    using periodStart_begun [OF that, of terms] k unfolding e by simp
qed

lemma skew_of_env:
  "env_PaymentSwitchMinFutureSkew env \<le> 0 \<or> second \<le> env_PaymentSwitchMinFutureSkew env
     \<Longrightarrow> second \<le> paymentSwitchMinFutureSkew env"
  by (auto simp: paymentSwitchMinFutureSkew_def defaultPaymentSwitchMinFutureSkew_def)

section \<open>Properties\<close>

text \<open>
  The time of a switch lies in the future, by at least the second Amberflo looks at; and up to
  the 28th of a month it is the current time plus the skew, whatever the payment terms say.
\<close>

theorem switchTimeUnix_future:
  assumes "skew \<le> 0 \<or> second \<le> skew"
  shows "switchTimeUnix now terms skew > unix_secs now
    \<and> (Day now \<le> 28 \<longrightarrow> switchTimeUnix now terms skew
         = unix_secs (now + (if skew \<le> 0 then 60 * second else skew)))"
  using switchTimeUnix_cases [OF assms] by simp

theorem switchTimeUnix_future_witness: "switchTimeUnix 0 None 0 > unix_secs 0"
  using switchTimeUnix_future [of 0 0 None] by simp

definition noon_30_march :: int where
  "noon_30_march = Date_utc 2026 3 30 + 12 * hour"

text \<open>
  Past the 28th the previous month may be too short: for invoice day 31 the period current at
  noon on 30 March 2026 is said to start on 31 March, in the future.
\<close>

theorem periodStartUTC_ahead:
  "periodStartUTC noon_30_march (Some \<lparr>bt_NetDays = 0, bt_InvoiceFrequency = [], bt_InvoiceDayOfMonth = 31\<rparr>)
     = Date_utc 2026 3 31 \<and> Date_utc 2026 3 31 > noon_30_march"
  by code_simp

text \<open>What scheduling a switch does, whatever the services answer.\<close>

lemma resolve_target_leaves:
  "leaves (resolveStripePaymentSwitchTarget env) (\<lambda>es r. \<exists>l. es = [ListedSettings l]
     \<and> (case r of Inl e \<Rightarrow> True | Inr tgt \<Rightarrow> fst tgt \<noteq> []))"
  unfolding resolveStripePaymentSwitchTarget_def
  by (intro leaves_perform_bind leaves_ret) (auto simp: paymentProviderStripe_def split: sum.splits option.splits)

definition scheduled_well :: "'w account_env \<Rightarrow> BillingAccount \<Rightarrow> string \<Rightarrow> string \<Rightarrow> int
    \<Rightarrow> account_step list \<Rightarrow> goerr option \<Rightarrow> bool" where
  "scheduled_well env account customerID stripeCustomerID now es e \<longleftrightarrow>
     (let switchAt = switchTimeUnix now (ba_PaymentTerms account) (paymentSwitchMinFutureSkew env)
      in stripeCustomerID = [] \<or> customerID = [] \<or>
       (\<exists>l. es = [ListedSettings l] \<and> e \<noteq> None) \<or>
       (\<exists>l e1. es = [ListedSettings l, ListedSwitches customerID (Inl e1)] \<and> e \<noteq> None) \<or>
       (\<exists>l existing. es = [ListedSettings l, ListedSwitches customerID (Inr existing)] \<and> e = None
          \<and> HasMatchingPaymentMethodSwitch existing stripeCustomerID switchAt) \<or>
       (\<exists>l existing tgt r. es = [ListedSettings l, ListedSwitches customerID (Inr existing),
            Scheduled (new_switch customerID tgt stripeCustomerID switchAt) r]
          \<and> fst tgt \<noteq> [] \<and> (e = None \<longleftrightarrow> (\<exists>got. r = Inr got))
          \<and> \<not> HasMatchingPaymentMethodSwitch existing stripeCustomerID switchAt))"

lemma schedule_leaves:
  "leaves (scheduleStripePaymentSwitch env account customerID stripeCustomerID now)
     (scheduled_well env account customerID stripeCustomerID now)"
  unfolding scheduleStripePaymentSwitch_def Let_def
proof (rule leaves_if, goal_cases)
  case 1
  then show ?case by (intro leaves_ret) (auto simp: scheduled_well_def)
next
  case 2
  then show ?case
    by (intro leaves_bind leaves_weaken [OF resolve_target_leaves])
      (intro leaves_sum leaves_perform_bind leaves_if leaves_ret;
        auto simp: scheduled_well_def Let_def split: sum.splits)
qed


definition sample_account_env :: "'w account_env" where
  "sample_account_env = \<lparr>env_Now = ret 0,
     env_GetAccount = (\<lambda>ns n. ret (Inr (plain_account ns n ''u1''))),
     env_GetPaymentMethod = (\<lambda>ns n. ret (Inr \<lparr>pm_Namespace = ns, pm_BillingAccountRef = ''acme'', pm_Phase = PaymentMethodPhaseActive\<rparr>)),
     env_GetStripePaymentMethod = (\<lambda>ns n. ret (Inr \<lparr>spm_Namespace = ns, spm_PaymentMethodRef = n, spm_StripeCustomerID = ''cus_1''\<rparr>)),
     env_ListBindings = (\<lambda>ns n. ret (Inr [])), env_Apply = (\<lambda>ns n fs force. ret None), env_Update = (\<lambda>a. ret None),
     env_GetCustomer = (\<lambda>c. ret (Inl (Sentinel ErrCustomerNotFound))),
     env_EnsureCustomer = (\<lambda>d. ret (Inl (permanent []))), env_DisableCustomer = (\<lambda>c. ret None),
     env_ListPaymentSettings = ret (Inr []), env_ListPaymentMethodSwitches = (\<lambda>c. ret (Inr [])),
     env_SchedulePaymentMethodSwitch = (\<lambda>sw. ret (Inr sw)), env_ListInvoices = (\<lambda>c. ret (Inr [])),
     env_UpsertInvoice = (\<lambda>a i. ret None), env_IsStatusConditionTrue = (\<lambda>cs t. True),
     env_DefaultPaymentMethodReady = ''DefaultPaymentMethodReady'', env_finalizers = list_finalizers,
     env_AllowCustomerDelete = False, env_HasInvoiceSyncer = True, env_HasRecorder = True,
     env_StripePaymentSettingID = [], env_PaymentSwitchMinFutureSkew = 0\<rparr>"


text \<open>
  Scheduling is not idempotent over time: when every switch Amberflo lists for the Stripe
  customer was placed by an earlier run, at least a second ago, and neither run fell past the 28th,
  a successful run posts another switch.
\<close>

theorem schedule_repeats:
  assumes "run_state (scheduleStripePaymentSwitch env account customerID stripeID now) s = (None, s')"
    and "customerID \<noteq> []" "stripeID \<noteq> []"
    and "env_PaymentSwitchMinFutureSkew env \<le> 0 \<or> second \<le> env_PaymentSwitchMinFutureSkew env"
    and "Day now \<le> 28"
  shows "\<exists>es. ts_log s' = ts_log s @ es
    \<and> (\<forall>existing. ListedSwitches customerID (Inr existing) \<in> set es \<longrightarrow>
         (\<forall>x\<in>set existing. sw_TargetCustomerIdentifier x = stripeID \<longrightarrow>
            (\<exists>now0 terms0. now0 + second \<le> now \<and> Day now0 \<le> 28
               \<and> sw_SwitchTimeInSeconds x = switchTimeUnix now0 terms0 (paymentSwitchMinFutureSkew env)))
         \<longrightarrow> (\<exists>sw got. Scheduled sw (Inr got) \<in> set es))"
proof -
  let ?k = "paymentSwitchMinFutureSkew env"
  from leavesD [OF schedule_leaves assms(1)] obtain es where
    es: "ts_log s' = ts_log s @ es" "scheduled_well env account customerID stripeID now es None" by blast
  have k: "?k \<le> 0 \<or> second \<le> ?k" "\<not> ?k \<le> 0" using skew_of_env [OF assms(4)] by simp_all
  have later: "switchTimeUnix now0 terms0 ?k < switchTimeUnix now terms ?k"
    if "now0 + second \<le> now" "Day now0 \<le> 28" for now0 terms0 terms
    using unix_secs_step [of "now0 + ?k" "now + ?k"] that k assms(5)
    by (simp add: switchTimeUnix_cases(2) [OF k(1)])
  have "\<not> HasMatchingPaymentMethodSwitch existing stripeID (switchTimeUnix now terms ?k)"
    if "\<forall>x\<in>set existing. sw_TargetCustomerIdentifier x = stripeID \<longrightarrow>
        (\<exists>now0 terms0. now0 + second \<le> now \<and> Day now0 \<le> 28
           \<and> sw_SwitchTimeInSeconds x = switchTimeUnix now0 terms0 ?k)" for existing terms
  proof
    assume "HasMatchingPaymentMethodSwitch existing stripeID (switchTimeUnix now terms ?k)"
    then obtain x where x: "x \<in> set existing" "sw_TargetCustomerIdentifier x = stripeID"
      "sw_SwitchTimeInSeconds x = switchTimeUnix now terms ?k"
      by (auto simp: HasMatchingPaymentMethodSwitch_def list_ex_iff)
    with that obtain now0 terms0 where "now0 + second \<le> now" "Day now0 \<le> 28"
      "sw_SwitchTimeInSeconds x = switchTimeUnix now0 terms0 ?k" by blast
    with later [of now0 terms0 terms] x(3) show False by simp
  qed
  with es assms(2,3) show ?thesis by (intro exI [of _ es]) (auto simp: scheduled_well_def Let_def)
qed

theorem schedule_repeats_witness:
  "\<exists>es. ts_log (snd (run_state (scheduleStripePaymentSwitch sample_account_env (plain_account ''ns'' ''acme'' ''u1'')
       ''u1'' ''cus_1'' 0) \<lparr>ts_world = (), ts_log = []\<rparr>)) = es
     \<and> (ListedSwitches ''u1'' (Inr []) \<in> set es \<longrightarrow> (\<exists>sw got. Scheduled sw (Inr got) \<in> set es))"
proof -
  let ?a = "plain_account ''ns'' ''acme'' ''u1''" and ?s = "\<lparr>ts_world = (), ts_log = []\<rparr> :: (unit, account_step) traced_state"
  obtain e s' where run: "run_state (scheduleStripePaymentSwitch sample_account_env ?a ''u1'' ''cus_1'' 0) ?s = (e, s')"
    by fastforce
  then have "e = None"
    by (auto simp: scheduleStripePaymentSwitch_def resolveStripePaymentSwitchTarget_def sample_account_env_def
        run_simps FindPaymentSettingBySystem_def HasMatchingPaymentMethodSwitch_def Let_def)
  moreover have "Day 0 \<le> 28" by code_simp
  moreover have "env_PaymentSwitchMinFutureSkew (sample_account_env :: unit account_env) \<le> 0" by (simp add: sample_account_env_def)
  ultimately show ?thesis using schedule_repeats [of sample_account_env ?a "''u1''" "''cus_1''" 0 ?s s'] run by auto
qed

end
