(* ===== verification/FinalizerProtocol.thy ===== *)
theory FinalizerProtocol
  imports Kube
begin

text \<open>
  The protocol the four reconcilers share.  Each guards its objects with a finalizer: it attaches
  the finalizer before it first touches Amberflo, and drops it only when the object is being deleted
  and what it made in Amberflo is released, or given up on purpose.  What a reconciler does to one
  object is a list of effects; the user may delete the object between any two of them.
\<close>

datatype effect =
    Touch
  | Release
  | Abandon
  | AddFinalizer bool
  | DropFinalizer bool
  | UserDelete

record guarded_object =
  go_present :: bool
  go_deleting :: bool
  go_guarded :: bool
  go_remote :: bool

text \<open>The API server keeps an object under deletion until its finalizers are gone, and refuses new
  finalizers on it; a write that failed (\<open>False\<close>) changes nothing.\<close>

fun effect_step :: "effect \<Rightarrow> guarded_object \<Rightarrow> guarded_object" where
  "effect_step Touch s = s\<lparr>go_remote := True\<rparr>"
| "effect_step Release s = s\<lparr>go_remote := False\<rparr>"
| "effect_step Abandon s = s\<lparr>go_remote := False\<rparr>"
| "effect_step (AddFinalizer ok) s = (if ok \<and> go_present s \<and> \<not> go_deleting s then s\<lparr>go_guarded := True\<rparr> else s)"
| "effect_step (DropFinalizer ok) s =
     (if ok then s\<lparr>go_guarded := False, go_present := go_present s \<and> \<not> go_deleting s\<rparr> else s)"
| "effect_step UserDelete s = s\<lparr>go_deleting := True, go_present := go_present s \<and> go_guarded s\<rparr>"

definition run_effects :: "effect list \<Rightarrow> guarded_object \<Rightarrow> guarded_object" where
  "run_effects es s = fold effect_step es s"

definition new_object :: guarded_object where
  "new_object = \<lparr>go_present = True, go_deleting = False, go_guarded = False, go_remote = False\<rparr>"

text \<open>One reconcile sees whether the object is under deletion and guarded, and then has effects with
  deletions by the user in between; the user may also delete at any other time.\<close>

inductive object_step :: "(bool \<Rightarrow> bool \<Rightarrow> effect list \<Rightarrow> bool) \<Rightarrow> guarded_object \<Rightarrow> guarded_object \<Rightarrow> bool"
  for runs where
  user: "go_present s \<Longrightarrow> object_step runs s (effect_step UserDelete s)"
| reconcile: "go_present s \<Longrightarrow> runs (go_deleting s) (go_guarded s) (filter (\<lambda>e. e \<noteq> UserDelete) es)
     \<Longrightarrow> object_step runs s (run_effects es s)"

inductive reachable :: "(bool \<Rightarrow> bool \<Rightarrow> effect list \<Rightarrow> bool) \<Rightarrow> guarded_object \<Rightarrow> bool" for runs where
  start: "reachable runs new_object"
| step: "reachable runs s \<Longrightarrow> object_step runs s t \<Longrightarrow> reachable runs t"

inductive_cases object_stepE: "object_step runs s t"

text \<open>What a run may do: touch Amberflo only for a guarded object that is not under deletion, and
  drop the finalizer only under deletion and after releasing or giving up.\<close>

definition disciplined :: "bool \<Rightarrow> bool \<Rightarrow> effect list \<Rightarrow> bool" where
  "disciplined del g es \<longleftrightarrow>
     (Touch \<in> set es \<longrightarrow> g \<and> \<not> del)
   \<and> (\<forall>pre ok post. es = pre @ DropFinalizer ok # post \<longrightarrow> del \<and> (Release \<in> set pre \<or> Abandon \<in> set pre))"

definition nothing_leaks :: "guarded_object \<Rightarrow> bool" where
  "nothing_leaks s \<longleftrightarrow> (go_remote s \<longrightarrow> go_present s \<and> go_guarded s)"

locale guarded_reconciler =
  fixes runs :: "bool \<Rightarrow> bool \<Rightarrow> effect list \<Rightarrow> bool"
  assumes disciplined_runs: "runs del g es \<Longrightarrow> disciplined del g es"
begin

lemma effects_without_drop:
  "(\<forall>ok. DropFinalizer ok \<notin> set es) \<Longrightarrow> go_present s \<and> go_guarded s
     \<Longrightarrow> go_present (run_effects es s) \<and> go_guarded (run_effects es s)"
proof (induction es arbitrary: s)
  case Nil
  then show ?case by (simp add: run_effects_def)
next
  case (Cons e es)
  then have "go_present (effect_step e s) \<and> go_guarded (effect_step e s)" by (cases e) auto
  with Cons show ?case by (simp add: run_effects_def)
qed

lemma effects_without_touch:
  "Touch \<notin> set es \<Longrightarrow> \<not> go_remote s \<Longrightarrow> \<not> go_remote (run_effects es s)"
proof (induction es arbitrary: s)
  case (Cons e es)
  then have "\<not> go_remote (effect_step e s)" by (cases e) auto
  with Cons show ?case by (simp add: run_effects_def)
qed (simp add: run_effects_def)

lemma released:
  "Touch \<notin> set es \<Longrightarrow> Release \<in> set es \<or> Abandon \<in> set es \<Longrightarrow> \<not> go_remote (run_effects es s)"
proof (induction es arbitrary: s)
  case (Cons e es)
  show ?case
  proof (cases "e = Release \<or> e = Abandon")
    case True
    with Cons.prems show ?thesis
      using effects_without_touch [of es "effect_step e s"] by (auto simp: run_effects_def)
  next
    case False
    with Cons.prems have "Release \<in> set es \<or> Abandon \<in> set es" "Touch \<notin> set es" by auto
    with Cons.IH [of "effect_step e s"] show ?thesis by (simp add: run_effects_def)
  qed
qed simp

lemma run_keeps:
  assumes "disciplined (go_deleting s) (go_guarded s) (filter (\<lambda>e. e \<noteq> UserDelete) es)"
    and "nothing_leaks s" "go_present s"
  shows "nothing_leaks (run_effects es s)"
proof (cases "\<exists>ok. DropFinalizer ok \<in> set es")
  case True
  then obtain ok pre post where "filter (\<lambda>e. e \<noteq> UserDelete) es = pre @ DropFinalizer ok # post"
    using split_list [of "DropFinalizer _" "filter (\<lambda>e. e \<noteq> UserDelete) es"] by fastforce
  with assms(1) have "go_deleting s" "Release \<in> set (filter (\<lambda>e. e \<noteq> UserDelete) es)
      \<or> Abandon \<in> set (filter (\<lambda>e. e \<noteq> UserDelete) es)"
    unfolding disciplined_def by fastforce+
  with assms(1) have "Touch \<notin> set es" "Release \<in> set es \<or> Abandon \<in> set es"
    by (auto simp: disciplined_def)
  from released [OF this] show ?thesis by (simp add: nothing_leaks_def)
next
  case False
  show ?thesis
  proof (cases "go_guarded s")
    case True
    with False assms(3) effects_without_drop [of es s] show ?thesis by (simp add: nothing_leaks_def)
  next
    case unguarded: False
    with assms(1) have "Touch \<notin> set es" by (auto simp: disciplined_def)
    moreover have "\<not> go_remote s" using unguarded assms(2) by (simp add: nothing_leaks_def)
    ultimately show ?thesis using effects_without_touch by (simp add: nothing_leaks_def)
  qed
qed

lemma step_keeps: "object_step runs s t \<Longrightarrow> nothing_leaks s \<Longrightarrow> nothing_leaks t"
proof (erule object_stepE)
  fix es assume "nothing_leaks s" "t = run_effects es s" "go_present s"
    "runs (go_deleting s) (go_guarded s) (filter (\<lambda>e. e \<noteq> UserDelete) es)"
  then show "nothing_leaks t" using disciplined_runs run_keeps by blast
qed (simp add: nothing_leaks_def)

lemma never_leaks: "reachable runs s \<Longrightarrow> nothing_leaks s"
proof (induction rule: reachable.induct)
  case start
  show ?case by (simp add: nothing_leaks_def new_object_def)
next
  case (step s t)
  then show ?case by (blast intro: step_keeps)
qed

end

text \<open>A guarded object that touched Amberflo can be reached when a reconciler attaches the finalizer
  in one run and syncs in the next.\<close>

definition touched_object :: guarded_object where
  "touched_object = \<lparr>go_present = True, go_deleting = False, go_guarded = True, go_remote = True\<rparr>"

lemma touched_object_reachable:
  assumes "runs False False [AddFinalizer True]" "runs False True [Touch]"
  shows "reachable runs touched_object"
proof -
  have "object_step runs new_object (run_effects [AddFinalizer True] new_object)"
    by (rule object_step.reconcile) (simp_all add: new_object_def assms)
  with reachable.start have "reachable runs (new_object\<lparr>go_guarded := True\<rparr>)"
    by (auto simp: run_effects_def new_object_def intro: reachable.step)
  moreover have "object_step runs (new_object\<lparr>go_guarded := True\<rparr>) (run_effects [Touch] (new_object\<lparr>go_guarded := True\<rparr>))"
    by (rule object_step.reconcile) (simp_all add: new_object_def assms)
  moreover have "run_effects [Touch] (new_object\<lparr>go_guarded := True\<rparr>) = touched_object"
    by (simp add: run_effects_def new_object_def touched_object_def)
  ultimately show ?thesis by (metis reachable.step)
qed

lemma disciplined_Nil [simp]: "disciplined del g []"
  by (simp add: disciplined_def)

text \<open>Runs without the finalizer's removal, and the removal at the end.\<close>

lemma disciplined_sync:
  "(\<forall>ok. DropFinalizer ok \<notin> set es) \<Longrightarrow> (Touch \<in> set es \<longrightarrow> g \<and> \<not> del) \<Longrightarrow> disciplined del g es"
  by (auto simp: disciplined_def)

lemma disciplined_drop:
  "(\<forall>ok. DropFinalizer ok \<notin> set es) \<Longrightarrow> Touch \<notin> set es \<Longrightarrow> del \<Longrightarrow> Release \<in> set es \<or> Abandon \<in> set es
     \<Longrightarrow> \<forall>e\<in>set fs. \<exists>ok. e = DropFinalizer ok \<Longrightarrow> disciplined del g (es @ fs)"
  unfolding disciplined_def
proof (intro conjI allI impI)
  fix pre ok post
  assume nd: "\<forall>ok. DropFinalizer ok \<notin> set es" and rel: "Release \<in> set es \<or> Abandon \<in> set es"
    and eq: "es @ fs = pre @ DropFinalizer ok # post"
  then obtain us where "pre = es @ us"
    by (auto simp: append_eq_append_conv2 Cons_eq_append_conv append_eq_Cons_conv)
  with rel show "Release \<in> set pre \<or> Abandon \<in> set pre" by auto
qed auto

end
