(* ===== verification/AccountController.thy ===== *)
theory AccountController
  imports StripeSwitch FinalizerProtocol
begin

text \<open>
  internal/controller/billingaccount_controller.go: the reconciler that keeps one Amberflo customer
  per billing account.  Logging and the duration metric are left out; Kubernetes events are steps
  of the trace.
\<close>

section \<open>Desired state\<close>

definition CustomerLinkFinalizer :: string where
  "CustomerLinkFinalizer = ''amberflo.providers.datum.net/customer-link''"

definition ForceDeleteAnnotation :: string where
  "ForceDeleteAnnotation = ''amberflo.providers.datum.net/force-delete''"

definition sortedCopy :: "string list \<Rightarrow> string list" where
  "sortedCopy xs = sorted_set xs"

definition projectsFromActiveBindings :: "BillingAccountBinding list \<Rightarrow> string list" where
  "projectsFromActiveBindings items = sortedCopy
     (map bb_ProjectRef (filter (\<lambda>b. bb_Phase b = BillingAccountBindingPhaseActive \<and> bb_ProjectRef b \<noteq> []) items))"

definition desiredCustomerFromAccount :: "BillingAccount \<Rightarrow> string list \<Rightarrow> DesiredCustomer" where
  "desiredCustomerFromAccount account projects =
     \<lparr>dc_ID = ba_UID account, dc_Name = ba_Name account,
      dc_Email = (case ba_ContactEmail account of None \<Rightarrow> [] | Some e \<Rightarrow> e),
      dc_CurrencyCode = ba_CurrencyCode account,
      dc_PaymentTerms = map_option (\<lambda>pt. \<lparr>NetDays = bt_NetDays pt, InvoiceFrequency = bt_InvoiceFrequency pt,
          InvoiceDayOfMonth = bt_InvoiceDayOfMonth pt\<rparr>) (ba_PaymentTerms account),
      dc_Projects = sortedCopy projects, dc_ExtraTraits = []\<rparr>"

section \<open>Which accounts a change concerns\<close>

definition mapBindingToAccount :: "BillingAccountBinding \<Rightarrow> (string \<times> string) list" where
  "mapBindingToAccount b = [(bb_Namespace b, bb_BillingAccountRef b)]"

definition mapPaymentMethodToAccount :: "PaymentMethod \<Rightarrow> (string \<times> string) list" where
  "mapPaymentMethodToAccount pm =
     (if pm_BillingAccountRef pm = [] then [] else [(pm_Namespace pm, pm_BillingAccountRef pm)])"

definition mapStripePaymentMethodToAccount :: "'w account_env \<Rightarrow> StripePaymentMethod
    \<Rightarrow> ('w, account_step, (string \<times> string) list) act" where
  "mapStripePaymentMethodToAccount env spm =
     (let pmName = spm_PaymentMethodRef spm
      in if pmName = [] then ret []
         else do {
           r \<leftarrow> perform (env_GetPaymentMethod env (spm_Namespace spm) pmName) GotPaymentMethod;
           ret (case r of Inl e \<Rightarrow> [] | Inr pm \<Rightarrow> mapPaymentMethodToAccount pm)
         })"

section \<open>Events and the error policy\<close>

definition event :: "'w account_env \<Rightarrow> string \<Rightarrow> string \<Rightarrow> string \<Rightarrow> ('w, account_step, unit) act" where
  "event env kind reason msg = (if env_HasRecorder env then remark (Event kind reason msg) else ret ())"

definition EventReasonSynced :: string where "EventReasonSynced = ''Synced''"
definition EventReasonSyncFailed :: string where "EventReasonSyncFailed = ''SyncFailed''"
definition EventReasonDisabled :: string where "EventReasonDisabled = ''Disabled''"
definition EventReasonDisableFailed :: string where "EventReasonDisableFailed = ''DisableFailed''"
definition EventReasonForceDeleted :: string where "EventReasonForceDeleted = ''ForceDeleted''"

definition syncReasonTransient :: string where "syncReasonTransient = ''TransientError''"
definition syncReasonPermanent :: string where "syncReasonPermanent = ''PermanentError''"
definition syncReasonInvalid :: string where "syncReasonInvalid = ''InvalidSpec''"

definition handleAmberfloError :: "'w account_env \<Rightarrow> goerr \<Rightarrow> ('w, account_step, reconciled) act" where
  "handleAmberfloError env err =
     (if IsPermanent err then do {
        event env ''Warning'' EventReasonSyncFailed (syncReasonPermanent @ '': '' @ err_text err);
        ret done_ok
      }
      else if IsTransient err then do {
        event env ''Warning'' EventReasonSyncFailed (syncReasonTransient @ '': '' @ err_text err);
        ret (requeue_after transientRequeueAfter)
      }
      else do {
        event env ''Warning'' EventReasonSyncFailed (syncReasonInvalid @ '': '' @ err_text err);
        ret (requeue_after transientRequeueAfter)
      })"

section \<open>Deletion\<close>

text \<open>A server-side apply names the finalizers this field owner claims, and nothing else; the remove
  path claims none and does not force.\<close>

definition removeFinalizer :: "'w account_env \<Rightarrow> BillingAccount \<Rightarrow> ('w, account_step, rerr option) act" where
  "removeFinalizer env account = do {
     r \<leftarrow> perform (env_Apply env (ba_Name account) (ba_Namespace account) [] False) (Applied [] False);
     case r of
       None \<Rightarrow> ret None
     | Some e \<Rightarrow>
       if e = Forbidden then do {
         let m = ba_Meta account;
         let account = account\<lparr>ba_Meta := m\<lparr>om_Finalizers :=
           fl_Remove (env_finalizers env) (om_Finalizers m) CustomerLinkFinalizer\<rparr>\<rparr>;
         u \<leftarrow> perform (env_Update env account) (UpdatedAccount account);
         ret (map_option (KubeErr ''remove finalizer (update fallback)'') u)
       }
       else ret (Some (KubeErr ''remove finalizer'' e))
   }"

definition finish_removal :: "'w account_env \<Rightarrow> BillingAccount \<Rightarrow> ('w, account_step, reconciled) act" where
  "finish_removal env account = do {
     r \<leftarrow> removeFinalizer env account;
     ret (case r of None \<Rightarrow> done_ok | Some e \<Rightarrow> failed_with e)
   }"

definition forced :: "'w account_env \<Rightarrow> BillingAccount \<Rightarrow> bool" where
  "forced env account \<longleftrightarrow>
     mget (om_Annotations (ba_Meta account)) ForceDeleteAnnotation = ''true'' \<or> env_AllowCustomerDelete env"

definition reconcileDelete :: "'w account_env \<Rightarrow> BillingAccount \<Rightarrow> ('w, account_step, reconciled) act" where
  "reconcileDelete env account =
     (if \<not> fl_Contains (env_finalizers env) (om_Finalizers (ba_Meta account)) CustomerLinkFinalizer then ret done_ok
      else let customerID = ba_UID account in
      if forced env account then do {
        e \<leftarrow> perform (env_DisableCustomer env customerID) (DisabledCustomer customerID);
        (case e of
           Some err \<Rightarrow> event env ''Warning'' EventReasonForceDeleted
             (''DisableCustomer failed, continuing via force-delete: '' @ err_text err)
         | None \<Rightarrow> event env ''Normal'' EventReasonDisabled (''Amberflo customer '' @ customerID @ '' disabled''));
        finish_removal env account
      }
      else do {
        e \<leftarrow> perform (env_DisableCustomer env customerID) (DisabledCustomer customerID);
        case e of
          Some err \<Rightarrow>
            if IsTransient err then do {
              event env ''Warning'' EventReasonDisableFailed (''transient: '' @ err_text err);
              ret (requeue_after transientRequeueAfter)
            }
            else do {
              event env ''Warning'' EventReasonDisableFailed
                (''permanent (annotate '' @ ForceDeleteAnnotation @ ''=true to force): '' @ err_text err);
              ret (requeue_after permanentDisableRequeueAfter)
            }
        | None \<Rightarrow> do {
            event env ''Normal'' EventReasonDisabled (''Amberflo customer '' @ customerID @ '' disabled'');
            finish_removal env account
          }
      })"

section \<open>Invoices\<close>

fun upsert_invoices :: "'w account_env \<Rightarrow> BillingAccount \<Rightarrow> CustomerProductInvoice list
    \<Rightarrow> ('w, account_step, reconciled) act" where
  "upsert_invoices env account [] = ret done_ok"
| "upsert_invoices env account (iv # ivs) = do {
     e \<leftarrow> perform (env_UpsertInvoice env account iv) (UpsertedInvoice iv);
     case e of
       Some err \<Rightarrow> ret (requeue_after transientRequeueAfter)
     | None \<Rightarrow> upsert_invoices env account ivs
   }"

definition syncInvoices :: "'w account_env \<Rightarrow> BillingAccount \<Rightarrow> string \<Rightarrow> ('w, account_step, reconciled) act" where
  "syncInvoices env account customerID =
     (if \<not> env_HasInvoiceSyncer env then ret done_ok
      else do {
        r \<leftarrow> perform (env_ListInvoices env customerID) (ListedInvoices customerID);
        case r of
          Inl err \<Rightarrow> ret (if IsTransient err then requeue_after transientRequeueAfter
            else if IsPermanent err then done_ok
            else requeue_after transientRequeueAfter)
        | Inr invoices \<Rightarrow> upsert_invoices env account invoices
      })"

section \<open>Reconcile\<close>

definition aggregateActiveBindingProjects :: "'w account_env \<Rightarrow> BillingAccount
    \<Rightarrow> ('w, account_step, kerr + string list) act" where
  "aggregateActiveBindingProjects env account = do {
     r \<leftarrow> perform (env_ListBindings env (ba_Namespace account) (ba_Name account)) ListedBindings;
     ret (case r of Inl e \<Rightarrow> Inl e | Inr items \<Rightarrow> Inr (projectsFromActiveBindings items))
   }"

text \<open>The Stripe traits to keep when no Stripe customer is known at the moment.\<close>

definition extra_traits :: "'w account_env \<Rightarrow> string \<Rightarrow> string \<Rightarrow> ('w, account_step, goerr + strmap) act" where
  "extra_traits env customerID stripeCustomerID =
     (if stripeCustomerID \<noteq> [] then ret (Inr (stripeExtraTraitsForAccount stripeCustomerID))
      else do {
        r \<leftarrow> perform (env_GetCustomer env customerID) (GotCustomer customerID);
        ret (case r of
          Inr existing \<Rightarrow> Inr (stripeTraitsFromExisting (cu_Traits existing))
        | Inl e \<Rightarrow> if errors_Is e ErrCustomerNotFound then Inr [] else Inl e)
      })"

definition finish_sync :: "'w account_env \<Rightarrow> BillingAccount \<Rightarrow> DesiredCustomer \<Rightarrow> Customer
    \<Rightarrow> ('w, account_step, reconciled) act" where
  "finish_sync env account desired customer = do {
     r \<leftarrow> syncInvoices env account (dc_ID desired);
     (if snd r \<noteq> None \<or> RequeueAfter (fst r) > 0 then ret r
      else do {
        event env ''Normal'' EventReasonSynced (''Amberflo customer '' @ cu_ID customer @ '' synced'');
        ret done_ok
      })
   }"

text \<open>After the customer is in place: schedule the switch of the payment method, then the invoices.\<close>

definition switch_and_finish :: "'w account_env \<Rightarrow> BillingAccount \<Rightarrow> DesiredCustomer \<Rightarrow> string \<Rightarrow> Customer
    \<Rightarrow> ('w, account_step, reconciled) act" where
  "switch_and_finish env account desired stripeCustomerID customer =
     (if stripeCustomerID = [] then finish_sync env account desired customer
      else do {
        now \<leftarrow> perform (env_Now env) ReadClock;
        e \<leftarrow> scheduleStripePaymentSwitch env account (dc_ID desired) stripeCustomerID now;
        case e of
          None \<Rightarrow> finish_sync env account desired customer
        | Some err \<Rightarrow>
          if IsTransient err then ret (requeue_after transientRequeueAfter)
          else if IsPermanent err then do {
            event env ''Warning'' EventReasonSyncFailed (''Stripe payment switch failed: '' @ err_text err);
            finish_sync env account desired customer
          }
          else ret (requeue_after transientRequeueAfter)
      })"

definition ensure_and_finish :: "'w account_env \<Rightarrow> BillingAccount \<Rightarrow> DesiredCustomer \<Rightarrow> string
    \<Rightarrow> ('w, account_step, reconciled) act" where
  "ensure_and_finish env account desired stripeCustomerID = do {
     x \<leftarrow> extra_traits env (dc_ID desired) stripeCustomerID;
     case x of
       Inl e \<Rightarrow> handleAmberfloError env e
     | Inr extra \<Rightarrow> do {
         let desired = desired\<lparr>dc_ExtraTraits := extra\<rparr>;
         c \<leftarrow> perform (env_EnsureCustomer env desired) (EnsuredCustomer desired);
         case c of
           Inl e \<Rightarrow> handleAmberfloError env e
         | Inr customer \<Rightarrow> switch_and_finish env account desired stripeCustomerID customer
       }
   }"

definition sync_account :: "'w account_env \<Rightarrow> BillingAccount \<Rightarrow> ('w, account_step, reconciled) act" where
  "sync_account env account = do {
     p \<leftarrow> aggregateActiveBindingProjects env account;
     case p of
       Inl e \<Rightarrow> ret (failed_with (KubeErr ''aggregate active binding projects'' e))
     | Inr projects \<Rightarrow> do {
         r \<leftarrow> resolveStripeCustomerID env account;
         case r of
           Inl e \<Rightarrow> ret (failed_with (prefix_err ''resolve stripe customer id: '' e))
         | Inr stripeCustomerID \<Rightarrow>
             ensure_and_finish env account (desiredCustomerFromAccount account projects) stripeCustomerID
       }
   }"

definition reconcile_account :: "'w account_env \<Rightarrow> BillingAccount \<Rightarrow> ('w, account_step, reconciled) act" where
  "reconcile_account env account =
     (if deleting (ba_Meta account) then reconcileDelete env account
      else if \<not> fl_Contains (env_finalizers env) (om_Finalizers (ba_Meta account)) CustomerLinkFinalizer then do {
        e \<leftarrow> perform (env_Apply env (ba_Name account) (ba_Namespace account) [CustomerLinkFinalizer] True)
          (Applied [CustomerLinkFinalizer] True);
        ret (case e of None \<Rightarrow> done_ok | Some err \<Rightarrow> failed_with (KubeErr ''add finalizer'' err))
      }
      else sync_account env account)"

definition Reconcile :: "'w account_env \<Rightarrow> string \<Rightarrow> string \<Rightarrow> ('w, account_step, reconciled) act" where
  "Reconcile env ns name = do {
     r \<leftarrow> perform (env_GetAccount env ns name) GotAccount;
     case r of
       Inl e \<Rightarrow> ret (if e = NotFound then done_ok else failed_with (KubeErr [] e))
     | Inr account \<Rightarrow> reconcile_account env account
   }"

section \<open>Facts\<close>

lemma event_only: "(\<And>k r m. P (Event k r m)) \<Longrightarrow> only P (event env kind reason msg)"
  unfolding event_def by (intro only_intros) simp_all

lemma event_leaves: "leaves (event env kind reason msg) (\<lambda>es _. \<forall>e\<in>set es. \<exists>k r m. e = Event k r m)"
  using event_only [of "\<lambda>e. \<exists>k r m. e = Event k r m"] by (simp add: only_def)

lemmas sync_defs = sync_account_def ensure_and_finish_def switch_and_finish_def aggregateActiveBindingProjects_def resolveStripeCustomerID_def extra_traits_def
  handleAmberfloError_def finish_sync_def syncInvoices_def scheduleStripePaymentSwitch_def
  resolveStripePaymentSwitchTarget_def

lemma upsert_only: "(\<And>i r. P (UpsertedInvoice i r)) \<Longrightarrow> only P (upsert_invoices env account ivs)"
  by (induction ivs) (auto intro!: only_intros)

text \<open>What the effects of the steps are on the protocol of the finalizer.\<close>

fun account_effects :: "account_step \<Rightarrow> effect list" where
  "account_effects (EnsuredCustomer d r) = [Touch]"
| "account_effects (Scheduled sw r) = [Touch]"
| "account_effects (DisabledCustomer c e) = (if e = None then [Release] else [])"
| "account_effects (Applied fs force e) = (if fs = [] then [DropFinalizer (e = None)] else [AddFinalizer (e = None)])"
| "account_effects (UpdatedAccount a e) = [DropFinalizer (e = None)]"
| "account_effects e = []"

lemma sync_account_only:
  "only (\<lambda>e. \<forall>ok. DropFinalizer ok \<notin> set (account_effects e)) (sync_account env account)"
  unfolding sync_defs Let_def
  by (intro only_intros event_only upsert_only) simp_all

definition removal :: "'w account_env \<Rightarrow> BillingAccount \<Rightarrow> account_step list \<Rightarrow> reconciled \<Rightarrow> bool" where
  "removal env account es r \<longleftrightarrow>
     (es = [Applied [] False None] \<and> r = done_ok)
   \<or> (\<exists>e. e \<noteq> Forbidden \<and> es = [Applied [] False (Some e)] \<and> comes_back r)
   \<or> (\<exists>u. es = [Applied [] False (Some Forbidden), UpdatedAccount (account\<lparr>ba_Meta := (ba_Meta account)\<lparr>om_Finalizers :=
           fl_Remove (env_finalizers env) (om_Finalizers (ba_Meta account)) CustomerLinkFinalizer\<rparr>\<rparr>) u]
        \<and> (if u = None then r = done_ok else comes_back r))"

lemma finish_removal_leaves: "leaves (finish_removal env account) (removal env account)"
  unfolding finish_removal_def removeFinalizer_def Let_def
  by (rule leaves_bind, intro leaves_perform_bind leaves_option leaves_if leaves_ret)
    (auto simp: removal_def)

text \<open>The three ways a deletion goes.\<close>

definition deletion :: "'w account_env \<Rightarrow> BillingAccount \<Rightarrow> account_step list \<Rightarrow> reconciled \<Rightarrow> bool" where
  "deletion env account es r \<longleftrightarrow>
     (\<not> fl_Contains (env_finalizers env) (om_Finalizers (ba_Meta account)) CustomerLinkFinalizer
        \<and> es = [] \<and> r = done_ok)
   \<or> (\<exists>e evs. es = DisabledCustomer (ba_UID account) (Some e) # evs \<and> \<not> forced env account
        \<and> (\<forall>e\<in>set evs. \<exists>k r m. e = Event k r m)
        \<and> r = requeue_after (if IsTransient e then transientRequeueAfter else permanentDisableRequeueAfter))
   \<or> (\<exists>e evs fin. es = DisabledCustomer (ba_UID account) e # evs @ fin \<and> (e = None \<or> forced env account)
        \<and> (\<forall>e\<in>set evs. \<exists>k r m. e = Event k r m) \<and> removal env account fin r)"

lemma reconcileDelete_leaves: "leaves (reconcileDelete env account) (deletion env account)"
proof -
  have fin: "leaves (State_Monad.bind (event env k rs m) (\<lambda>_. finish_removal env account))
      (\<lambda>es r. deletion env account (DisabledCustomer (ba_UID account) e # es) r)"
    if "e = None \<or> forced env account" for k rs m e
    by (rule leaves_bind, rule leaves_weaken [OF event_leaves], rule leaves_weaken [OF finish_removal_leaves])
      (use that in \<open>auto simp: deletion_def\<close>)
  have again: "leaves (State_Monad.bind (event env k rs m) (\<lambda>_. ret r))
      (\<lambda>es r. deletion env account (DisabledCustomer (ba_UID account) (Some e) # es) r)"
    if "\<not> forced env account"
      "r = requeue_after (if IsTransient e then transientRequeueAfter else permanentDisableRequeueAfter)" for k rs m e r
    by (rule leaves_bind, rule leaves_weaken [OF event_leaves], rule leaves_ret)
      (use that in \<open>auto simp: deletion_def\<close>)
  show ?thesis
    unfolding reconcileDelete_def Let_def
    by (intro leaves_if leaves_ret leaves_perform_bind)
      (auto simp: deletion_def [of env account "[]"] split: option.split intro: fin again)
qed

text \<open>The runs of the reconciler on one account, without the force-delete escape.\<close>

definition effects_of :: "account_step list \<Rightarrow> effect list" where
  "effects_of es = concat (map account_effects es)"

lemma effects_of_simps [simp]:
  "effects_of [] = []" "effects_of (e # es) = account_effects e @ effects_of es"
  "effects_of (es @ fs) = effects_of es @ effects_of fs"
  by (simp_all add: effects_of_def)

lemma effects_of_events: "\<forall>e\<in>set es. \<exists>k r m. e = Event k r m \<Longrightarrow> effects_of es = []"
  by (induction es) auto

definition account_runs :: "bool \<Rightarrow> bool \<Rightarrow> effect list \<Rightarrow> bool" where
  "account_runs del g es \<longleftrightarrow>
     (\<exists>(env :: nat account_env) account s r s' steps.
        finalizer_laws (env_finalizers env) \<and> \<not> forced env account
      \<and> del = deleting (ba_Meta account) \<and> g = (CustomerLinkFinalizer \<in> set (om_Finalizers (ba_Meta account)))
      \<and> run_state (reconcile_account env account) s = (r, s')
      \<and> ts_log s' = ts_log s @ steps \<and> es = effects_of steps)"

lemma removal_effects:
  "removal env account es r \<Longrightarrow> \<forall>e\<in>set (effects_of es). \<exists>ok. e = DropFinalizer ok"
  by (auto simp: removal_def)

lemma deletionE:
  assumes "deletion env account es r"
  obtains (idle) "\<not> fl_Contains (env_finalizers env) (om_Finalizers (ba_Meta account)) CustomerLinkFinalizer"
      "es = []" "r = done_ok"
    | (failed) e evs where "es = DisabledCustomer (ba_UID account) (Some e) # evs" "\<not> forced env account"
      "\<forall>e\<in>set evs. \<exists>k r m. e = Event k r m"
      "r = requeue_after (if IsTransient e then transientRequeueAfter else permanentDisableRequeueAfter)"
    | (removed) e evs fin where "es = DisabledCustomer (ba_UID account) e # evs @ fin" "e = None \<or> forced env account"
      "\<forall>e\<in>set evs. \<exists>k r m. e = Event k r m" "removal env account fin r"
  using assms unfolding deletion_def by blast

lemma deletion_disciplined:
  assumes "deletion env account es r" "\<not> forced env account"
  shows "disciplined True g (effects_of es)"
  using assms(1)
proof (cases rule: deletionE)
  case (removed e evs fin)
  with assms(2) have "effects_of es = [Release] @ effects_of fin" by (simp add: effects_of_events)
  then show ?thesis using removal_effects [OF removed(4)]
      disciplined_drop [of "[Release]" True "effects_of fin" g] by simp
qed (simp_all add: effects_of_events)

lemma reconcile_account_disciplined:
  assumes "finalizer_laws (env_finalizers env)" "\<not> forced env account"
    and "run_state (reconcile_account env account) s = (r, s')" "ts_log s' = ts_log s @ es"
  shows "disciplined (deleting (ba_Meta account))
     (CustomerLinkFinalizer \<in> set (om_Finalizers (ba_Meta account))) (effects_of es)"
proof -
  let ?g = "CustomerLinkFinalizer \<in> set (om_Finalizers (ba_Meta account))"
  have g: "fl_Contains (env_finalizers env) (om_Finalizers (ba_Meta account)) CustomerLinkFinalizer = ?g"
    using assms(1) by (simp add: finalizer_laws_def)
  consider "deleting (ba_Meta account)" | "\<not> deleting (ba_Meta account)" "\<not> ?g"
    | "\<not> deleting (ba_Meta account)" "?g" by blast
  then show ?thesis
  proof cases
    case 1
    with assms(3,4) leavesD [OF reconcileDelete_leaves, of env account s r s']
    have "deletion env account es r" by (auto simp: reconcile_account_def)
    from deletion_disciplined [OF this assms(2)] 1 show ?thesis by simp
  next
    case 2
    with assms(3,4) g have "effects_of es = [AddFinalizer True] \<or> effects_of es = [AddFinalizer False]"
      by (auto simp: reconcile_account_def run_simps split: prod.splits)
    then show ?thesis by (intro disciplined_sync) auto
  next
    case 3
    with assms(3,4) g onlyD [OF sync_account_only, of env account s r s']
    have "\<forall>e\<in>set es. \<forall>ok. DropFinalizer ok \<notin> set (account_effects e)" by (auto simp: reconcile_account_def)
    with 3 show ?thesis by (intro disciplined_sync) (auto simp: effects_of_def)
  qed
qed

interpretation account_guard: guarded_reconciler account_runs
  by unfold_locales (auto simp: account_runs_def intro: reconcile_account_disciplined)

section \<open>What a sync sends and when it comes back\<close>

text \<open>A failure that may pass: an error of the API server other than a missing payment method, an
  Amberflo error that is not permanent, an invoice that was not stored.\<close>

fun passing_failure :: "account_step \<Rightarrow> bool" where
  "passing_failure (GotPaymentMethod (Inl e)) = (e \<noteq> NotFound)"
| "passing_failure (GotStripePaymentMethod (Inl e)) = (e \<noteq> NotFound)"
| "passing_failure (ListedBindings (Inl e)) = True"
| "passing_failure (GotCustomer c (Inl e)) = (\<not> IsPermanent e \<and> \<not> errors_Is e ErrCustomerNotFound)"
| "passing_failure (EnsuredCustomer d (Inl e)) = (\<not> IsPermanent e)"
| "passing_failure (ListedSettings (Inl e)) = (\<not> IsPermanent e)"
| "passing_failure (ListedSwitches c (Inl e)) = (\<not> IsPermanent e)"
| "passing_failure (Scheduled sw (Inl e)) = (\<not> IsPermanent e)"
| "passing_failure (ListedInvoices c (Inl e)) = (\<not> IsPermanent e)"
| "passing_failure (UpsertedInvoice i (Some e)) = True"
| "passing_failure e = False"

definition told :: "(account_step list \<Rightarrow> 'a \<Rightarrow> bool) \<Rightarrow> account_step list \<Rightarrow> 'a \<Rightarrow> bool" where
  "told good es r \<longleftrightarrow> ((\<exists>e\<in>set es. passing_failure e) \<longrightarrow> good es r)"

lemma event_quiet: "leaves (event env k r m) (\<lambda>es _. \<forall>e\<in>set es. \<not> passing_failure e)"
  using event_only [of "\<lambda>e. \<not> passing_failure e"] by (simp add: only_def)

lemma resolve_told: "leaves (resolveStripeCustomerID env account) (\<lambda>es r. (\<exists>e\<in>set es. passing_failure e) \<longrightarrow> isl r)"
  unfolding resolveStripeCustomerID_def Let_def
  by (intro leaves_if leaves_ret leaves_option leaves_perform_bind leaves_sum) simp_all

lemma extra_told: "leaves (extra_traits env c sid)
    (\<lambda>es r. (\<exists>e\<in>set es. passing_failure e) \<longrightarrow> (\<exists>e. r = Inl e \<and> \<not> IsPermanent e))"
  unfolding extra_traits_def Let_def
  by (intro leaves_if leaves_ret leaves_perform_bind) (auto split: sum.splits)

lemma schedule_told: "leaves (scheduleStripePaymentSwitch env account c sid now)
    (\<lambda>es r. (\<exists>e\<in>set es. passing_failure e) \<longrightarrow> (\<exists>e. r = Some e \<and> \<not> IsPermanent e))"
  unfolding scheduleStripePaymentSwitch_def resolveStripePaymentSwitchTarget_def Let_def
  by (rule leaves_if; (rule leaves_bind)?; intro leaves_if leaves_ret leaves_perform_bind leaves_sum leaves_option)
    (auto split: sum.splits option.splits if_splits)

lemma handle_told: "leaves (handleAmberfloError env e) (\<lambda>es r. (\<forall>e\<in>set es. \<not> passing_failure e)
    \<and> (\<not> IsPermanent e \<longrightarrow> comes_back r))"
  unfolding handleAmberfloError_def
  by (intro leaves_if leaves_bind leaves_weaken [OF event_quiet] leaves_ret) simp_all

lemma upsert_told: "leaves (upsert_invoices env account ivs) (\<lambda>es r. (\<exists>e\<in>set es. passing_failure e) \<longrightarrow> comes_back r)"
proof (induction ivs)
  case (Cons iv ivs)
  then show ?case
    by (auto intro!: leaves_perform_bind leaves_ret elim: leaves_weaken split: option.split)
qed (simp add: leaves_ret)

lemma invoices_told: "leaves (syncInvoices env account c) (\<lambda>es r. (\<exists>e\<in>set es. passing_failure e) \<longrightarrow> comes_back r)"
  unfolding syncInvoices_def
  by (intro leaves_if leaves_ret leaves_perform_bind leaves_sum leaves_weaken [OF upsert_told])
    (auto simp: done_ok_def requeue_after_def comes_back_def)

lemma finish_told: "leaves (finish_sync env account d c) (\<lambda>es r. (\<exists>e\<in>set es. passing_failure e) \<longrightarrow> comes_back r)"
  unfolding finish_sync_def
  by (rule leaves_bind, rule leaves_weaken [OF invoices_told],
      intro leaves_if leaves_ret leaves_bind leaves_weaken [OF event_quiet])
    (auto simp: comes_back_def)

lemma switch_told: "leaves (switch_and_finish env account d sid c) (\<lambda>es r. (\<exists>e\<in>set es. passing_failure e) \<longrightarrow> comes_back r)"
  unfolding switch_and_finish_def
proof (intro leaves_if leaves_perform_bind, goal_cases)
  case 1
  show ?case by (rule finish_told)
next
  case (2 now)
  show ?case
    by (rule leaves_bind, rule leaves_weaken [OF schedule_told], intro leaves_option leaves_if leaves_ret leaves_bind
        leaves_weaken [OF finish_told] leaves_weaken [OF event_quiet]) auto
qed

lemma ensure_told: "leaves (ensure_and_finish env account d sid) (\<lambda>es r. (\<exists>e\<in>set es. passing_failure e) \<longrightarrow> comes_back r)"
  unfolding ensure_and_finish_def Let_def
  by (rule leaves_bind, rule leaves_weaken [OF extra_told], intro leaves_sum leaves_perform_bind)
    (auto intro: leaves_weaken [OF handle_told] leaves_weaken [OF switch_told])

lemma aggregate_leaves:
  "leaves (aggregateActiveBindingProjects env account) (\<lambda>es r. \<exists>x. es = [ListedBindings x]
     \<and> r = (case x of Inl e \<Rightarrow> Inl e | Inr items \<Rightarrow> Inr (projectsFromActiveBindings items)))"
  unfolding aggregateActiveBindingProjects_def by (intro leaves_perform_bind leaves_ret) auto

lemma aggregate_told:
  "leaves (aggregateActiveBindingProjects env account) (\<lambda>es r. (\<exists>e\<in>set es. passing_failure e) \<longrightarrow> isl r)"
proof (rule leaves_weaken [OF aggregate_leaves], elim exE conjE)
  fix es r x
  assume "es = [ListedBindings x]" "r = (case x of Inl e \<Rightarrow> Inl e | Inr items \<Rightarrow> Inr (projectsFromActiveBindings items))"
  then show "(\<exists>e\<in>set es. passing_failure e) \<longrightarrow> isl r" by (cases x) simp_all
qed

text \<open>What the customer is asked to be.\<close>

definition not_asked :: "account_step \<Rightarrow> bool" where
  "not_asked e \<longleftrightarrow> (\<forall>d r. e \<noteq> EnsuredCustomer d r) \<and> (\<forall>c r. e \<noteq> GotCustomer c r)"

lemma not_asked_simps [simp]:
  "not_asked (ReadClock t)" "not_asked (GotPaymentMethod a)" "not_asked (GotStripePaymentMethod b)"
  "not_asked (ListedBindings c)" "not_asked (ListedSettings d)" "not_asked (ListedSwitches i e)"
  "not_asked (Scheduled sw f)" "not_asked (ListedInvoices i g)" "not_asked (UpsertedInvoice iv h)"
  "not_asked (Event k m n)" "\<not> not_asked (EnsuredCustomer dd r)" "\<not> not_asked (GotCustomer i q)"
  by (simp_all add: not_asked_def)

lemma resolve_only: "only not_asked (resolveStripeCustomerID env account)"
  unfolding resolveStripeCustomerID_def Let_def by (intro only_intros) simp_all

lemma handle_only: "only not_asked (handleAmberfloError env e)"
  unfolding handleAmberfloError_def by (intro only_intros event_only) simp_all

lemma switch_only: "only not_asked (switch_and_finish env account d sid c)"
  unfolding switch_and_finish_def scheduleStripePaymentSwitch_def resolveStripePaymentSwitchTarget_def
    finish_sync_def syncInvoices_def Let_def
  by (intro only_intros event_only upsert_only) simp_all

lemma extra_traits_leaves:
  "leaves (extra_traits env c sid) (\<lambda>es r. (es = [] \<and> r = Inr (stripeExtraTraitsForAccount sid) \<and> sid \<noteq> [])
     \<or> (\<exists>x. es = [GotCustomer c x] \<and> (\<forall>ex. x = Inr ex \<longrightarrow> r = Inr (stripeTraitsFromExisting (cu_Traits ex)))))"
  unfolding extra_traits_def by (intro leaves_if leaves_perform_bind leaves_ret) auto

definition asks :: "string \<Rightarrow> DesiredCustomer \<Rightarrow> account_step list \<Rightarrow> bool" where
  "asks c d0 es \<longleftrightarrow> (\<forall>d r. EnsuredCustomer d r \<in> set es \<longrightarrow> (\<exists>extra. d = d0\<lparr>dc_ExtraTraits := extra\<rparr>
     \<and> (\<forall>ex. GotCustomer c (Inr ex) \<in> set es \<longrightarrow> extra = stripeTraitsFromExisting (cu_Traits ex))))"

lemma asks_after:
  assumes "only not_asked m" "\<forall>ex. GotCustomer c (Inr ex) \<in> set pre \<longrightarrow> extra = stripeTraitsFromExisting (cu_Traits ex)"
    "\<forall>e\<in>set pre. \<forall>d r. e \<noteq> EnsuredCustomer d r"
  shows "leaves m (\<lambda>es _. asks c d0 (pre @ EnsuredCustomer (d0\<lparr>dc_ExtraTraits := extra\<rparr>) r # es))"
  using assms(1) unfolding only_def
  by (rule leaves_weaken) (use assms(2,3) in \<open>auto simp: asks_def not_asked_def intro!: exI [of _ extra]\<close>)

lemma asks_none: "only not_asked m \<Longrightarrow> \<forall>e\<in>set pre. \<forall>d r. e \<noteq> EnsuredCustomer d r \<Longrightarrow> leaves m (\<lambda>es _. asks c d0 (pre @ es))"
  unfolding only_def by (erule leaves_weaken) (auto simp: asks_def not_asked_def)

lemma ensure_asks: "leaves (ensure_and_finish env account d0 sid) (\<lambda>es _. asks (dc_ID d0) d0 es)"
  unfolding ensure_and_finish_def Let_def
proof (rule leaves_bind, rule leaves_weaken [OF extra_traits_leaves], goal_cases)
  case (1 es x)
  then have pre: "\<forall>e\<in>set es. \<forall>d r. e \<noteq> EnsuredCustomer d r"
    "\<And>extra. x = Inr extra \<Longrightarrow> \<forall>ex. GotCustomer (dc_ID d0) (Inr ex) \<in> set es \<longrightarrow> extra = stripeTraitsFromExisting (cu_Traits ex)"
    by auto
  show ?case
  proof (rule leaves_sum)
    fix e show "leaves (handleAmberfloError env e) (\<lambda>es'. (\<lambda>_. asks (dc_ID d0) d0 (es @ es')))"
      by (rule asks_none [OF handle_only pre(1)])
  next
    fix extra assume x: "x = Inr extra"
    show "leaves (State_Monad.bind (perform (env_EnsureCustomer env (d0\<lparr>dc_ExtraTraits := extra\<rparr>))
          (EnsuredCustomer (d0\<lparr>dc_ExtraTraits := extra\<rparr>)))
        (case_sum (handleAmberfloError env) (switch_and_finish env account (d0\<lparr>dc_ExtraTraits := extra\<rparr>) sid)))
      (\<lambda>es'. (\<lambda>_. asks (dc_ID d0) d0 (es @ es')))"
      by (intro leaves_perform_bind leaves_sum asks_after handle_only switch_only pre(1) pre(2) [OF x])
  qed
qed

lemma sync_account_told: "leaves (sync_account env account) (\<lambda>es r. (\<exists>e\<in>set es. passing_failure e) \<longrightarrow> comes_back r)"
  unfolding sync_account_def
  by (rule leaves_bind, rule leaves_weaken [OF aggregate_told], intro leaves_sum leaves_ret leaves_bind,
      simp, rule leaves_weaken [OF resolve_told], intro leaves_sum leaves_ret leaves_weaken [OF ensure_told]) auto

lemma sync_account_asks:
  "leaves (sync_account env account) (\<lambda>es _. (\<forall>e\<in>set es. not_asked e) \<or>
     (\<exists>items. ListedBindings (Inr items) \<in> set es
        \<and> asks (ba_UID account) (desiredCustomerFromAccount account (projectsFromActiveBindings items)) es))"
  unfolding sync_account_def
proof (rule leaves_bind, rule leaves_weaken [OF aggregate_leaves], goal_cases)
  case (1 es p)
  then obtain x where x: "es = [ListedBindings x]"
    "p = (case x of Inl e \<Rightarrow> Inl e | Inr items \<Rightarrow> Inr (projectsFromActiveBindings items))" by blast
  show ?case
  proof (cases x)
    case (Inl e)
    with x show ?thesis by (auto intro: leaves_ret)
  next
    case (Inr items)
    let ?d = "desiredCustomerFromAccount account (projectsFromActiveBindings items)"
    have id: "dc_ID ?d = ba_UID account" by (simp add: desiredCustomerFromAccount_def)
    have shift: "asks (ba_UID account) ?d (ListedBindings x # es1 @ es2)"
      if "\<forall>e\<in>set es1. not_asked e" "asks (ba_UID account) ?d es2" for es1 es2
    proof -
      have "GotCustomer c q \<notin> set es1" "EnsuredCustomer dd r \<notin> set es1" for c q dd r
        using that(1) not_asked_simps(11,12) by blast+
      with that(2) show ?thesis by (simp add: asks_def)
    qed
    have "leaves (case r of Inl e \<Rightarrow> ret (failed_with (prefix_err ''resolve stripe customer id: '' e))
          | Inr sid \<Rightarrow> ensure_and_finish env account ?d sid)
        (\<lambda>es2 _. (\<forall>e\<in>set (ListedBindings x # es1 @ es2). not_asked e)
           \<or> asks (ba_UID account) ?d (ListedBindings x # es1 @ es2))"
      if "\<forall>e\<in>set es1. not_asked e" for es1 r
      by (rule leaves_sum, rule leaves_ret, use that in simp,
          rule leaves_weaken [OF ensure_asks [of env account ?d, unfolded id]], use that shift in blast)
    then have "leaves (State_Monad.bind (resolveStripeCustomerID env account)
          (case_sum (\<lambda>e. ret (failed_with (prefix_err ''resolve stripe customer id: '' e)))
             (ensure_and_finish env account ?d)))
        (\<lambda>es2 _. (\<forall>e\<in>set (ListedBindings x # es2). not_asked e) \<or> asks (ba_UID account) ?d (ListedBindings x # es2))"
      by (intro leaves_bind leaves_weaken [OF resolve_only [unfolded only_def]]) simp
    then show ?thesis using x Inr by (auto elim!: leaves_weaken)
  qed
qed

lemma mget_stripe_existing:
  "mget traits traitStripeID \<noteq> [] \<Longrightarrow> mget (stripeTraitsFromExisting traits) traitStripeID = mget traits traitStripeID"
  by (auto simp: stripeTraitsFromExisting_def Let_def mget_def traitStripeID_def traitPaymentProviderName_def
      split: option.splits)

lemma set_projects:
  "set (projectsFromActiveBindings items) = {bb_ProjectRef b |b. b \<in> set items
     \<and> bb_Phase b = BillingAccountBindingPhaseActive \<and> bb_ProjectRef b \<noteq> []}"
  by (auto simp: projectsFromActiveBindings_def sortedCopy_def)

section \<open>Properties\<close>



lemma sample_sync:
  "run_state (sync_account sample_account_env (a :: BillingAccount)) s = (r, s') \<Longrightarrow> ba_DefaultPaymentMethodRef a = None
     \<Longrightarrow> r = done_ok \<and> (\<exists>es. ts_log s' = ts_log s @ es \<and> effects_of es = [Touch])"
  by (auto simp: sync_account_def aggregateActiveBindingProjects_def ensure_and_finish_def extra_traits_def
      resolveStripeCustomerID_def handleAmberfloError_def event_def sample_account_env_def run_simps Let_def)

lemma touched_reachable: "\<exists>s. reachable account_runs s \<and> go_remote s"
proof -
  let ?env = "sample_account_env :: nat account_env" and ?s = "\<lparr>ts_world = 0, ts_log = []\<rparr> :: (nat, account_step) traced_state"
  define a where "a = plain_account ''ns'' ''acme'' ''u1''"
  define b where "b = a\<lparr>ba_Meta := (ba_Meta a)\<lparr>om_Finalizers := [CustomerLinkFinalizer]\<rparr>\<rparr>"
  have env: "finalizer_laws (env_finalizers ?env)" "\<not> forced ?env a" "\<not> forced ?env b"
    by (simp_all add: sample_account_env_def list_finalizers_laws forced_def a_def b_def plain_account_def
        named_meta_def mget_def)
  have c: "\<not> deleting (ba_Meta a)" "\<not> deleting (ba_Meta b)" "om_Finalizers (ba_Meta a) = []"
    "om_Finalizers (ba_Meta b) = [CustomerLinkFinalizer]" "ba_DefaultPaymentMethodRef b = None"
    by (simp_all add: a_def b_def plain_account_def named_meta_def deleting_def)
  have f: "fl_Contains (env_finalizers ?env) fs x \<longleftrightarrow> x \<in> set fs" for fs x
    by (simp add: sample_account_env_def list_finalizers_def)
  have "run_state (reconcile_account ?env a) ?s = (done_ok, ?s\<lparr>ts_log := [Applied [CustomerLinkFinalizer] True None]\<rparr>)"
    by (simp add: c f reconcile_account_def) (simp add: sample_account_env_def run_simps)
  with env c have "account_runs False False [AddFinalizer True]"
    unfolding account_runs_def
    by (intro exI [of _ ?env] exI [of _ a] exI [of _ ?s] exI [of _ done_ok]
        exI [of _ "?s\<lparr>ts_log := [Applied [CustomerLinkFinalizer] True None]\<rparr>"]
        exI [of _ "[Applied [CustomerLinkFinalizer] True None]"]) simp
  moreover obtain r s' where sync: "run_state (sync_account ?env b) ?s = (r, s')" by fastforce
  from sample_sync [OF this c(5)] obtain es where "ts_log s' = ts_log ?s @ es" "effects_of es = [Touch]" by blast
  with sync env c f have "account_runs False True [Touch]"
    unfolding account_runs_def
    by (intro exI [of _ ?env] exI [of _ b] exI [of _ ?s] exI [of _ r] exI [of _ s'] exI [of _ es])
      (simp add: reconcile_account_def)
  ultimately show ?thesis
    using reachable.step [OF reachable.step [OF reachable.start object_step.reconcile [of new_object account_runs "[AddFinalizer True]"]]
        object_step.reconcile [of _ account_runs "[Touch]"]]
    by (auto simp: new_object_def run_effects_def)
qed



text \<open>
  What the reconciler asks Amberflo for: the customer is the account's, by UID; its projects
  are those of the active bindings listed in the same run, sorted and without repetition; and a
  Stripe id the customer already carries is kept when the account has none at the moment.
\<close>

theorem sync_account_ensures:
  assumes "run_state (sync_account env account) s = (r, s')"
  shows "\<exists>es. ts_log s' = ts_log s @ es \<and> (\<forall>d c. EnsuredCustomer d c \<in> set es \<longrightarrow>
     dc_ID d = ba_UID account \<and> dc_Name d = ba_Name account
   \<and> sorted (dc_Projects d) \<and> distinct (dc_Projects d)
   \<and> (\<exists>items. ListedBindings (Inr items) \<in> set es \<and> set (dc_Projects d) =
        {bb_ProjectRef b |b. b \<in> set items \<and> bb_Phase b = BillingAccountBindingPhaseActive \<and> bb_ProjectRef b \<noteq> []})
   \<and> (\<forall>ex. GotCustomer (ba_UID account) (Inr ex) \<in> set es \<and> mget (cu_Traits ex) traitStripeID \<noteq> [] \<longrightarrow>
        mget (dc_ExtraTraits d) traitStripeID = mget (cu_Traits ex) traitStripeID))"
proof -
  from leavesD [OF sync_account_asks assms] obtain es where log: "ts_log s' = ts_log s @ es"
    and a: "(\<forall>e\<in>set es. not_asked e) \<or> (\<exists>items. ListedBindings (Inr items) \<in> set es
        \<and> asks (ba_UID account) (desiredCustomerFromAccount account (projectsFromActiveBindings items)) es)" by blast
  from a show ?thesis
  proof
    assume "\<forall>e\<in>set es. not_asked e"
    then have "EnsuredCustomer d c \<notin> set es" for d c using not_asked_simps(11) by blast
    with log show ?thesis by blast
  next
    assume "\<exists>items. ListedBindings (Inr items) \<in> set es
        \<and> asks (ba_UID account) (desiredCustomerFromAccount account (projectsFromActiveBindings items)) es"
    then obtain items where items: "ListedBindings (Inr items) \<in> set es"
      "asks (ba_UID account) (desiredCustomerFromAccount account (projectsFromActiveBindings items)) es" by blast
    define ps where "ps = sortedCopy (projectsFromActiveBindings items)"
    have ps: "sorted ps" "distinct ps" "set ps = set (projectsFromActiveBindings items)"
      by (auto simp: ps_def sortedCopy_def sorted_set_props projectsFromActiveBindings_def)
    show ?thesis
    proof (intro exI [of _ es] conjI log allI impI)
      fix d c assume "EnsuredCustomer d c \<in> set es"
      with items(2) obtain extra where d:
        "d = (desiredCustomerFromAccount account (projectsFromActiveBindings items))\<lparr>dc_ExtraTraits := extra\<rparr>"
        and kept: "\<And>ex. GotCustomer (ba_UID account) (Inr ex) \<in> set es \<Longrightarrow> extra = stripeTraitsFromExisting (cu_Traits ex)"
        unfolding asks_def by blast
      have f: "dc_ID d = ba_UID account" "dc_Name d = ba_Name account" "dc_Projects d = ps" "dc_ExtraTraits d = extra"
        by (simp_all add: d desiredCustomerFromAccount_def ps_def)
      show "dc_ID d = ba_UID account" "dc_Name d = ba_Name account" by (fact f)+
      show "sorted (dc_Projects d)" "distinct (dc_Projects d)" using f ps by simp_all
      show "\<exists>items. ListedBindings (Inr items) \<in> set es \<and> set (dc_Projects d) =
          {bb_ProjectRef b |b. b \<in> set items \<and> bb_Phase b = BillingAccountBindingPhaseActive \<and> bb_ProjectRef b \<noteq> []}"
        using items(1) f ps by (intro exI [of _ items]) (simp add: set_projects)
      fix ex assume "GotCustomer (ba_UID account) (Inr ex) \<in> set es \<and> mget (cu_Traits ex) traitStripeID \<noteq> []"
      then show "mget (dc_ExtraTraits d) traitStripeID = mget (cu_Traits ex) traitStripeID"
        using kept f mget_stripe_existing by metis
    qed
  qed
qed

theorem sync_account_ensures_witness:
  "\<exists>es. ts_log (snd (run_state (sync_account sample_account_env (plain_account ''ns'' ''acme'' ''u1''))
       \<lparr>ts_world = (), ts_log = []\<rparr>)) = es \<and> (\<forall>d c. EnsuredCustomer d c \<in> set es \<longrightarrow> dc_ID d = ''u1'')"
proof -
  have "ba_UID (plain_account ''ns'' ''acme'' ''u1'') = ''u1''" by (simp add: plain_account_def named_meta_def)
  with sync_account_ensures [OF surjective_pairing, of sample_account_env "plain_account ''ns'' ''acme'' ''u1''"
      "\<lparr>ts_world = (), ts_log = []\<rparr>"] show ?thesis by auto
qed

text \<open>
  C16.  No failure that may pass is forgotten: when a call of a sync failed, other than by a
  permanent Amberflo error or a missing payment method, the account is reconciled again.
\<close>

theorem sync_account_retries:
  assumes "run_state (sync_account env account) s = (r, s')" "\<not> comes_back r"
  shows "\<exists>es. ts_log s' = ts_log s @ es \<and> (\<forall>e\<in>set es. \<not> passing_failure e)"
  using leavesD [OF sync_account_told assms(1)] assms(2) by blast

theorem sync_account_retries_witness:
  "filter passing_failure (ts_log (snd (run_state (sync_account sample_account_env (plain_account ''ns'' ''acme'' ''u1''))
       \<lparr>ts_world = (), ts_log = []\<rparr>))) = []"
proof -
  let ?a = "plain_account ''ns'' ''acme'' ''u1''" and ?s = "\<lparr>ts_world = (), ts_log = []\<rparr> :: (unit, account_step) traced_state"
  obtain r s' where run: "run_state (sync_account sample_account_env ?a) ?s = (r, s')" by fastforce
  have "ba_DefaultPaymentMethodRef ?a = None" by (simp add: plain_account_def)
  with sample_sync [OF run] have "\<not> comes_back r" by simp
  from sync_account_retries [OF run this] run show ?thesis by (auto simp: filter_empty_conv)
qed

end
