(* ===== verification/Reconcilers.thy ===== *)
theory Reconcilers
  imports AccountController
begin

text \<open>
  What the reconcilers of meter definitions, offers and entitlements have in common: emitting an
  event where a recorder is configured, the error policy, and what is needed to show that their
  runs obey the finalizer protocol.
\<close>

section \<open>Events and the error policy\<close>

definition announce :: "bool \<Rightarrow> 'e \<Rightarrow> ('w, 'e, unit) act" where
  "announce has_recorder e = (if has_recorder then remark e else ret ())"

definition EventReasonSyncSkipped :: string where "EventReasonSyncSkipped = ''SyncSkipped''"
definition EventReasonDeleted :: string where "EventReasonDeleted = ''Deleted''"
definition EventReasonDeleteFailed :: string where "EventReasonDeleteFailed = ''DeleteFailed''"

text \<open>Permanent failures come back after five minutes, all others after thirty seconds; \<open>emit\<close> gets
  the reason and the message of the event.\<close>

definition retry_policy :: "(string \<Rightarrow> string \<Rightarrow> ('w, 'e, unit) act) \<Rightarrow> goerr \<Rightarrow> ('w, 'e, reconciled) act" where
  "retry_policy emit err =
     (if IsPermanent err then do {
        emit EventReasonSyncFailed (syncReasonPermanent @ '': '' @ err_text err);
        ret (requeue_after permanentDisableRequeueAfter)
      }
      else if IsTransient err then do {
        emit EventReasonSyncFailed (syncReasonTransient @ '': '' @ err_text err);
        ret (requeue_after transientRequeueAfter)
      }
      else do {
        emit EventReasonSyncFailed (syncReasonInvalid @ '': '' @ err_text err);
        ret (requeue_after transientRequeueAfter)
      })"

lemma leaves_announce_bind:
  "leaves (f ()) (\<lambda>es. R (e # es)) \<Longrightarrow> leaves (f ()) R \<Longrightarrow> leaves (State_Monad.bind (announce b e) f) R"
  unfolding announce_def by (cases b) (auto intro: leaves_remark_bind leaves_bind leaves_ret)

lemma leaves_announce_ret: "R [e] x \<Longrightarrow> R [] x \<Longrightarrow> leaves (State_Monad.bind (announce b e) (\<lambda>_. ret x)) R"
  by (intro leaves_announce_bind leaves_ret)

lemma leaves_policy:
  assumes "\<And>k m d. d > 0 \<Longrightarrow> R [ev k m] (requeue_after d)" "\<And>d. d > 0 \<Longrightarrow> R [] (requeue_after d)"
  shows "leaves (retry_policy (\<lambda>k m. announce b (ev k m)) err) R"
  unfolding retry_policy_def by (intro leaves_if leaves_announce_ret assms requeue_pos)

lemmas run_leaves = leaves_ret leaves_announce_ret leaves_if leaves_option leaves_sum
  leaves_perform_bind leaves_announce_bind leaves_remark_bind

section \<open>Checking the discipline of a run from its start\<close>

fun guarded_drops :: "bool \<Rightarrow> bool \<Rightarrow> effect list \<Rightarrow> bool" where
  "guarded_drops del seen [] = True"
| "guarded_drops del seen (DropFinalizer ok # es) = (del \<and> seen \<and> guarded_drops del seen es)"
| "guarded_drops del seen (e # es) = guarded_drops del (seen \<or> e = Release \<or> e = Abandon) es"

lemma drops_Cons:
  "(\<forall>pre ok post. e # es = pre @ DropFinalizer ok # post \<longrightarrow> Q pre) \<longleftrightarrow>
     (\<forall>ok. e = DropFinalizer ok \<longrightarrow> Q []) \<and> (\<forall>pre ok post. es = pre @ DropFinalizer ok # post \<longrightarrow> Q (e # pre))"
  by (auto simp: Cons_eq_append_conv)

lemma guarded_drops_split:
  "guarded_drops del seen es \<longleftrightarrow> (\<forall>pre ok post. es = pre @ DropFinalizer ok # post
     \<longrightarrow> del \<and> (seen \<or> Release \<in> set pre \<or> Abandon \<in> set pre))"
proof (induction es arbitrary: seen)
  case (Cons e es)
  show ?case unfolding drops_Cons using Cons.IH by (cases e) auto
qed simp

lemma disciplined_iff [simp]:
  "disciplined del g es \<longleftrightarrow> (Touch \<in> set es \<longrightarrow> g \<and> \<not> del) \<and> guarded_drops del False es"
  by (simp add: disciplined_def guarded_drops_split)

text \<open>The runs of a reconciler on one object: whether it is under deletion and guarded, and the
  effects of the calls it makes.\<close>

definition guarded_runs :: "('o \<Rightarrow> bool) \<Rightarrow> ('o \<Rightarrow> bool) \<Rightarrow> ('e \<Rightarrow> effect list)
    \<Rightarrow> ('o \<Rightarrow> ('w, 'e, reconciled) act \<Rightarrow> bool) \<Rightarrow> bool \<Rightarrow> bool \<Rightarrow> effect list \<Rightarrow> bool" where
  "guarded_runs is_del has_fin eff code del g es \<longleftrightarrow>
     (\<exists>obj m s r s' steps. code obj m \<and> del = is_del obj \<and> g = has_fin obj
        \<and> run_state m s = (r, s') \<and> ts_log s' = ts_log s @ steps \<and> es = concat (map eff steps))"

lemma guarded_runs_disciplined:
  assumes "\<And>obj m. code obj m \<Longrightarrow> leaves m (\<lambda>es _. disciplined (is_del obj) (has_fin obj) (concat (map eff es)))"
    and "guarded_runs is_del has_fin eff code del g es"
  shows "disciplined del g es"
proof -
  from assms(2) obtain obj m s r s' steps where c: "code obj m" and f: "del = is_del obj" "g = has_fin obj"
    "run_state m s = (r, s')" "ts_log s' = ts_log s @ steps" "es = concat (map eff steps)"
    unfolding guarded_runs_def by blast
  from leavesD [OF assms(1) [OF c] f(3)] obtain es' where "ts_log s' = ts_log s @ es'"
    "disciplined (is_del obj) (has_fin obj) (concat (map eff es'))" by blast
  with f show ?thesis by simp
qed

lemma guarded_runsI:
  assumes "code obj m" "run_state m s = (r, s')" "ts_log s' = ts_log s @ steps"
    and "is_del obj = del" "has_fin obj = g" "concat (map eff steps) = es"
  shows "guarded_runs is_del has_fin eff code del g es"
  using assms unfolding guarded_runs_def by blast

end
