(* ===== verification/MeterController.thy ===== *)
theory MeterController
  imports Reconcilers Meter
begin

text \<open>
  internal/controller/meterdefinition_controller.go: the reconciler that keeps one Amberflo meter
  per meter definition.  The Kubernetes client and the Amberflo client interface are parameters;
  logging and the duration metric are left out.
\<close>

section \<open>Environment and steps\<close>

record 'w meter_env =
  mv_GetDefinition :: "string \<Rightarrow> ('w, kerr + MeterDefinition) io"
  mv_Update :: "MeterDefinition \<Rightarrow> ('w, kerr option) io"
  mv_EnsureMeter :: "DesiredMeter \<Rightarrow> ('w, goerr + Meter) io"
  mv_DeleteMeter :: "string \<Rightarrow> string \<Rightarrow> ('w, goerr option) io"
  mv_finalizers :: finalizer_lib
  mv_HasRecorder :: bool
  mv_AggregationText :: "MeterAggregation \<Rightarrow> string"

datatype meter_step =
    GotDefinition "kerr + MeterDefinition"
  | UpdatedDefinition MeterDefinition "kerr option"
  | EnsuredMeter DesiredMeter "goerr + Meter"
  | DeletedMeter string string "goerr option"
  | MeterEvent string string string

definition MeterFinalizer :: string where
  "MeterFinalizer = ''amberflo.miloapis.com/meter''"

definition skipReasonUnsupportedAggregation :: string where
  "skipReasonUnsupportedAggregation = ''UnsupportedAggregation''"

definition skipReasonMissingDimensions :: string where
  "skipReasonMissingDimensions = ''MissingDimensions''"

definition amberfloMeterTypeSumOfAllUsage :: string where
  "amberfloMeterTypeSumOfAllUsage = ''sum_of_all_usage''"

definition amberfloMeterTypeActiveUsers :: string where
  "amberfloMeterTypeActiveUsers = ''active_users''"

abbreviation meter_event :: "'w meter_env \<Rightarrow> string \<Rightarrow> string \<Rightarrow> string \<Rightarrow> ('w, meter_step, unit) act" where
  "meter_event env kind reason msg \<equiv> announce (mv_HasRecorder env) (MeterEvent kind reason msg)"

abbreviation md_Finalizers :: "MeterDefinition \<Rightarrow> string list" where
  "md_Finalizers md \<equiv> om_Finalizers (md_Meta md)"

definition with_finalizers :: "string list \<Rightarrow> ObjectMeta \<Rightarrow> ObjectMeta" where
  "with_finalizers fs m = m\<lparr>om_Finalizers := fs\<rparr>"

section \<open>The desired meter\<close>

definition amberfloMeterType :: "MeterAggregation \<Rightarrow> string option" where
  "amberfloMeterType a = (case a of
      MeterAggregationSum \<Rightarrow> Some amberfloMeterTypeSumOfAllUsage
    | MeterAggregationCount \<Rightarrow> Some amberfloMeterTypeSumOfAllUsage
    | MeterAggregationUniqueCount \<Rightarrow> Some amberfloMeterTypeActiveUsers
    | OtherAggregation t \<Rightarrow> None)"

definition meter_label :: "MeterDefinition \<Rightarrow> string" where
  "meter_label md = (if md_DisplayName md = [] then md_MeterName md else md_DisplayName md)"

definition desiredMeterFromDefinition :: "MeterDefinition \<Rightarrow> string \<Rightarrow> DesiredMeter" where
  "desiredMeterFromDefinition md meterType =
     \<lparr>dm_APIName = MeterAPIName (om_Name (md_Meta md)), dm_Label = meter_label md, dm_MeterType = meterType,
      dm_AggregationDimensions = (if meterType = amberfloMeterTypeActiveUsers then md_Dimensions md else []),
      dm_Unit = md_Unit md, dm_Dimensions = md_Dimensions md\<rparr>"

section \<open>Reconcile\<close>

definition handleAmberfloError_meter :: "'w meter_env \<Rightarrow> goerr \<Rightarrow> ('w, meter_step, reconciled) act" where
  "handleAmberfloError_meter env err = retry_policy (\<lambda>reason msg. meter_event env ''Warning'' reason msg) err"

definition reconcileDelete_meter :: "'w meter_env \<Rightarrow> MeterDefinition \<Rightarrow> string \<Rightarrow> ('w, meter_step, reconciled) act" where
  "reconcileDelete_meter env md apiName =
     (if \<not> fl_Contains (mv_finalizers env) (md_Finalizers md) MeterFinalizer then ret done_ok
      else do {
        let label = meter_label md;
        d \<leftarrow> perform (mv_DeleteMeter env apiName label) (DeletedMeter apiName label);
        case d of
          Some err \<Rightarrow>
            if IsTransient err then do {
              meter_event env ''Warning'' EventReasonDeleteFailed (''transient: '' @ err_text err);
              ret (requeue_after transientRequeueAfter)
            }
            else do {
              meter_event env ''Warning'' EventReasonDeleteFailed (''permanent: '' @ err_text err);
              ret (requeue_after permanentDisableRequeueAfter)
            }
        | None \<Rightarrow> do {
            meter_event env ''Normal'' EventReasonDeleted (''Amberflo meter '' @ apiName @ '' deleted'');
            let md = md\<lparr>md_Meta := with_finalizers
              (fl_Remove (mv_finalizers env) (md_Finalizers md) MeterFinalizer) (md_Meta md)\<rparr>;
            u \<leftarrow> perform (mv_Update env md) (UpdatedDefinition md);
            ret (case u of None \<Rightarrow> done_ok | Some e \<Rightarrow> failed_with (KubeErr ''remove finalizer'' e))
          }
      })"

definition sync_meter :: "'w meter_env \<Rightarrow> MeterDefinition \<Rightarrow> ('w, meter_step, reconciled) act" where
  "sync_meter env md =
     (case amberfloMeterType (md_Aggregation md) of
        None \<Rightarrow> do {
          meter_event env ''Normal'' EventReasonSyncSkipped
            (skipReasonUnsupportedAggregation @ '': aggregation='' @ mv_AggregationText env (md_Aggregation md)
             @ '' is not supported by Amberflo'');
          ret done_ok
        }
      | Some meterType \<Rightarrow>
        if meterType = amberfloMeterTypeActiveUsers \<and> length (md_Dimensions md) = 0 then do {
          meter_event env ''Normal'' EventReasonSyncSkipped
            (skipReasonMissingDimensions @ '': aggregation='' @ mv_AggregationText env (md_Aggregation md)
             @ '' requires spec.measurement.dimensions to have at least one entry'');
          ret done_ok
        }
        else do {
          let desired = desiredMeterFromDefinition md meterType;
          r \<leftarrow> perform (mv_EnsureMeter env desired) (EnsuredMeter desired);
          case r of
            Inl err \<Rightarrow> handleAmberfloError_meter env err
          | Inr meter \<Rightarrow> do {
              meter_event env ''Normal'' EventReasonSynced (''Amberflo meter '' @ me_APIName meter @ '' synced (active)'');
              ret done_ok
            }
        })"

definition reconcile_definition :: "'w meter_env \<Rightarrow> MeterDefinition \<Rightarrow> ('w, meter_step, reconciled) act" where
  "reconcile_definition env md =
     (let apiName = MeterAPIName (om_Name (md_Meta md)) in
      if deleting (md_Meta md) then reconcileDelete_meter env md apiName
      else if \<not> fl_Contains (mv_finalizers env) (md_Finalizers md) MeterFinalizer then do {
        let md = md\<lparr>md_Meta := with_finalizers
          (fl_Add (mv_finalizers env) (md_Finalizers md) MeterFinalizer) (md_Meta md)\<rparr>;
        u \<leftarrow> perform (mv_Update env md) (UpdatedDefinition md);
        ret (case u of None \<Rightarrow> done_ok | Some e \<Rightarrow> failed_with (KubeErr ''add finalizer'' e))
      }
      else sync_meter env md)"

definition Reconcile_meter :: "'w meter_env \<Rightarrow> string \<Rightarrow> ('w, meter_step, reconciled) act" where
  "Reconcile_meter env name = do {
     r \<leftarrow> perform (mv_GetDefinition env name) GotDefinition;
     case r of
       Inl e \<Rightarrow> ret (if e = NotFound then done_ok else failed_with (KubeErr [] e))
     | Inr md \<Rightarrow> reconcile_definition env md
   }"

section \<open>Facts\<close>

text \<open>An update that keeps the finalizer attaches it, one without it drops it.\<close>

fun meter_effects :: "meter_step \<Rightarrow> effect list" where
  "meter_effects (EnsuredMeter d r) = [Touch]"
| "meter_effects (DeletedMeter a l e) = (if e = None then [Release] else [])"
| "meter_effects (UpdatedDefinition md e) =
     (if MeterFinalizer \<in> set (md_Finalizers md) then [AddFinalizer (e = None)] else [DropFinalizer (e = None)])"
| "meter_effects e = []"

lemma handle_meter_leaves:
  assumes "\<And>k r m. R [MeterEvent k r m]" "R []"
  shows "leaves (handleAmberfloError_meter env err) (\<lambda>es _. R es)"
  unfolding handleAmberfloError_meter_def by (rule leaves_policy) (rule assms)+

lemma reconcile_definition_disciplined:
  assumes "finalizer_laws (mv_finalizers env)"
  shows "leaves (reconcile_definition env md) (\<lambda>es _. disciplined (deleting (md_Meta md))
     (MeterFinalizer \<in> set (md_Finalizers md)) (concat (map meter_effects es)))"
  using assms unfolding reconcile_definition_def reconcileDelete_meter_def sync_meter_def Let_def
  by (intro run_leaves handle_meter_leaves) (auto simp: finalizer_laws_def with_finalizers_def)

definition meter_runs :: "bool \<Rightarrow> bool \<Rightarrow> effect list \<Rightarrow> bool" where
  "meter_runs = guarded_runs (\<lambda>md. deleting (md_Meta md)) (\<lambda>md. MeterFinalizer \<in> set (md_Finalizers md)) meter_effects
     (\<lambda>md m. \<exists>env :: nat meter_env. finalizer_laws (mv_finalizers env) \<and> m = reconcile_definition env md)"

interpretation meter_guard: guarded_reconciler meter_runs
  by unfold_locales
    (auto simp only: meter_runs_def elim!: guarded_runs_disciplined [rotated] intro: reconcile_definition_disciplined)

fun meter_failure :: "meter_step \<Rightarrow> bool" where
  "meter_failure (UpdatedDefinition md e) = (e \<noteq> None)"
| "meter_failure (EnsuredMeter d r) = isl r"
| "meter_failure (DeletedMeter a l e) = (e \<noteq> None)"
| "meter_failure e = False"

definition meter_calls :: "MeterDefinition \<Rightarrow> meter_step list \<Rightarrow> reconciled \<Rightarrow> bool" where
  "meter_calls md es r \<longleftrightarrow>
     (\<forall>d x. EnsuredMeter d x \<in> set es \<longrightarrow> \<not> deleting (md_Meta md)
        \<and> (\<exists>t. amberfloMeterType (md_Aggregation md) = Some t \<and> d = desiredMeterFromDefinition md t
             \<and> (t = amberfloMeterTypeActiveUsers \<longrightarrow> md_Dimensions md \<noteq> [])))
   \<and> (\<forall>a l x. DeletedMeter a l x \<in> set es \<longrightarrow> deleting (md_Meta md)
        \<and> a = MeterAPIName (om_Name (md_Meta md)) \<and> l = meter_label md)
   \<and> ((\<exists>e\<in>set es. meter_failure e) \<longrightarrow> comes_back r)"

lemma handle_meter_comes_back:
  assumes "\<And>k r m d. d > 0 \<Longrightarrow> R [MeterEvent k r m] (requeue_after d)" "\<And>d. d > 0 \<Longrightarrow> R [] (requeue_after d)"
  shows "leaves (handleAmberfloError_meter env err) R"
  unfolding handleAmberfloError_meter_def by (rule leaves_policy) (use assms in blast)+

lemma reconcile_definition_calls: "leaves (reconcile_definition env md) (meter_calls md)"
  unfolding reconcile_definition_def reconcileDelete_meter_def sync_meter_def Let_def
  by (intro run_leaves handle_meter_comes_back) (auto simp: meter_calls_def)

lemma meter_types_distinct [simp]: "amberfloMeterTypeSumOfAllUsage \<noteq> amberfloMeterTypeActiveUsers"
  "amberfloMeterTypeActiveUsers \<noteq> amberfloMeterTypeSumOfAllUsage"
  by (simp_all add: amberfloMeterTypeSumOfAllUsage_def amberfloMeterTypeActiveUsers_def)

lemma meter_calls_ensured:
  assumes "meter_calls md es r" "EnsuredMeter d x \<in> set es"
  obtains t where "amberfloMeterType (md_Aggregation md) = Some t" "d = desiredMeterFromDefinition md t"
    "t = amberfloMeterTypeActiveUsers \<longrightarrow> md_Dimensions md \<noteq> []"
  using assms unfolding meter_calls_def by blast

lemma desired_meter_facts:
  assumes "amberfloMeterType (md_Aggregation md) = Some t" "t = amberfloMeterTypeActiveUsers \<longrightarrow> md_Dimensions md \<noteq> []"
  defines "d \<equiv> desiredMeterFromDefinition md t"
  shows "dm_APIName d = MeterAPIName (om_Name (md_Meta md))"
    "dm_MeterType d = amberfloMeterTypeActiveUsers \<longleftrightarrow> md_Aggregation md = MeterAggregationUniqueCount"
    "if dm_MeterType d = amberfloMeterTypeActiveUsers
     then dm_AggregationDimensions d = md_Dimensions md \<and> md_Dimensions md \<noteq> []
     else dm_MeterType d = amberfloMeterTypeSumOfAllUsage \<and> dm_AggregationDimensions d = []"
  using assms(1,2) unfolding d_def
  by (auto simp: desiredMeterFromDefinition_def amberfloMeterType_def split: MeterAggregation.splits)

section \<open>Properties\<close>

text \<open>
  C7.  In every state reachable by reconciles of a meter definition and deletions by the user, in
  any order and whatever the services answer, a definition whose meter was created and not deleted
  since still exists and carries the finalizer.
\<close>

theorem meter_never_leaks:
  assumes "reachable meter_runs s" "go_remote s"
  shows "go_present s \<and> go_guarded s"
  using meter_guard.never_leaks [OF assms(1)] assms(2) by (simp add: nothing_leaks_def)

text \<open>
  C28.  What one reconcile of a meter definition asks of Amberflo: the meter it creates and the meter
  it deletes have the same name, of at most 50 characters; only supported aggregations are sent, a
  unique count always with its dimensions and a sum with none; and every failed call, also a
  permanent one, brings the definition back.
\<close>

theorem reconcile_definition_spec:
  assumes "run_state (reconcile_definition env md) s = (r, s')"
  shows "\<exists>es. ts_log s' = ts_log s @ es
    \<and> (\<forall>d x. EnsuredMeter d x \<in> set es \<longrightarrow>
         dm_APIName d = MeterAPIName (om_Name (md_Meta md)) \<and> length (dm_APIName d) \<le> 50
       \<and> (dm_MeterType d = amberfloMeterTypeActiveUsers \<longleftrightarrow> md_Aggregation md = MeterAggregationUniqueCount)
       \<and> (if dm_MeterType d = amberfloMeterTypeActiveUsers
          then dm_AggregationDimensions d = md_Dimensions md \<and> md_Dimensions md \<noteq> []
          else dm_MeterType d = amberfloMeterTypeSumOfAllUsage \<and> dm_AggregationDimensions d = []))
    \<and> (\<forall>a l x. DeletedMeter a l x \<in> set es \<longrightarrow> deleting (md_Meta md) \<and> a = MeterAPIName (om_Name (md_Meta md))
         \<and> (\<forall>d y. EnsuredMeter d y \<notin> set es))
    \<and> ((\<exists>e\<in>set es. meter_failure e) \<longrightarrow> comes_back r)"
proof -
  from leavesD [OF reconcile_definition_calls assms] obtain es where
    log: "ts_log s' = ts_log s @ es" and c: "meter_calls md es r" by blast
  have len: "length (MeterAPIName n) \<le> 50" for n using MeterAPIName_fits [of n] by (simp add: maxMeterAPINameLen_def)
  have ensured: "dm_APIName d = MeterAPIName (om_Name (md_Meta md)) \<and> length (dm_APIName d) \<le> 50
       \<and> (dm_MeterType d = amberfloMeterTypeActiveUsers \<longleftrightarrow> md_Aggregation md = MeterAggregationUniqueCount)
       \<and> (if dm_MeterType d = amberfloMeterTypeActiveUsers
          then dm_AggregationDimensions d = md_Dimensions md \<and> md_Dimensions md \<noteq> []
          else dm_MeterType d = amberfloMeterTypeSumOfAllUsage \<and> dm_AggregationDimensions d = [])"
    if "EnsuredMeter d x \<in> set es" for d x
    using meter_calls_ensured [OF c that] desired_meter_facts len by metis
  have deleted: "deleting (md_Meta md) \<and> a = MeterAPIName (om_Name (md_Meta md)) \<and> (\<forall>d y. EnsuredMeter d y \<notin> set es)"
    if "DeletedMeter a l x \<in> set es" for a l x
    using c that unfolding meter_calls_def by blast
  have retried: "(\<exists>e\<in>set es. meter_failure e) \<longrightarrow> comes_back r"
    using c unfolding meter_calls_def by blast
  show ?thesis
    by (rule exI [of _ es], intro conjI allI impI log)
      (fact retried [rule_format] | (drule ensured deleted, blast))+
qed

definition sample_meter_env :: "'w meter_env" where
  "sample_meter_env = \<lparr>mv_GetDefinition = (\<lambda>n. ret (Inl NotFound)), mv_Update = (\<lambda>md. ret None),
     mv_EnsureMeter = (\<lambda>d. ret (Inl (permanent []))), mv_DeleteMeter = (\<lambda>a l. ret None),
     mv_finalizers = list_finalizers, mv_HasRecorder = True, mv_AggregationText = (\<lambda>a. [])\<rparr>"

definition sample_definition :: "string list \<Rightarrow> MeterDefinition" where
  "sample_definition fs = \<lparr>md_Meta = with_finalizers fs (named_meta [] ''cpu'' ''u1''), md_MeterName = ''compute/cpu'',
     md_DisplayName = [], md_Phase = PhasePublished, md_Aggregation = MeterAggregationUniqueCount, md_Unit = ''s'',
     md_Dimensions = [''region'']\<rparr>"

lemma meter_runsI:
  fixes env :: "nat meter_env"
  assumes "finalizer_laws (mv_finalizers env)" "run_state (reconcile_definition env md) s = (r, s')" "ts_log s = []"
  shows "meter_runs (deleting (md_Meta md)) (MeterFinalizer \<in> set (md_Finalizers md)) (concat (map meter_effects (ts_log s')))"
  unfolding meter_runs_def by (rule guarded_runsI [OF _ assms(2)]) (use assms in auto)

lemmas sample_meter_defs = sample_meter_env_def sample_definition_def with_finalizers_def named_meta_def
  list_finalizers_def deleting_def

lemma sample_meter_runs: "meter_runs False False [AddFinalizer True]" "meter_runs False True [Touch]"
proof -
  let ?env = "sample_meter_env :: nat meter_env" and ?s = "\<lparr>ts_world = 0, ts_log = []\<rparr> :: (nat, meter_step) traced_state"
  have laws: "finalizer_laws (mv_finalizers ?env)" by (simp add: sample_meter_env_def list_finalizers_laws)
  have "run_state (reconcile_definition ?env (sample_definition [])) ?s
      = (done_ok, ?s\<lparr>ts_log := [UpdatedDefinition (sample_definition [MeterFinalizer]) None]\<rparr>)"
    by (simp add: reconcile_definition_def run_simps sample_meter_defs)
  from meter_runsI [OF laws this] show "meter_runs False False [AddFinalizer True]"
    by (simp add: sample_meter_defs)
  have "run_state (reconcile_definition ?env (sample_definition [MeterFinalizer])) ?s
      = (requeue_after permanentDisableRequeueAfter, ?s\<lparr>ts_log :=
         [EnsuredMeter (desiredMeterFromDefinition (sample_definition [MeterFinalizer]) amberfloMeterTypeActiveUsers) (Inl (permanent [])),
          MeterEvent ''Warning'' EventReasonSyncFailed (syncReasonPermanent @ '': '' @ err_text (permanent []))]\<rparr>)"
    by (simp add: reconcile_definition_def sync_meter_def amberfloMeterType_def run_simps sample_meter_defs
        handleAmberfloError_meter_def retry_policy_def announce_def)
  from meter_runsI [OF laws this] show "meter_runs False True [Touch]"
    by (simp add: sample_meter_defs)
qed

theorem meter_never_leaks_witness: "go_present touched_object \<and> go_guarded touched_object"
  by (rule meter_never_leaks [OF touched_object_reachable [of meter_runs, OF sample_meter_runs]]) (simp add: touched_object_def)

theorem reconcile_definition_spec_witness:
  "comes_back (fst (run_state (reconcile_definition sample_meter_env (sample_definition [MeterFinalizer]))
     \<lparr>ts_world = (), ts_log = []\<rparr>))"
proof -
  let ?s = "\<lparr>ts_world = (), ts_log = []\<rparr> :: (unit, meter_step) traced_state"
  let ?run = "run_state (reconcile_definition sample_meter_env (sample_definition [MeterFinalizer])) ?s"
  have "\<exists>d e. EnsuredMeter d (Inl e) \<in> set (ts_log (snd ?run))"
    by (simp add: reconcile_definition_def sync_meter_def amberfloMeterType_def run_simps sample_meter_defs
        handleAmberfloError_meter_def retry_policy_def announce_def)
  then have "\<exists>e\<in>set (ts_log (snd ?run)). meter_failure e" by force
  with reconcile_definition_spec [OF surjective_pairing, of sample_meter_env "sample_definition [MeterFinalizer]" ?s]
  show ?thesis by auto
qed

end
