(* ===== verification/OfferController.thy ===== *)
theory OfferController
  imports MeterController PlanOps
begin

text \<open>
  internal/controller/offer_controller.go: the reconciler that keeps one Amberflo product plan per
  published offer, and the translation of an offer's pricing into the plan.  The Kubernetes client
  and the Amberflo client interface are parameters; logging and metrics are left out.
\<close>

section \<open>Offers\<close>

datatype LaunchStage = OfferLaunchStageGA | OtherLaunchStage string
datatype ChargeType = ChargeTypeUsage | ChargeTypeOneTime | ChargeTypeRecurring | OtherChargeType string

record RateMatch =
  rm_Dimension :: string
  rm_Value :: string

record TierBand =
  tb_UpTo :: string
  tb_Rate :: string

record PricingRate =
  pr_Match :: "RateMatch option"
  pr_Flat :: string
  pr_Tiered :: "TierBand list"

record ServicePricingSnapshot =
  sv_Name :: string
  sv_DisplayName :: string
  sv_ChargeType :: ChargeType
  sv_Metric :: string
  sv_Rates :: "PricingRate list"
  sv_Amount :: string

record Offer =
  of_Meta :: ObjectMeta
  of_LaunchStage :: LaunchStage
  of_ServicePricings :: "ServicePricingSnapshot list"

section \<open>Environment and steps\<close>

record 'w offer_env =
  ov_GetOffer :: "string \<Rightarrow> ('w, kerr + Offer) io"
  ov_Update :: "Offer \<Rightarrow> ('w, kerr option) io"
  ov_ListDefinitions :: "('w, kerr + MeterDefinition list) io"
  ov_EnsureProductPlan :: "DesiredProductPlan \<Rightarrow> ('w, goerr + ProductPlan) io"
  ov_DeleteProductPlan :: "string \<Rightarrow> ('w, goerr option) io"
  ov_finalizers :: finalizer_lib
  ov_HasRecorder :: bool
  ov_DisplayNameAnnotation :: string
  ov_KubeErrorText :: "kerr \<Rightarrow> string"
  ov_ChargeTypeText :: "ChargeType \<Rightarrow> string"
  ov_IntOutOfRange :: "float64 \<Rightarrow> int"

datatype offer_step =
    GotOffer "kerr + Offer"
  | UpdatedOffer Offer "kerr option"
  | ListedDefinitions "kerr + MeterDefinition list"
  | EnsuredPlan DesiredProductPlan "goerr + ProductPlan"
  | DeletedPlan string "goerr option"
  | OfferEvent string string string

definition ProductPlanFinalizer :: string where
  "ProductPlanFinalizer = ''amberflo.miloapis.com/product-plan''"

abbreviation offer_event :: "'w offer_env \<Rightarrow> string \<Rightarrow> string \<Rightarrow> string \<Rightarrow> ('w, offer_step, unit) act" where
  "offer_event env kind reason msg \<equiv> announce (ov_HasRecorder env) (OfferEvent kind reason msg)"

abbreviation of_Finalizers :: "Offer \<Rightarrow> string list" where
  "of_Finalizers ofr \<equiv> om_Finalizers (of_Meta ofr)"

section \<open>Prices\<close>

text \<open>The errors of strconv on decimal numerals.\<close>

definition float_error :: "string \<Rightarrow> string" where
  "float_error s = ''strconv.ParseFloat: parsing '' @ print_str s @ '': ''
     @ (if parse_decimal s = None then ''invalid syntax'' else ''value out of range'')"

definition ParseDecimalFloat :: "string \<Rightarrow> string + float64" where
  "ParseDecimalFloat s =
     (if s = [] then Inl ''empty decimal''
      else case ParseFloat s of None \<Rightarrow> Inl (float_error s) | Some f \<Rightarrow> Inr f)"

text \<open>\<open>int64(f)\<close> truncates; what it gives out of range is up to the platform.\<close>

definition parseUpToInt :: "(float64 \<Rightarrow> int) \<Rightarrow> string \<Rightarrow> string + int" where
  "parseUpToInt oob s =
     (case ParseFloat s of
        None \<Rightarrow> Inl (float_error s)
      | Some f \<Rightarrow> Inr (if in_int64 (f64_trunc f) then f64_trunc f else oob f))"

text \<open>The bands of one tiered rate; \<open>i\<close> and \<open>j\<close> are the indices the error texts name.\<close>

fun tiers_of_bands :: "(float64 \<Rightarrow> int) \<Rightarrow> nat \<Rightarrow> nat \<Rightarrow> int \<Rightarrow> TierBand list \<Rightarrow> string + DesiredPriceTier list" where
  "tiers_of_bands oob i j startAfter [] = Inr []"
| "tiers_of_bands oob i j startAfter (band # bands) =
     (let here = ''rates['' @ itoa (int i) @ ''].tiered['' @ itoa (int j) @ '']'' in
      case ParseDecimalFloat (tb_Rate band) of
        Inl e \<Rightarrow> Inl (here @ ''.rate: '' @ e)
      | Inr price \<Rightarrow>
        (case (if tb_UpTo band = [] then Inr startAfter else parseUpToInt oob (tb_UpTo band)) of
           Inl e \<Rightarrow> Inl (here @ ''.upTo: '' @ e)
         | Inr next \<Rightarrow>
           (case tiers_of_bands oob i (j + 1) next bands of
              Inl e \<Rightarrow> Inl e
            | Inr ts \<Rightarrow> Inr (\<lparr>dt_StartAfterUnit = startAfter, dt_BatchSize = 1, dt_PricePerBatch = price,
                              dt_AllowPartialBatch = True\<rparr> # ts))))"

definition desired_rate :: "(float64 \<Rightarrow> int) \<Rightarrow> nat \<Rightarrow> PricingRate \<Rightarrow> string + DesiredPlanRate" where
  "desired_rate oob i rate =
     (let m = map_option (\<lambda>x. \<lparr>df_Dimension = rm_Dimension x, df_Value = rm_Value x\<rparr>) (pr_Match rate) in
      if pr_Flat rate \<noteq> [] then
        (case ParseDecimalFloat (pr_Flat rate) of
           Inl e \<Rightarrow> Inl (''rates['' @ itoa (int i) @ ''].flat: '' @ e)
         | Inr v \<Rightarrow> Inr \<lparr>rt_Match = m, rt_Flat = Some v, rt_Tiers = []\<rparr>)
      else if length (pr_Tiered rate) > 0 then
        (case tiers_of_bands oob i 0 0 (pr_Tiered rate) of
           Inl e \<Rightarrow> Inl e
         | Inr ts \<Rightarrow> Inr \<lparr>rt_Match = m, rt_Flat = None, rt_Tiers = ts\<rparr>)
      else Inl (''rates['' @ itoa (int i) @ '']: exactly one of flat or tiered must be set''))"

fun desired_rates_from :: "(float64 \<Rightarrow> int) \<Rightarrow> nat \<Rightarrow> PricingRate list \<Rightarrow> string + DesiredPlanRate list" where
  "desired_rates_from oob i [] = Inr []"
| "desired_rates_from oob i (rate # rates) =
     (case desired_rate oob i rate of
        Inl e \<Rightarrow> Inl e
      | Inr dr \<Rightarrow>
        (case desired_rates_from oob (i + 1) rates of Inl e \<Rightarrow> Inl e | Inr drs \<Rightarrow> Inr (dr # drs)))"

definition desiredRatesFromPricing :: "(float64 \<Rightarrow> int) \<Rightarrow> PricingRate list \<Rightarrow> string + DesiredPlanRate list" where
  "desiredRatesFromPricing oob rates = desired_rates_from oob 0 rates"

section \<open>The desired plan\<close>

definition meter_index :: "MeterDefinition list \<Rightarrow> (string \<rightharpoonup> string)" where
  "meter_index items = fold (\<lambda>md m. if md_MeterName md = [] then m
     else m(md_MeterName md \<mapsto> MeterAPIName (om_Name (md_Meta md)))) items Map.empty"

definition meterAPINameIndex :: "'w offer_env \<Rightarrow> ('w, offer_step, string + (string \<rightharpoonup> string)) act" where
  "meterAPINameIndex env = do {
     r \<leftarrow> perform (ov_ListDefinitions env) ListedDefinitions;
     ret (case r of
       Inl e \<Rightarrow> Inl (''list MeterDefinitions: '' @ ov_KubeErrorText env e)
     | Inr items \<Rightarrow> Inr (meter_index items))
   }"

text \<open>A one-time or a recurring fee.\<close>

definition fee_item :: "DesiredPlanItem \<Rightarrow> ServicePricingSnapshot \<Rightarrow> string + DesiredPlanItem" where
  "fee_item item snap =
     (case ParseDecimalFloat (sv_Amount snap) of
        Inl e \<Rightarrow> Inl (''ServicePricing '' @ print_str (sv_Name snap) @ '' amount: '' @ e)
      | Inr amount \<Rightarrow> Inr (item\<lparr>it_Amount := amount\<rparr>))"

definition planItemFromSnapshot :: "'w offer_env \<Rightarrow> ServicePricingSnapshot \<Rightarrow> (string \<rightharpoonup> string)
    \<Rightarrow> string + DesiredPlanItem" where
  "planItemFromSnapshot env snap meterByName =
     (let item = \<lparr>it_ID = sv_Name snap,
            it_Label = (if sv_DisplayName snap = [] then sv_Name snap else sv_DisplayName snap),
            it_ChargeType = OtherCharge [], it_MeterAPIName = [], it_Rates = [], it_Amount = fzero\<rparr> in
      case sv_ChargeType snap of
        ChargeTypeUsage \<Rightarrow>
          (let meterAPIName = (case meterByName (sv_Metric snap) of None \<Rightarrow> [] | Some a \<Rightarrow> a) in
           if meterAPIName = []
           then Inl (''no MeterDefinition for metric '' @ print_str (sv_Metric snap)
                     @ '' (ServicePricing '' @ print_str (sv_Name snap) @ '')'')
           else case desiredRatesFromPricing (ov_IntOutOfRange env) (sv_Rates snap) of
                  Inl e \<Rightarrow> Inl (''ServicePricing '' @ print_str (sv_Name snap) @ '': '' @ e)
                | Inr rates \<Rightarrow> Inr (item\<lparr>it_ChargeType := Usage, it_MeterAPIName := meterAPIName, it_Rates := rates\<rparr>))
      | ChargeTypeOneTime \<Rightarrow> fee_item (item\<lparr>it_ChargeType := OneTime\<rparr>) snap
      | ChargeTypeRecurring \<Rightarrow> fee_item (item\<lparr>it_ChargeType := Recurring\<rparr>) snap
      | OtherChargeType t \<Rightarrow> Inl (''ServicePricing '' @ print_str (sv_Name snap)
          @ '': unsupported chargeType '' @ print_str (ov_ChargeTypeText env (sv_ChargeType snap))))"

fun plan_items :: "'w offer_env \<Rightarrow> (string \<rightharpoonup> string) \<Rightarrow> ServicePricingSnapshot list
    \<Rightarrow> string + DesiredPlanItem list" where
  "plan_items env meterByName [] = Inr []"
| "plan_items env meterByName (snap # snaps) =
     (case planItemFromSnapshot env snap meterByName of
        Inl e \<Rightarrow> Inl e
      | Inr item \<Rightarrow>
        (case plan_items env meterByName snaps of Inl e \<Rightarrow> Inl e | Inr items \<Rightarrow> Inr (item # items)))"

definition desiredProductPlan :: "'w offer_env \<Rightarrow> Offer \<Rightarrow> ('w, offer_step, string + DesiredProductPlan) act" where
  "desiredProductPlan env ofr = do {
     let name = mget (om_Annotations (of_Meta ofr)) (ov_DisplayNameAnnotation env);
     let name = (if name = [] then om_Name (of_Meta ofr) else name);
     r \<leftarrow> meterAPINameIndex env;
     ret (case r of
       Inl e \<Rightarrow> Inl e
     | Inr meterByName \<Rightarrow>
       (case plan_items env meterByName (of_ServicePricings ofr) of
          Inl e \<Rightarrow> Inl e
        | Inr items \<Rightarrow> Inr \<lparr>pp_ID = om_UID (of_Meta ofr), pp_Name = name, pp_Description = om_Name (of_Meta ofr),
            pp_ProductID = [], pp_Currency = [], pp_Items = items\<rparr>))
   }"

section \<open>Reconcile\<close>

definition handleAmberfloError_offer :: "'w offer_env \<Rightarrow> goerr \<Rightarrow> ('w, offer_step, reconciled) act" where
  "handleAmberfloError_offer env err = retry_policy (\<lambda>reason msg. offer_event env ''Warning'' reason msg) err"

definition drop_plan_finalizer :: "'w offer_env \<Rightarrow> Offer \<Rightarrow> ('w, offer_step, reconciled) act" where
  "drop_plan_finalizer env ofr = do {
     let ofr = ofr\<lparr>of_Meta := with_finalizers
       (fl_Remove (ov_finalizers env) (of_Finalizers ofr) ProductPlanFinalizer) (of_Meta ofr)\<rparr>;
     u \<leftarrow> perform (ov_Update env ofr) (UpdatedOffer ofr);
     ret (case u of None \<Rightarrow> done_ok | Some e \<Rightarrow> failed_with (KubeErr ''remove finalizer'' e))
   }"

definition reconcileDelete_offer :: "'w offer_env \<Rightarrow> Offer \<Rightarrow> string \<Rightarrow> ('w, offer_step, reconciled) act" where
  "reconcileDelete_offer env ofr planID =
     (if \<not> fl_Contains (ov_finalizers env) (of_Finalizers ofr) ProductPlanFinalizer then ret done_ok
      else do {
        d \<leftarrow> perform (ov_DeleteProductPlan env planID) (DeletedPlan planID);
        case d of
          Some err \<Rightarrow>
            if IsTransient err then do {
              offer_event env ''Warning'' EventReasonDeleteFailed (''transient: '' @ err_text err);
              ret (requeue_after transientRequeueAfter)
            }
            else if IsPermanent err then do {
              offer_event env ''Warning'' EventReasonDeleteFailed
                (''permanent: '' @ err_text err @ ''; leaving Amberflo plan in place'');
              drop_plan_finalizer env ofr
            }
            else do {
              offer_event env ''Warning'' EventReasonDeleteFailed (''unclassified: '' @ err_text err);
              ret (requeue_after transientRequeueAfter)
            }
        | None \<Rightarrow> do {
            offer_event env ''Normal'' EventReasonDeleted (''Amberflo product plan '' @ planID @ '' deleted'');
            drop_plan_finalizer env ofr
          }
      })"

definition sync_offer :: "'w offer_env \<Rightarrow> Offer \<Rightarrow> ('w, offer_step, reconciled) act" where
  "sync_offer env ofr =
     (if of_LaunchStage ofr \<noteq> OfferLaunchStageGA then ret done_ok
      else if length (of_ServicePricings ofr) = 0 then do {
        offer_event env ''Normal'' EventReasonSyncSkipped ''GA Offer has no servicePricings snapshot yet'';
        ret (requeue_after transientRequeueAfter)
      }
      else do {
        d \<leftarrow> desiredProductPlan env ofr;
        case d of
          Inl e \<Rightarrow> do {
            offer_event env ''Warning'' EventReasonSyncFailed e;
            ret (requeue_after transientRequeueAfter)
          }
        | Inr desired \<Rightarrow> do {
            r \<leftarrow> perform (ov_EnsureProductPlan env desired) (EnsuredPlan desired);
            case r of
              Inl err \<Rightarrow> handleAmberfloError_offer env err
            | Inr plan \<Rightarrow> do {
                offer_event env ''Normal'' EventReasonSynced (''Amberflo product plan '' @ pl_ID plan @ '' synced'');
                ret done_ok
              }
          }
      })"

definition reconcile_offer :: "'w offer_env \<Rightarrow> Offer \<Rightarrow> ('w, offer_step, reconciled) act" where
  "reconcile_offer env ofr =
     (let planID = om_UID (of_Meta ofr) in
      if deleting (of_Meta ofr) then reconcileDelete_offer env ofr planID
      else if \<not> fl_Contains (ov_finalizers env) (of_Finalizers ofr) ProductPlanFinalizer then do {
        let ofr = ofr\<lparr>of_Meta := with_finalizers
          (fl_Add (ov_finalizers env) (of_Finalizers ofr) ProductPlanFinalizer) (of_Meta ofr)\<rparr>;
        u \<leftarrow> perform (ov_Update env ofr) (UpdatedOffer ofr);
        ret (case u of None \<Rightarrow> done_ok | Some e \<Rightarrow> failed_with (KubeErr ''add finalizer'' e))
      }
      else sync_offer env ofr)"

definition Reconcile_offer :: "'w offer_env \<Rightarrow> string \<Rightarrow> ('w, offer_step, reconciled) act" where
  "Reconcile_offer env name = do {
     r \<leftarrow> perform (ov_GetOffer env name) GotOffer;
     case r of
       Inl e \<Rightarrow> ret (if e = NotFound then done_ok else failed_with (KubeErr [] e))
     | Inr ofr \<Rightarrow> reconcile_offer env ofr
   }"

section \<open>Facts about prices\<close>

definition next_start :: "(float64 \<Rightarrow> int) \<Rightarrow> TierBand \<Rightarrow> int \<Rightarrow> int \<Rightarrow> bool" where
  "next_start oob band start next \<longleftrightarrow>
     (if tb_UpTo band = [] then next = start else parseUpToInt oob (tb_UpTo band) = Inr next)"

lemma tiers_of_bands_spec:
  "tiers_of_bands oob i j start bands = Inr ts \<Longrightarrow>
     length ts = length bands
   \<and> (\<forall>k<length bands. ParseDecimalFloat (tb_Rate (bands ! k)) = Inr (dt_PricePerBatch (ts ! k))
        \<and> dt_BatchSize (ts ! k) = 1 \<and> dt_AllowPartialBatch (ts ! k))
   \<and> (\<forall>k. Suc k < length bands \<longrightarrow>
        next_start oob (bands ! k) (dt_StartAfterUnit (ts ! k)) (dt_StartAfterUnit (ts ! Suc k)))
   \<and> (bands \<noteq> [] \<longrightarrow> dt_StartAfterUnit (ts ! 0) = start)"
proof (induction bands arbitrary: j start ts)
  case (Cons band bands)
  from Cons.prems obtain price nxt us where
    pr: "ParseDecimalFloat (tb_Rate band) = Inr price"
    and nx: "(if tb_UpTo band = [] then Inr start else parseUpToInt oob (tb_UpTo band)) = Inr nxt"
    and us: "tiers_of_bands oob i (j + 1) nxt bands = Inr us"
    and ts: "ts = \<lparr>dt_StartAfterUnit = start, dt_BatchSize = 1, dt_PricePerBatch = price, dt_AllowPartialBatch = True\<rparr> # us"
    by (simp add: Let_def split: sum.splits)
  note IH = Cons.IH [OF us]
  have step: "next_start oob band start nxt"
    using nx by (auto simp: next_start_def split: if_splits)
  show ?case
  proof (intro conjI allI impI)
    show "length ts = length (band # bands)" using IH by (simp add: ts)
    show "ParseDecimalFloat (tb_Rate ((band # bands) ! k)) = Inr (dt_PricePerBatch (ts ! k))"
      "dt_BatchSize (ts ! k) = 1" "dt_AllowPartialBatch (ts ! k)" if "k < length (band # bands)" for k
      using IH that pr by (cases k; simp add: ts)+
    show "next_start oob ((band # bands) ! k) (dt_StartAfterUnit (ts ! k)) (dt_StartAfterUnit (ts ! Suc k))"
      if "Suc k < length (band # bands)" for k
    proof (cases k)
      case 0
      with that have "bands \<noteq> []" by auto
      with IH step 0 show ?thesis by (simp add: ts)
    next
      case (Suc n)
      with that have "Suc n < length bands" by simp
      with IH Suc show ?thesis by (simp add: ts)
    qed
  qed (simp add: ts)
qed simp

definition rate_spec :: "(float64 \<Rightarrow> int) \<Rightarrow> PricingRate \<Rightarrow> DesiredPlanRate \<Rightarrow> bool" where
  "rate_spec oob rate dr \<longleftrightarrow>
     map_option df_Dimension (rt_Match dr) = map_option rm_Dimension (pr_Match rate)
   \<and> map_option df_Value (rt_Match dr) = map_option rm_Value (pr_Match rate)
   \<and> (if pr_Flat rate \<noteq> [] then rt_Tiers dr = [] \<and> ParseDecimalFloat (pr_Flat rate) = Inr (the (rt_Flat dr)) \<and> rt_Flat dr \<noteq> None
      else rt_Flat dr = None \<and> pr_Tiered rate \<noteq> []
         \<and> length (rt_Tiers dr) = length (pr_Tiered rate) \<and> dt_StartAfterUnit (rt_Tiers dr ! 0) = 0
         \<and> (\<forall>k<length (pr_Tiered rate). ParseDecimalFloat (tb_Rate (pr_Tiered rate ! k)) = Inr (dt_PricePerBatch (rt_Tiers dr ! k)))
         \<and> (\<forall>k. Suc k < length (pr_Tiered rate) \<longrightarrow> next_start oob (pr_Tiered rate ! k)
              (dt_StartAfterUnit (rt_Tiers dr ! k)) (dt_StartAfterUnit (rt_Tiers dr ! Suc k))))"

lemma rate_facts:
  assumes "rate_spec oob rate dr"
  shows "map_option df_Value (rt_Match dr) = map_option rm_Value (pr_Match rate)"
    "pr_Flat rate \<noteq> [] \<longrightarrow> rt_Tiers dr = [] \<and> map_option Inr (rt_Flat dr) = Some (ParseDecimalFloat (pr_Flat rate))"
    "pr_Flat rate = [] \<longrightarrow> rt_Flat dr = None \<and> length (rt_Tiers dr) = length (pr_Tiered rate)
       \<and> dt_StartAfterUnit (rt_Tiers dr ! 0) = 0
       \<and> (\<forall>k<length (pr_Tiered rate). ParseDecimalFloat (tb_Rate (pr_Tiered rate ! k)) = Inr (dt_PricePerBatch (rt_Tiers dr ! k)))
       \<and> (\<forall>k. Suc k < length (pr_Tiered rate) \<longrightarrow>
            (if tb_UpTo (pr_Tiered rate ! k) = []
             then dt_StartAfterUnit (rt_Tiers dr ! Suc k) = dt_StartAfterUnit (rt_Tiers dr ! k)
             else parseUpToInt oob (tb_UpTo (pr_Tiered rate ! k)) = Inr (dt_StartAfterUnit (rt_Tiers dr ! Suc k))))"
  using assms by (auto simp: rate_spec_def next_start_def split: if_splits)

lemma desired_rate_spec: "desired_rate oob i rate = Inr dr \<Longrightarrow> rate_spec oob rate dr"
proof (cases "pr_Flat rate = [] \<and> pr_Tiered rate \<noteq> []")
  case True
  moreover assume "desired_rate oob i rate = Inr dr"
  ultimately obtain ts where ts: "tiers_of_bands oob i 0 0 (pr_Tiered rate) = Inr ts" and dr: "rt_Flat dr = None" "rt_Tiers dr = ts"
    "rt_Match dr = map_option (\<lambda>x. \<lparr>df_Dimension = rm_Dimension x, df_Value = rm_Value x\<rparr>) (pr_Match rate)"
    by (auto simp: desired_rate_def Let_def split: sum.splits)
  from tiers_of_bands_spec [OF ts] True dr show ?thesis
    by (simp add: rate_spec_def option.map_comp comp_def)
next
  case False
  moreover assume "desired_rate oob i rate = Inr dr"
  ultimately show ?thesis
    by (auto simp: desired_rate_def rate_spec_def Let_def option.map_comp comp_def split: sum.splits if_splits)
qed

lemma desired_rates_from_spec:
  "desired_rates_from oob i rates = Inr drs \<Longrightarrow> list_all2 (rate_spec oob) rates drs"
  by (induction rates arbitrary: i drs) (auto split: sum.splits intro: desired_rate_spec)

lemma plan_items_spec:
  "plan_items env m snaps = Inr items \<Longrightarrow> list_all2 (\<lambda>snap item. planItemFromSnapshot env snap m = Inr item) snaps items"
  by (induction snaps arbitrary: items) (auto split: sum.splits)

lemma planItem_facts:
  assumes "planItemFromSnapshot env snap m = Inr item"
  shows "it_ID item = sv_Name snap" "sv_ChargeType snap = ChargeTypeUsage \<Longrightarrow> m (sv_Metric snap) = Some (it_MeterAPIName item)"
  using assms by (auto simp: planItemFromSnapshot_def fee_item_def Let_def
      split: ChargeType.splits sum.splits option.splits if_splits)

lemma meter_index_from:
  assumes "meter_index items n = Some a"
  shows "\<exists>md\<in>set items. md_MeterName md = n \<and> a = MeterAPIName (om_Name (md_Meta md))"
proof -
  have "fold (\<lambda>md m. if md_MeterName md = [] then m
     else m(md_MeterName md \<mapsto> MeterAPIName (om_Name (md_Meta md)))) items m0 n = Some a
     \<Longrightarrow> m0 n = Some a \<or> (\<exists>md\<in>set items. md_MeterName md = n \<and> a = MeterAPIName (om_Name (md_Meta md)))" for m0
    by (induction items arbitrary: m0) (fastforce split: if_splits)+
  from this [of Map.empty] assms show ?thesis by (simp add: meter_index_def)
qed

section \<open>Facts about the reconciler\<close>

fun offer_effects :: "offer_step \<Rightarrow> effect list" where
  "offer_effects (EnsuredPlan d r) = [Touch]"
| "offer_effects (DeletedPlan p e) =
     (case e of None \<Rightarrow> [Release] | Some err \<Rightarrow> if IsPermanent err \<and> \<not> IsTransient err then [Abandon] else [])"
| "offer_effects (UpdatedOffer ofr e) =
     (if ProductPlanFinalizer \<in> set (of_Finalizers ofr) then [AddFinalizer (e = None)] else [DropFinalizer (e = None)])"
| "offer_effects e = []"

lemma handle_offer_leaves:
  assumes "\<And>k r m d. d > 0 \<Longrightarrow> R [OfferEvent k r m] (requeue_after d)" "\<And>d. d > 0 \<Longrightarrow> R [] (requeue_after d)"
  shows "leaves (handleAmberfloError_offer env err) R"
  unfolding handleAmberfloError_offer_def by (rule leaves_policy) (use assms in blast)+

lemma desiredProductPlan_leaves:
  "leaves (desiredProductPlan env ofr) (\<lambda>es r. \<exists>l. es = [ListedDefinitions l] \<and> (case r of Inl e \<Rightarrow> True
     | Inr d \<Rightarrow> pp_ID d = om_UID (of_Meta ofr) \<and> (\<exists>items. l = Inr items
         \<and> plan_items env (meter_index items) (of_ServicePricings ofr) = Inr (pp_Items d))))"
  unfolding desiredProductPlan_def meterAPINameIndex_def Let_def
  by (rule leaves_bind, intro leaves_perform_bind leaves_ret) (auto split: sum.splits)

lemma desired_bind_leaves:
  assumes "\<And>l e. leaves (f (Inl e)) (\<lambda>es. R (ListedDefinitions l # es))"
    and "\<And>items d. pp_ID d = om_UID (of_Meta ofr) \<Longrightarrow>
       plan_items env (meter_index items) (of_ServicePricings ofr) = Inr (pp_Items d)
       \<Longrightarrow> leaves (f (Inr d)) (\<lambda>es. R (ListedDefinitions (Inr items) # es))"
  shows "leaves (State_Monad.bind (desiredProductPlan env ofr) f) R"
proof (rule leaves_bind, rule leaves_weaken [OF desiredProductPlan_leaves])
  fix es and r :: "string + DesiredProductPlan" assume "\<exists>l. es = [ListedDefinitions l] \<and> (case r of Inl e \<Rightarrow> True
     | Inr d \<Rightarrow> pp_ID d = om_UID (of_Meta ofr) \<and> (\<exists>items. l = Inr items
         \<and> plan_items env (meter_index items) (of_ServicePricings ofr) = Inr (pp_Items d)))"
  then show "leaves (f r) (\<lambda>es'. R (es @ es'))" using assms by (cases r) auto
qed

lemmas offer_defs = reconcile_offer_def reconcileDelete_offer_def drop_plan_finalizer_def sync_offer_def Let_def
lemmas offer_leaves = run_leaves desired_bind_leaves handle_offer_leaves

lemma reconcile_offer_disciplined:
  assumes "finalizer_laws (ov_finalizers env)"
  shows "leaves (reconcile_offer env ofr) (\<lambda>es _. disciplined (deleting (of_Meta ofr))
     (ProductPlanFinalizer \<in> set (of_Finalizers ofr)) (concat (map offer_effects es)))"
  using assms unfolding offer_defs
  by (intro offer_leaves) (auto simp: finalizer_laws_def with_finalizers_def)

definition offer_runs :: "bool \<Rightarrow> bool \<Rightarrow> effect list \<Rightarrow> bool" where
  "offer_runs = guarded_runs (\<lambda>ofr. deleting (of_Meta ofr)) (\<lambda>ofr. ProductPlanFinalizer \<in> set (of_Finalizers ofr)) offer_effects
     (\<lambda>ofr m. \<exists>env :: nat offer_env. finalizer_laws (ov_finalizers env) \<and> m = reconcile_offer env ofr)"

interpretation offer_guard: guarded_reconciler offer_runs
  by unfold_locales
    (auto simp only: offer_runs_def elim!: guarded_runs_disciplined [rotated] intro: reconcile_offer_disciplined)

text \<open>A failed call of a reconcile; a plan Amberflo refuses to delete for good is given up instead.\<close>

fun offer_failure :: "offer_step \<Rightarrow> bool" where
  "offer_failure (UpdatedOffer ofr e) = (e \<noteq> None)"
| "offer_failure (ListedDefinitions r) = isl r"
| "offer_failure (EnsuredPlan d r) = isl r"
| "offer_failure (DeletedPlan p e) = (case e of None \<Rightarrow> False | Some err \<Rightarrow> \<not> IsPermanent err)"
| "offer_failure e = False"

definition offer_calls :: "'w offer_env \<Rightarrow> Offer \<Rightarrow> offer_step list \<Rightarrow> reconciled \<Rightarrow> bool" where
  "offer_calls env ofr es r \<longleftrightarrow>
     (\<forall>d x. EnsuredPlan d x \<in> set es \<longrightarrow> \<not> deleting (of_Meta ofr) \<and> of_LaunchStage ofr = OfferLaunchStageGA
        \<and> pp_ID d = om_UID (of_Meta ofr)
        \<and> (\<exists>items. ListedDefinitions (Inr items) \<in> set es
             \<and> plan_items env (meter_index items) (of_ServicePricings ofr) = Inr (pp_Items d)))
   \<and> (\<forall>p x. DeletedPlan p x \<in> set es \<longrightarrow> deleting (of_Meta ofr) \<and> p = om_UID (of_Meta ofr))
   \<and> ((\<exists>e\<in>set es. offer_failure e) \<longrightarrow> comes_back r)"

lemma reconcile_offer_calls: "leaves (reconcile_offer env ofr) (offer_calls env ofr)"
  unfolding offer_defs by (intro offer_leaves) (auto simp: offer_calls_def)

lemma plan_items_meters:
  assumes "plan_items env (meter_index items) snaps = Inr its"
  shows "map it_ID its = map sv_Name snaps" "\<forall>k<length its. sv_ChargeType (snaps ! k) = ChargeTypeUsage \<longrightarrow>
       (\<exists>md\<in>set items. md_MeterName md = sv_Metric (snaps ! k)
          \<and> it_MeterAPIName (its ! k) = MeterAPIName (om_Name (md_Meta md)))"
proof -
  from plan_items_spec [OF assms] have len: "length snaps = length its"
    and each: "\<And>k. k < length its \<Longrightarrow> planItemFromSnapshot env (snaps ! k) (meter_index items) = Inr (its ! k)"
    by (auto simp: list_all2_conv_all_nth)
  show "map it_ID its = map sv_Name snaps"
    by (rule nth_equalityI) (use len planItem_facts(1) [OF each] in auto)
  show "\<forall>k<length its. sv_ChargeType (snaps ! k) = ChargeTypeUsage \<longrightarrow>
       (\<exists>md\<in>set items. md_MeterName md = sv_Metric (snaps ! k)
          \<and> it_MeterAPIName (its ! k) = MeterAPIName (om_Name (md_Meta md)))"
    using meter_index_from planItem_facts(2) [OF each] by blast
qed

section \<open>Properties\<close>

text \<open>
  C8.  In every state reachable by reconciles of an offer and deletions by the user, in any order
  and whatever the services answer, an offer whose plan was created, and neither deleted nor given
  up after Amberflo refused for good to delete it, still exists and carries the finalizer.
\<close>

theorem offer_never_leaks:
  assumes "reachable offer_runs s" "go_remote s"
  shows "go_present s \<and> go_guarded s"
  using offer_guard.never_leaks [OF assms(1)] assms(2) by (simp add: nothing_leaks_def)

text \<open>
  C29.  What one reconcile of an offer asks of Amberflo: only a generally available offer is synced,
  as the plan named by its UID, with one item per priced service in the offer's order; each usage
  item is metered by the meter of a definition listed in the same run that has the service's metric;
  and every failed call brings the offer back.
\<close>

theorem reconcile_offer_spec:
  assumes "run_state (reconcile_offer env ofr) s = (r, s')"
  shows "\<exists>es. ts_log s' = ts_log s @ es
    \<and> (\<forall>d x. EnsuredPlan d x \<in> set es \<longrightarrow>
         \<not> deleting (of_Meta ofr) \<and> of_LaunchStage ofr = OfferLaunchStageGA \<and> pp_ID d = om_UID (of_Meta ofr)
       \<and> map it_ID (pp_Items d) = map sv_Name (of_ServicePricings ofr)
       \<and> (\<exists>items. ListedDefinitions (Inr items) \<in> set es
            \<and> (\<forall>k<length (pp_Items d). sv_ChargeType (of_ServicePricings ofr ! k) = ChargeTypeUsage \<longrightarrow>
                 (\<exists>md\<in>set items. md_MeterName md = sv_Metric (of_ServicePricings ofr ! k)
                    \<and> it_MeterAPIName (pp_Items d ! k) = MeterAPIName (om_Name (md_Meta md))))))
    \<and> (\<forall>p x. DeletedPlan p x \<in> set es \<longrightarrow> deleting (of_Meta ofr) \<and> p = om_UID (of_Meta ofr))
    \<and> ((\<exists>e\<in>set es. offer_failure e) \<longrightarrow> comes_back r)"
proof -
  from leavesD [OF reconcile_offer_calls assms] obtain es where
    log: "ts_log s' = ts_log s @ es" and c: "offer_calls env ofr es r" by blast
  note items = plan_items_meters [of env _ "of_ServicePricings ofr"]
  show ?thesis
  proof (rule exI [of _ es], intro conjI log)
    show "\<forall>p x. DeletedPlan p x \<in> set es \<longrightarrow> deleting (of_Meta ofr) \<and> p = om_UID (of_Meta ofr)"
      "(\<exists>e\<in>set es. offer_failure e) \<longrightarrow> comes_back r"
      using c unfolding offer_calls_def by blast+
  qed (use c items in \<open>unfold offer_calls_def, meson\<close>)
qed


definition sample_rates :: "PricingRate list" where
  "sample_rates = [\<lparr>pr_Match = None, pr_Flat = [], pr_Tiered = [\<lparr>tb_UpTo = ''100'', tb_Rate = ''0.5''\<rparr>, \<lparr>tb_UpTo = [], tb_Rate = ''0.25''\<rparr>]\<rparr>]"


lemmas float_eval = f64_of_ratio_def bitlen.simps pow2_ratio_def round_half_even_def Let_def

lemma sample_prices: "parseUpToInt oob ''100'' = Inr 100" "ParseDecimalFloat ''0.5'' = Inr (F64 False 4503599627370496 (-53))"
  "ParseDecimalFloat ''0.25'' = Inr (F64 False 4503599627370496 (-54))"
proof -
  have "parse_decimal ''100'' = Some (False, 100, 0)" "parse_decimal ''0.5'' = Some (False, 5, - 1)"
    "parse_decimal ''0.25'' = Some (False, 25, - 2)" by code_simp+
  then show "parseUpToInt oob ''100'' = Inr 100" "ParseDecimalFloat ''0.5'' = Inr (F64 False 4503599627370496 (-53))"
    "ParseDecimalFloat ''0.25'' = Inr (F64 False 4503599627370496 (-54))"
    by (simp_all add: parseUpToInt_def ParseDecimalFloat_def ParseFloat_def float_eval f64_trunc_def in_int64_def)
qed


definition sample_offer_env :: "'w offer_env" where
  "sample_offer_env = \<lparr>ov_GetOffer = (\<lambda>n. ret (Inl NotFound)), ov_Update = (\<lambda>ofr. ret None),
     ov_ListDefinitions = ret (Inr [sample_definition []]), ov_EnsureProductPlan = (\<lambda>d. ret (Inl (permanent []))),
     ov_DeleteProductPlan = (\<lambda>p. ret None), ov_finalizers = list_finalizers, ov_HasRecorder = True,
     ov_DisplayNameAnnotation = ''kubernetes.io/display-name'', ov_KubeErrorText = (\<lambda>e. []),
     ov_ChargeTypeText = (\<lambda>c. []), ov_IntOutOfRange = (\<lambda>f. 0)\<rparr>"

definition sample_offer :: "string list \<Rightarrow> Offer" where
  "sample_offer fs = \<lparr>of_Meta = with_finalizers fs (named_meta [] ''basic'' ''o1''), of_LaunchStage = OfferLaunchStageGA,
     of_ServicePricings = [\<lparr>sv_Name = ''compute'', sv_DisplayName = [], sv_ChargeType = ChargeTypeUsage,
       sv_Metric = ''compute/cpu'', sv_Rates = [], sv_Amount = []\<rparr>]\<rparr>"

lemmas sample_offer_defs = sample_offer_env_def sample_offer_def sample_meter_defs desiredProductPlan_def meterAPINameIndex_def
  meter_index_def planItemFromSnapshot_def desiredRatesFromPricing_def

lemma offer_runsI:
  fixes env :: "nat offer_env"
  assumes "finalizer_laws (ov_finalizers env)" "run_state (reconcile_offer env ofr) s = (r, s')" "ts_log s = []"
  shows "offer_runs (deleting (of_Meta ofr)) (ProductPlanFinalizer \<in> set (of_Finalizers ofr)) (concat (map offer_effects (ts_log s')))"
  unfolding offer_runs_def by (rule guarded_runsI [OF _ assms(2)]) (use assms in auto)

lemma cpu_name: "MeterAPIName ''cpu'' = ''cpu''"
  by (simp add: MeterAPIName_def maxMeterAPINameLen_def)

lemma sample_items: "\<exists>its. plan_items (sample_offer_env :: 'w offer_env) (meter_index [sample_definition []])
    (of_ServicePricings (sample_offer fs)) = Inr its"
  by (simp add: sample_offer_defs cpu_name Let_def)

lemma sample_desired: "\<exists>d. \<forall>s. run_state (desiredProductPlan (sample_offer_env :: 'w offer_env) (sample_offer fs)) s =
   (Inr d, s\<lparr>ts_log := ts_log s @ [ListedDefinitions (Inr [sample_definition []])]\<rparr>)"
proof -
  have env: "ov_ListDefinitions (sample_offer_env :: 'w offer_env) = ret (Inr [sample_definition []])" by (simp add: sample_offer_env_def)
  obtain its where "plan_items (sample_offer_env :: 'w offer_env) (meter_index [sample_definition []])
    (of_ServicePricings (sample_offer fs)) = Inr its" using sample_items by blast
  then show ?thesis by (simp add: desiredProductPlan_def meterAPINameIndex_def run_simps env Let_def)
qed

lemma sample_offer_sync:
  assumes "run_state (reconcile_offer (sample_offer_env :: 'w offer_env) (sample_offer [ProductPlanFinalizer])) \<lparr>ts_world = w, ts_log = []\<rparr> = (r, s')"
  shows "\<exists>l d e ev. ts_log s' = [ListedDefinitions l, EnsuredPlan d (Inl e), OfferEvent ''Warning'' EventReasonSyncFailed ev]"
proof -
  let ?ofr = "sample_offer [ProductPlanFinalizer]"
  obtain d where d: "\<And>s. run_state (desiredProductPlan (sample_offer_env :: 'w offer_env) ?ofr) s =
      (Inr d, s\<lparr>ts_log := ts_log s @ [ListedDefinitions (Inr [sample_definition []])]\<rparr>)"
    using sample_desired by blast
  have env: "ov_EnsureProductPlan (sample_offer_env :: 'w offer_env) d = ret (Inl (permanent []))" "ov_HasRecorder (sample_offer_env :: 'w offer_env)"
    "ov_finalizers (sample_offer_env :: 'w offer_env) = list_finalizers" by (simp_all add: sample_offer_env_def)
  have ofr: "\<not> deleting (of_Meta ?ofr)" "of_LaunchStage ?ofr = OfferLaunchStageGA" "of_ServicePricings ?ofr \<noteq> []"
    "fl_Contains list_finalizers (of_Finalizers ?ofr) ProductPlanFinalizer"
    by (simp_all add: sample_offer_def with_finalizers_def named_meta_def list_finalizers_def deleting_def)
  show ?thesis
    using assms by (cases "IsPermanent (permanent [])"; cases "IsTransient (permanent [])")
      (auto simp: reconcile_offer_def sync_offer_def run_simps d env ofr handleAmberfloError_offer_def retry_policy_def announce_def)
qed

lemma sample_offer_runs: "offer_runs False False [AddFinalizer True]" "offer_runs False True [Touch]"
proof -
  let ?env = "sample_offer_env :: nat offer_env" and ?s = "\<lparr>ts_world = 0, ts_log = []\<rparr> :: (nat, offer_step) traced_state"
  have laws: "finalizer_laws (ov_finalizers ?env)" by (simp add: sample_offer_env_def list_finalizers_laws)
  have "run_state (reconcile_offer ?env (sample_offer [])) ?s
      = (done_ok, ?s\<lparr>ts_log := [UpdatedOffer (sample_offer [ProductPlanFinalizer]) None]\<rparr>)"
    by (simp add: reconcile_offer_def run_simps sample_offer_defs)
  from offer_runsI [OF laws this] show "offer_runs False False [AddFinalizer True]"
    by (simp add: sample_offer_defs)
  obtain r s' where run: "run_state (reconcile_offer ?env (sample_offer [ProductPlanFinalizer])) ?s = (r, s')" by fastforce
  from sample_offer_sync [OF run] offer_runsI [OF laws run] show "offer_runs False True [Touch]"
    by (auto simp: sample_offer_def with_finalizers_def named_meta_def deleting_def)
qed

theorem offer_never_leaks_witness: "go_present touched_object \<and> go_guarded touched_object"
  by (rule offer_never_leaks [OF touched_object_reachable [of offer_runs, OF sample_offer_runs]]) (simp add: touched_object_def)

theorem reconcile_offer_spec_witness:
  "comes_back (fst (run_state (reconcile_offer sample_offer_env (sample_offer [ProductPlanFinalizer]))
     \<lparr>ts_world = (), ts_log = []\<rparr>))"
proof -
  let ?s = "\<lparr>ts_world = (), ts_log = []\<rparr> :: (unit, offer_step) traced_state"
  let ?run = "run_state (reconcile_offer sample_offer_env (sample_offer [ProductPlanFinalizer])) ?s"
  have "\<exists>e\<in>set (ts_log (snd ?run)). offer_failure e"
    using sample_offer_sync [OF surjective_pairing, of "()"] by force
  with reconcile_offer_spec [OF surjective_pairing, of sample_offer_env "sample_offer [ProductPlanFinalizer]" ?s]
  show ?thesis by auto
qed

end
