(* ===== verification/EntitlementController.thy ===== *)
theory EntitlementController
  imports OfferController CustomerPlan
begin

text \<open>
  internal/controller/billingentitlement_controller.go: the reconciler that assigns an account's
  customer to the product plan of the offer it is entitled to.  The Kubernetes client and the
  Amberflo client interface are parameters; log lines are left out but for the two that tell how a
  deletion ended, and metrics altogether.
\<close>

section \<open>Environment and steps\<close>

record BillingEntitlement =
  be_Meta :: ObjectMeta
  be_BillingAccountRef :: string
  be_OfferRef :: string

text \<open>\<open>nv_AnnotatedFirst\<close> is the order in which Go iterates over a map of two plans.\<close>

record 'w entitlement_env =
  nv_GetEntitlement :: "string \<Rightarrow> string \<Rightarrow> ('w, kerr + BillingEntitlement) io"
  nv_GetAccount :: "string \<Rightarrow> string \<Rightarrow> ('w, kerr + BillingAccount) io"
  nv_GetOffer :: "string \<Rightarrow> ('w, kerr + Offer) io"
  nv_ListEntitlements :: "('w, kerr + BillingEntitlement list) io"
  nv_Update :: "BillingEntitlement \<Rightarrow> ('w, kerr option) io"
  nv_GetProductPlan :: "string \<Rightarrow> ('w, goerr + ProductPlan) io"
  nv_CancelCustomerPlan :: "string \<Rightarrow> string \<Rightarrow> ('w, goerr option) io"
  nv_EnsureCustomerPlan :: "DesiredCustomerPlan \<Rightarrow> ('w, goerr + CustomerPlan) io"
  nv_finalizers :: finalizer_lib
  nv_HasRecorder :: bool
  nv_AnnotatedFirst :: bool

datatype entitlement_step =
    GotEntitlement "kerr + BillingEntitlement"
  | ReadAccount "kerr + BillingAccount"
  | ReadOffer "kerr + Offer"
  | ListedEntitlements "kerr + BillingEntitlement list"
  | UpdatedEntitlement BillingEntitlement "kerr option"
  | FetchedPlan string "goerr + ProductPlan"
  | CancelledPlan string string "goerr option"
  | AssignedPlan DesiredCustomerPlan "goerr + CustomerPlan"
  | LoggedUnresolvable
  | LoggedCancelled string string
  | EntitlementEvent string string string

definition CustomerPlanFinalizer :: string where
  "CustomerPlanFinalizer = ''amberflo.miloapis.com/customer-plan''"

definition lastProductPlanAnnotation :: string where
  "lastProductPlanAnnotation = ''amberflo.miloapis.com/last-product-plan-id''"

definition lastCustomerIDAnnotation :: string where
  "lastCustomerIDAnnotation = ''amberflo.miloapis.com/last-customer-id''"

abbreviation entitlement_event :: "'w entitlement_env \<Rightarrow> string \<Rightarrow> string \<Rightarrow> string
    \<Rightarrow> ('w, entitlement_step, unit) act" where
  "entitlement_event env kind reason msg \<equiv> announce (nv_HasRecorder env) (EntitlementEvent kind reason msg)"

abbreviation be_Finalizers :: "BillingEntitlement \<Rightarrow> string list" where
  "be_Finalizers be \<equiv> om_Finalizers (be_Meta be)"

abbreviation be_Annotation :: "BillingEntitlement \<Rightarrow> string \<Rightarrow> string" where
  "be_Annotation be k \<equiv> mget (om_Annotations (be_Meta be)) k"

text \<open>The arrow of the event texts, in UTF-8.\<close>

definition arrow :: string where "arrow = [CHR 0xE2, CHR 0x86, CHR 0x92]"

definition handleAmberfloError_entitlement :: "'w entitlement_env \<Rightarrow> goerr
    \<Rightarrow> ('w, entitlement_step, reconciled) act" where
  "handleAmberfloError_entitlement env err =
     retry_policy (\<lambda>reason msg. entitlement_event env ''Warning'' reason msg) err"

section \<open>Deletion\<close>

text \<open>The customer and the plan as the referenced objects have them now; what cannot be read is
  empty.\<close>

definition resolveIDs :: "'w entitlement_env \<Rightarrow> BillingEntitlement
    \<Rightarrow> ('w, entitlement_step, string \<times> string) act" where
  "resolveIDs env be = do {
     a \<leftarrow> perform (nv_GetAccount env (om_Namespace (be_Meta be)) (be_BillingAccountRef be)) ReadAccount;
     case a of
       Inl e \<Rightarrow> ret ([], [])
     | Inr account \<Rightarrow> do {
         ofr \<leftarrow> perform (nv_GetOffer env (be_OfferRef be)) ReadOffer;
         ret (case ofr of Inl e \<Rightarrow> (ba_UID account, []) | Inr ofr \<Rightarrow> (ba_UID account, om_UID (of_Meta ofr)))
       }
   }"

definition drop_customer_plan_finalizer :: "'w entitlement_env \<Rightarrow> BillingEntitlement
    \<Rightarrow> ('w, entitlement_step, reconciled) act" where
  "drop_customer_plan_finalizer env be = do {
     let be = be\<lparr>be_Meta := with_finalizers
       (fl_Remove (nv_finalizers env) (be_Finalizers be) CustomerPlanFinalizer) (be_Meta be)\<rparr>;
     u \<leftarrow> perform (nv_Update env be) (UpdatedEntitlement be);
     ret (case u of None \<Rightarrow> done_ok | Some e \<Rightarrow> failed_with (KubeErr ''remove finalizer'' e))
   }"

definition plansToCancel :: "bool \<Rightarrow> string \<Rightarrow> string \<Rightarrow> string list" where
  "plansToCancel annotatedFirst planID annotated =
     (if annotated = [] \<or> annotated = planID then [planID]
      else if annotatedFirst then [annotated, planID] else [planID, annotated])"

fun cancel_plans :: "'w entitlement_env \<Rightarrow> string \<Rightarrow> string list
    \<Rightarrow> ('w, entitlement_step, reconciled option) act" where
  "cancel_plans env customerID [] = ret None"
| "cancel_plans env customerID (planID # planIDs) = do {
     c \<leftarrow> perform (nv_CancelCustomerPlan env customerID planID) (CancelledPlan customerID planID);
     case c of
       Some err \<Rightarrow>
         if IsTransient err then do {
           entitlement_event env ''Warning'' EventReasonDeleteFailed (''transient: '' @ err_text err);
           ret (Some (requeue_after transientRequeueAfter))
         }
         else do {
           entitlement_event env ''Warning'' EventReasonDeleteFailed (''permanent: '' @ err_text err);
           ret (Some (requeue_after permanentDisableRequeueAfter))
         }
     | None \<Rightarrow> cancel_plans env customerID planIDs
   }"

definition reconcileDelete_entitlement :: "'w entitlement_env \<Rightarrow> BillingEntitlement
    \<Rightarrow> ('w, entitlement_step, reconciled) act" where
  "reconcileDelete_entitlement env be =
     (if \<not> fl_Contains (nv_finalizers env) (be_Finalizers be) CustomerPlanFinalizer then ret done_ok
      else do {
        ids \<leftarrow> resolveIDs env be;
        let annotatedCustomer = be_Annotation be lastCustomerIDAnnotation;
        let annotatedPlan = be_Annotation be lastProductPlanAnnotation;
        let customerID = (if fst ids = [] then annotatedCustomer else fst ids);
        let productPlanID = (if snd ids = [] then annotatedPlan else snd ids);
        (if customerID = [] \<or> productPlanID = [] then do {
           remark LoggedUnresolvable;
           drop_customer_plan_finalizer env be
         }
         else do {
           stop \<leftarrow> cancel_plans env customerID (plansToCancel (nv_AnnotatedFirst env) productPlanID annotatedPlan);
           case stop of
             Some r \<Rightarrow> ret r
           | None \<Rightarrow> do {
               remark (LoggedCancelled customerID productPlanID);
               entitlement_event env ''Normal'' EventReasonDeleted
                 (''Amberflo customer plan '' @ customerID @ arrow @ productPlanID @ '' cancelled'');
               drop_customer_plan_finalizer env be
             }
         })
      })"

section \<open>Assignment\<close>

definition annotate_entitlement :: "string \<Rightarrow> string \<Rightarrow> BillingEntitlement \<Rightarrow> BillingEntitlement" where
  "annotate_entitlement customerID planID be = be\<lparr>be_Meta := (be_Meta be)\<lparr>om_Annotations :=
     mset_key lastCustomerIDAnnotation customerID
       (mset_key lastProductPlanAnnotation planID (om_Annotations (be_Meta be)))\<rparr>\<rparr>"

definition synced_event :: "'w entitlement_env \<Rightarrow> string \<Rightarrow> string \<Rightarrow> ('w, entitlement_step, reconciled) act" where
  "synced_event env customerID planID = do {
     entitlement_event env ''Normal'' EventReasonSynced
       (''Amberflo customer plan '' @ customerID @ arrow @ planID @ '' synced'');
     ret done_ok
   }"

definition record_assignment :: "'w entitlement_env \<Rightarrow> BillingEntitlement \<Rightarrow> string \<Rightarrow> string
    \<Rightarrow> ('w, entitlement_step, reconciled) act" where
  "record_assignment env be customerID planID =
     (if be_Annotation be lastProductPlanAnnotation \<noteq> planID \<or> be_Annotation be lastCustomerIDAnnotation \<noteq> customerID
      then do {
        let be = annotate_entitlement customerID planID be;
        u \<leftarrow> perform (nv_Update env be) (UpdatedEntitlement be);
        case u of
          Some e \<Rightarrow> ret (failed_with (KubeErr ''update last-product-plan annotation'' e))
        | None \<Rightarrow> synced_event env customerID planID
      }
      else synced_event env customerID planID)"

definition assign_plan :: "'w entitlement_env \<Rightarrow> BillingEntitlement \<Rightarrow> string \<Rightarrow> string
    \<Rightarrow> ('w, entitlement_step, reconciled) act" where
  "assign_plan env be customerID planID = do {
     let desired = \<lparr>dp_CustomerID = customerID, dp_ProductPlanID = planID, dp_ProductID = [], dp_StartTime = zero_time\<rparr>;
     r \<leftarrow> perform (nv_EnsureCustomerPlan env desired) (AssignedPlan desired);
     case r of
       Inl err \<Rightarrow> handleAmberfloError_entitlement env err
     | Inr cp \<Rightarrow> record_assignment env be customerID planID
   }"

definition cancel_previous :: "'w entitlement_env \<Rightarrow> BillingEntitlement \<Rightarrow> string \<Rightarrow> string
    \<Rightarrow> ('w, entitlement_step, reconciled) act" where
  "cancel_previous env be customerID planID =
     (let prev = be_Annotation be lastProductPlanAnnotation in
      if prev \<noteq> [] \<and> prev \<noteq> planID then do {
        c \<leftarrow> perform (nv_CancelCustomerPlan env customerID prev) (CancelledPlan customerID prev);
        case c of
          Some err \<Rightarrow> do {
            entitlement_event env ''Warning'' EventReasonSyncFailed
              (''cancel previous plan '' @ prev @ '': '' @ err_text err @ '' (continuing)'');
            assign_plan env be customerID planID
          }
        | None \<Rightarrow> assign_plan env be customerID planID
      }
      else assign_plan env be customerID planID)"

definition sync_entitlement :: "'w entitlement_env \<Rightarrow> BillingEntitlement
    \<Rightarrow> ('w, entitlement_step, reconciled) act" where
  "sync_entitlement env be = do {
     a \<leftarrow> perform (nv_GetAccount env (om_Namespace (be_Meta be)) (be_BillingAccountRef be)) ReadAccount;
     case a of
       Inl e \<Rightarrow> ret (if e = NotFound then requeue_after transientRequeueAfter else failed_with (KubeErr [] e))
     | Inr account \<Rightarrow> do {
         g \<leftarrow> perform (nv_GetOffer env (be_OfferRef be)) ReadOffer;
         case g of
           Inl e \<Rightarrow> ret (if e = NotFound then requeue_after transientRequeueAfter else failed_with (KubeErr [] e))
         | Inr ofr \<Rightarrow>
           if of_LaunchStage ofr \<noteq> OfferLaunchStageGA then do {
             entitlement_event env ''Normal'' EventReasonSyncSkipped
               (''Offer '' @ om_Name (of_Meta ofr) @ '' is not GA yet'');
             ret (requeue_after transientRequeueAfter)
           }
           else if length (of_ServicePricings ofr) = 0 then ret (requeue_after transientRequeueAfter)
           else do {
             let customerID = ba_UID account;
             let productPlanID = om_UID (of_Meta ofr);
             p \<leftarrow> perform (nv_GetProductPlan env productPlanID) (FetchedPlan productPlanID);
             case p of
               Inl err \<Rightarrow>
                 if errors_Is err ErrProductPlanNotFound then ret (requeue_after transientRequeueAfter)
                 else handleAmberfloError_entitlement env err
             | Inr _ \<Rightarrow> cancel_previous env be customerID productPlanID
           }
       }
   }"

section \<open>Reconcile\<close>

definition reconcile_entitlement :: "'w entitlement_env \<Rightarrow> BillingEntitlement
    \<Rightarrow> ('w, entitlement_step, reconciled) act" where
  "reconcile_entitlement env be =
     (if deleting (be_Meta be) then reconcileDelete_entitlement env be
      else if \<not> fl_Contains (nv_finalizers env) (be_Finalizers be) CustomerPlanFinalizer then do {
        let be = be\<lparr>be_Meta := with_finalizers
          (fl_Add (nv_finalizers env) (be_Finalizers be) CustomerPlanFinalizer) (be_Meta be)\<rparr>;
        u \<leftarrow> perform (nv_Update env be) (UpdatedEntitlement be);
        ret (case u of None \<Rightarrow> done_ok | Some e \<Rightarrow> failed_with (KubeErr ''add finalizer'' e))
      }
      else sync_entitlement env be)"

definition Reconcile_entitlement :: "'w entitlement_env \<Rightarrow> string \<Rightarrow> string
    \<Rightarrow> ('w, entitlement_step, reconciled) act" where
  "Reconcile_entitlement env ns name = do {
     r \<leftarrow> perform (nv_GetEntitlement env ns name) GotEntitlement;
     case r of
       Inl e \<Rightarrow> ret (if e = NotFound then done_ok else failed_with (KubeErr [] e))
     | Inr be \<Rightarrow> reconcile_entitlement env be
   }"

text \<open>An offer that changes wakes up the entitlements that refer to it.\<close>

definition mapOfferToEntitlements :: "'w entitlement_env \<Rightarrow> Offer
    \<Rightarrow> ('w, entitlement_step, (string \<times> string) list) act" where
  "mapOfferToEntitlements env ofr = do {
     r \<leftarrow> perform (nv_ListEntitlements env) ListedEntitlements;
     ret (case r of
       Inl e \<Rightarrow> []
     | Inr items \<Rightarrow> map (\<lambda>be. (om_Namespace (be_Meta be), om_Name (be_Meta be)))
         (filter (\<lambda>be. be_OfferRef be = om_Name (of_Meta ofr)) items))
   }"

section \<open>The finalizer protocol\<close>

fun entitlement_effects :: "entitlement_step \<Rightarrow> effect list" where
  "entitlement_effects (AssignedPlan d r) = [Touch]"
| "entitlement_effects (LoggedCancelled c p) = [Release]"
| "entitlement_effects LoggedUnresolvable = [Abandon]"
| "entitlement_effects (UpdatedEntitlement be e) =
     (if CustomerPlanFinalizer \<in> set (be_Finalizers be) then [AddFinalizer (e = None)] else [DropFinalizer (e = None)])"
| "entitlement_effects e = []"

lemma handle_entitlement_leaves:
  assumes "\<And>k r m d. d > 0 \<Longrightarrow> R [EntitlementEvent k r m] (requeue_after d)" "\<And>d. d > 0 \<Longrightarrow> R [] (requeue_after d)"
  shows "leaves (handleAmberfloError_entitlement env err) R"
  unfolding handleAmberfloError_entitlement_def by (rule leaves_policy) (use assms in blast)+

text \<open>Cancelling several plans: it goes on while cancelling succeeds.\<close>

definition cancelled_upto :: "string \<Rightarrow> string list \<Rightarrow> entitlement_step list \<Rightarrow> reconciled option \<Rightarrow> bool" where
  "cancelled_upto customerID planIDs es r \<longleftrightarrow>
     (case r of
        None \<Rightarrow> es = map (\<lambda>p. CancelledPlan customerID p None) planIDs
      | Some x \<Rightarrow> comes_back x \<and> (\<forall>e\<in>set es. (\<exists>p y. e = CancelledPlan customerID p y) \<or> (\<exists>k r m. e = EntitlementEvent k r m)))"

lemma cancel_plans_leaves: "leaves (cancel_plans env customerID planIDs) (cancelled_upto customerID planIDs)"
proof (induction planIDs)
  case Nil
  show ?case by (simp add: leaves_ret cancelled_upto_def)
next
  case (Cons p ps)
  have rest: "leaves (cancel_plans env customerID ps) (\<lambda>es. cancelled_upto customerID (p # ps) (CancelledPlan customerID p x # es))"
    if "x = None" for x
    by (rule leaves_weaken [OF Cons.IH]) (use that in \<open>auto simp: cancelled_upto_def split: option.splits\<close>)
  show ?case unfolding cancel_plans.simps
    by (intro run_leaves rest) (auto simp: cancelled_upto_def)
qed

lemma cancel_plans_bind:
  assumes "leaves (f None) (\<lambda>es. R (map (\<lambda>p. CancelledPlan customerID p None) ps @ es))"
    and "\<And>es r. comes_back r \<Longrightarrow> \<forall>e\<in>set es. (\<exists>p y. e = CancelledPlan customerID p y) \<or> (\<exists>k r m. e = EntitlementEvent k r m)
       \<Longrightarrow> leaves (f (Some r)) (\<lambda>es'. R (es @ es'))"
  shows "leaves (State_Monad.bind (cancel_plans env customerID ps) f) R"
proof (rule leaves_bind, rule leaves_weaken [OF cancel_plans_leaves])
  fix es r assume "cancelled_upto customerID ps es r"
  then show "leaves (f r) (\<lambda>es'. R (es @ es'))"
    using assms by (cases r) (auto simp: cancelled_upto_def)
qed

lemmas entitlement_defs = reconcile_entitlement_def reconcileDelete_entitlement_def
  drop_customer_plan_finalizer_def sync_entitlement_def cancel_previous_def assign_plan_def record_assignment_def
  synced_event_def Let_def

lemma no_effects:
  "\<forall>e\<in>set es. (\<exists>p y. e = CancelledPlan customerID p y) \<or> (\<exists>k r m. e = EntitlementEvent k r m)
     \<Longrightarrow> concat (map entitlement_effects es) = []"
  by (induction es) auto

lemma annotate_keeps [simp]: "be_Finalizers (annotate_entitlement c p be) = be_Finalizers be"
  by (simp add: annotate_entitlement_def)

lemma no_cancel_effects [simp]:
  "concat (map (entitlement_effects \<circ> (\<lambda>p. CancelledPlan c p None)) ps) = []"
  by (induction ps) auto

lemma resolveIDs_bind:
  assumes "\<And>e. leaves (f ([], [])) (\<lambda>es. R (ReadAccount (Inl e) # es))"
    and "\<And>account e. leaves (f (ba_UID account, [])) (\<lambda>es. R (ReadAccount (Inr account) # ReadOffer (Inl e) # es))"
    and "\<And>account ofr. leaves (f (ba_UID account, om_UID (of_Meta ofr)))
           (\<lambda>es. R (ReadAccount (Inr account) # ReadOffer (Inr ofr) # es))"
  shows "leaves (State_Monad.bind (resolveIDs env be) f) R"
proof (rule leaves_bind, unfold resolveIDs_def, intro leaves_perform_bind leaves_sum leaves_ret)
  fix x :: "kerr + BillingAccount" and e assume "x = Inl e"
  then show "leaves (f ([], [])) (\<lambda>es'. R ([ReadAccount x] @ es'))" using assms(1) by simp
next
  fix x :: "kerr + BillingAccount" and account and y :: "kerr + Offer" assume "x = Inr account"
  then show "leaves (f (case y of Inl e \<Rightarrow> (ba_UID account, []) | Inr ofr \<Rightarrow> (ba_UID account, om_UID (of_Meta ofr))))
      (\<lambda>es'. R ([ReadAccount x, ReadOffer y] @ es'))" using assms(2,3) by (cases y) simp_all
qed

lemma delete_disciplined:
  assumes "finalizer_laws (nv_finalizers env)"
  shows "leaves (reconcileDelete_entitlement env be) (\<lambda>es _. disciplined True
     (CustomerPlanFinalizer \<in> set (be_Finalizers be)) (concat (map entitlement_effects es)))"
  using assms unfolding entitlement_defs
  by (intro run_leaves resolveIDs_bind cancel_plans_bind)
    (auto simp: finalizer_laws_def with_finalizers_def no_effects)

lemma sync_disciplined:
  assumes "CustomerPlanFinalizer \<in> set (be_Finalizers be)"
  shows "leaves (sync_entitlement env be) (\<lambda>es _. disciplined False True (concat (map entitlement_effects es)))"
  using assms unfolding entitlement_defs
  by (intro run_leaves handle_entitlement_leaves) auto

lemma reconcile_entitlement_disciplined:
  assumes "finalizer_laws (nv_finalizers env)"
  shows "leaves (reconcile_entitlement env be) (\<lambda>es _. disciplined (deleting (be_Meta be))
     (CustomerPlanFinalizer \<in> set (be_Finalizers be)) (concat (map entitlement_effects es)))"
proof -
  have g: "fl_Contains (nv_finalizers env) fs f \<longleftrightarrow> f \<in> set fs" "f \<in> set (fl_Add (nv_finalizers env) fs f)" for fs f
    using assms by (auto simp: finalizer_laws_def)
  show ?thesis unfolding reconcile_entitlement_def
    using delete_disciplined [OF assms, of be] sync_disciplined [of be env]
    by (auto intro!: run_leaves simp: g with_finalizers_def Let_def simp del: disciplined_iff) (simp_all add: g)
qed

definition entitlement_runs :: "bool \<Rightarrow> bool \<Rightarrow> effect list \<Rightarrow> bool" where
  "entitlement_runs = guarded_runs (\<lambda>be. deleting (be_Meta be)) (\<lambda>be. CustomerPlanFinalizer \<in> set (be_Finalizers be))
     entitlement_effects
     (\<lambda>be m. \<exists>env :: nat entitlement_env. finalizer_laws (nv_finalizers env) \<and> m = reconcile_entitlement env be)"

interpretation entitlement_guard: guarded_reconciler entitlement_runs
  by unfold_locales
    (auto simp only: entitlement_runs_def elim!: guarded_runs_disciplined [rotated] intro: reconcile_entitlement_disciplined)

section \<open>What a sync and a deletion do\<close>

definition assignment :: "BillingEntitlement \<Rightarrow> entitlement_step list \<Rightarrow> reconciled \<Rightarrow> bool" where
  "assignment be es r \<longleftrightarrow>
     (\<forall>d x. AssignedPlan d x \<in> set es \<longrightarrow>
        (\<exists>account ofr pl. ReadAccount (Inr account) \<in> set es \<and> ReadOffer (Inr ofr) \<in> set es
           \<and> of_LaunchStage ofr = OfferLaunchStageGA \<and> of_ServicePricings ofr \<noteq> []
           \<and> FetchedPlan (dp_ProductPlanID d) (Inr pl) \<in> set es
           \<and> dp_CustomerID d = ba_UID account \<and> dp_ProductPlanID d = om_UID (of_Meta ofr)))
   \<and> (\<forall>pre d x post. es = pre @ AssignedPlan d x # post \<longrightarrow>
        be_Annotation be lastProductPlanAnnotation \<in> {[], dp_ProductPlanID d}
        \<or> (\<exists>e. CancelledPlan (dp_CustomerID d) (be_Annotation be lastProductPlanAnnotation) e \<in> set pre))
   \<and> (\<not> comes_back r \<longrightarrow> (\<exists>d cp. AssignedPlan d (Inr cp) \<in> set es
        \<and> (\<exists>be'. (be' = be \<or> UpdatedEntitlement be' None \<in> set es)
             \<and> be_Annotation be' lastProductPlanAnnotation = dp_ProductPlanID d
             \<and> be_Annotation be' lastCustomerIDAnnotation = dp_CustomerID d)))"

lemma annotated [simp]:
  "be_Annotation (annotate_entitlement c p be) lastProductPlanAnnotation = p"
  "be_Annotation (annotate_entitlement c p be) lastCustomerIDAnnotation = c"
  by (simp_all add: annotate_entitlement_def lastProductPlanAnnotation_def lastCustomerIDAnnotation_def mget_def)

lemma sync_assignment: "leaves (sync_entitlement env be) (assignment be)"
  unfolding entitlement_defs
  by (intro run_leaves handle_entitlement_leaves) (auto simp: assignment_def Cons_eq_append_conv)

definition removed :: "'w entitlement_env \<Rightarrow> BillingEntitlement \<Rightarrow> entitlement_step list \<Rightarrow> reconciled \<Rightarrow> bool" where
  "removed env be es r \<longleftrightarrow>
     (\<forall>be' u. UpdatedEntitlement be' u \<in> set es \<longrightarrow>
        (\<exists>c p. CancelledPlan c p None \<in> set es
           \<and> (be_Annotation be lastProductPlanAnnotation \<noteq> []
                \<longrightarrow> CancelledPlan c (be_Annotation be lastProductPlanAnnotation) None \<in> set es))
      \<or> (be_Annotation be lastCustomerIDAnnotation = [] \<or> be_Annotation be lastProductPlanAnnotation = [])
        \<and> (\<forall>c p x. CancelledPlan c p x \<notin> set es))
   \<and> (comes_back r \<or> (\<exists>be'. UpdatedEntitlement be' None \<in> set es
        \<and> be_Finalizers be' = fl_Remove (nv_finalizers env) (be_Finalizers be) CustomerPlanFinalizer))"

lemma set_plansToCancel: "set (plansToCancel b p a) = (if a = [] then {p} else {p, a})"
  by (auto simp: plansToCancel_def)

lemma delete_removed:
  assumes "fl_Contains (nv_finalizers env) (be_Finalizers be) CustomerPlanFinalizer"
  shows "leaves (reconcileDelete_entitlement env be) (removed env be)"
  using assms unfolding entitlement_defs
  by (intro run_leaves resolveIDs_bind cancel_plans_bind)
    (auto simp: with_finalizers_def removed_def set_plansToCancel split: if_splits option.splits)

section \<open>Properties\<close>


text \<open>
  C20.  What a sync of an entitlement assigns: the customer of the account and the plan of the
  published offer it read, after Amberflo confirmed the plan and after a different plan recorded
  before was asked to be cancelled; and a sync that does not come back has assigned the plan and
  recorded it, with the customer, in the annotations.
\<close>

theorem sync_entitlement_assigns:
  assumes "run_state (sync_entitlement env be) s = (r, s')"
  shows "\<exists>es. ts_log s' = ts_log s @ es
    \<and> (\<forall>d x. AssignedPlan d x \<in> set es \<longrightarrow>
        (\<exists>account ofr pl. ReadAccount (Inr account) \<in> set es \<and> ReadOffer (Inr ofr) \<in> set es
           \<and> of_LaunchStage ofr = OfferLaunchStageGA \<and> of_ServicePricings ofr \<noteq> []
           \<and> FetchedPlan (dp_ProductPlanID d) (Inr pl) \<in> set es
           \<and> dp_CustomerID d = ba_UID account \<and> dp_ProductPlanID d = om_UID (of_Meta ofr)))
    \<and> (\<forall>pre d x post. es = pre @ AssignedPlan d x # post \<longrightarrow>
        be_Annotation be lastProductPlanAnnotation \<in> {[], dp_ProductPlanID d}
        \<or> (\<exists>e. CancelledPlan (dp_CustomerID d) (be_Annotation be lastProductPlanAnnotation) e \<in> set pre))
    \<and> (comes_back r \<or> (\<exists>d cp. AssignedPlan d (Inr cp) \<in> set es
        \<and> (\<exists>be'. (be' = be \<or> UpdatedEntitlement be' None \<in> set es)
             \<and> be_Annotation be' lastProductPlanAnnotation = dp_ProductPlanID d
             \<and> be_Annotation be' lastCustomerIDAnnotation = dp_CustomerID d)))"
  using leavesD [OF sync_assignment assms] unfolding assignment_def by metis


text \<open>
  A failure to read the account is taken for its absence: whatever the API server answers, also
  an error that would pass, an entitlement under deletion whose assignment was not yet recorded in
  the annotations loses its finalizer, and the assignment is not cancelled.
\<close>

theorem reconcileDelete_entitlement_abandons:
  assumes "fl_Contains (nv_finalizers env) (be_Finalizers be) CustomerPlanFinalizer"
    and "nv_GetAccount env (om_Namespace (be_Meta be)) (be_BillingAccountRef be) = ret (Inl e)"
    and "be_Annotation be lastCustomerIDAnnotation = []"
    and "\<And>be'. nv_Update env be' = ret None"
  shows "\<exists>be'. be_Finalizers be' = fl_Remove (nv_finalizers env) (be_Finalizers be) CustomerPlanFinalizer
    \<and> run_state (reconcileDelete_entitlement env be) s
        = (done_ok, s\<lparr>ts_log := ts_log s @ [ReadAccount (Inl e), LoggedUnresolvable, UpdatedEntitlement be' None]\<rparr>)"
  by (rule exI [of _ "be\<lparr>be_Meta := with_finalizers
        (fl_Remove (nv_finalizers env) (be_Finalizers be) CustomerPlanFinalizer) (be_Meta be)\<rparr>"])
    (simp add: reconcileDelete_entitlement_def resolveIDs_def drop_customer_plan_finalizer_def run_simps assms
      Let_def with_finalizers_def)

section \<open>Witnesses\<close>

definition sample_product_plan :: "string \<Rightarrow> ProductPlan" where
  "sample_product_plan p = \<lparr>pl_ID = p, pl_Name = [], pl_ProductID = [], pl_Currency = [], pl_Description = [], pl_Raw = []\<rparr>"

definition sample_entitlement_env :: "kerr + BillingAccount \<Rightarrow> 'w entitlement_env" where
  "sample_entitlement_env acc = \<lparr>nv_GetEntitlement = (\<lambda>ns n. ret (Inl NotFound)),
     nv_GetAccount = (\<lambda>ns n. ret acc), nv_GetOffer = (\<lambda>n. ret (Inr (sample_offer []))),
     nv_ListEntitlements = ret (Inr []), nv_Update = (\<lambda>be. ret None),
     nv_GetProductPlan = (\<lambda>p. ret (Inr (sample_product_plan p))),
     nv_CancelCustomerPlan = (\<lambda>c p. ret None), nv_EnsureCustomerPlan = (\<lambda>d. ret (Inl (permanent []))),
     nv_finalizers = list_finalizers, nv_HasRecorder = False, nv_AnnotatedFirst = False\<rparr>"

definition sample_entitlement :: "string list \<Rightarrow> BillingEntitlement" where
  "sample_entitlement fs = \<lparr>be_Meta = with_finalizers fs (named_meta ''ns'' ''be'' ''e1''), be_BillingAccountRef = ''acme'',
     be_OfferRef = ''basic''\<rparr>"

definition acme :: "kerr + BillingAccount" where
  "acme = Inr (plain_account ''ns'' ''acme'' ''u1'')"

lemma sample_entitlement_simps [simp]:
  "be_Finalizers (sample_entitlement fs) = fs" "be_Annotation (sample_entitlement fs) k = []"
  "\<not> deleting (be_Meta (sample_entitlement fs))" "nv_finalizers (sample_entitlement_env acc) = list_finalizers"
  "fl_Contains list_finalizers fs f \<longleftrightarrow> f \<in> set fs" "nv_Update (sample_entitlement_env acc) be = ret None"
  "nv_GetAccount (sample_entitlement_env acc) ns n = ret acc"
  "nv_GetOffer (sample_entitlement_env acc) n = ret (Inr (sample_offer []))"
  "nv_GetProductPlan (sample_entitlement_env acc) q = ret (Inr (sample_product_plan q))"
  "nv_EnsureCustomerPlan (sample_entitlement_env acc) d = ret (Inl (permanent []))"
  "nv_CancelCustomerPlan (sample_entitlement_env acc) c p = ret None"
  "\<not> nv_HasRecorder (sample_entitlement_env acc)"
  "of_LaunchStage (sample_offer []) = OfferLaunchStageGA" "of_ServicePricings (sample_offer []) \<noteq> []"
  "om_UID (of_Meta (sample_offer [])) = ''o1''" "ba_UID (plain_account ''ns'' ''acme'' ''u1'') = ''u1''"
  by (simp_all add: sample_entitlement_def with_finalizers_def named_meta_def mget_def deleting_def
      sample_entitlement_env_def list_finalizers_def sample_offer_def plain_account_def)

lemma sample_assignment: "\<exists>d pl r. run_state (sync_entitlement (sample_entitlement_env acme) (sample_entitlement fs)) s
   = (r, s\<lparr>ts_log := ts_log s @ [ReadAccount acme, ReadOffer (Inr (sample_offer [])), FetchedPlan ''o1'' (Inr pl),
        AssignedPlan d (Inl (permanent []))]\<rparr>)"
  by (intro exI [of _ "\<lparr>dp_CustomerID = ''u1'', dp_ProductPlanID = ''o1'', dp_ProductID = [], dp_StartTime = zero_time\<rparr>"]
      exI [of _ "sample_product_plan ''o1''"])
    (simp add: sync_entitlement_def cancel_previous_def assign_plan_def run_simps acme_def Let_def
      handleAmberfloError_entitlement_def retry_policy_def announce_def)

lemma entitlement_runsI:
  fixes env :: "nat entitlement_env"
  assumes "finalizer_laws (nv_finalizers env)" "run_state (reconcile_entitlement env be) s = (r, s')" "ts_log s = []"
  shows "entitlement_runs (deleting (be_Meta be)) (CustomerPlanFinalizer \<in> set (be_Finalizers be))
    (concat (map entitlement_effects (ts_log s')))"
  unfolding entitlement_runs_def by (rule guarded_runsI [OF _ assms(2)]) (use assms in auto)

lemma sample_entitlement_runs:
  "entitlement_runs False False [AddFinalizer True]" "entitlement_runs False True [Touch]"
proof -
  let ?env = "sample_entitlement_env acme :: nat entitlement_env"
  let ?s = "\<lparr>ts_world = 0, ts_log = []\<rparr> :: (nat, entitlement_step) traced_state"
  have laws: "finalizer_laws (nv_finalizers ?env)" by (simp add: list_finalizers_laws)
  have "\<exists>be'. CustomerPlanFinalizer \<in> set (be_Finalizers be') \<and>
      run_state (reconcile_entitlement ?env (sample_entitlement [])) ?s
      = (done_ok, ?s\<lparr>ts_log := [UpdatedEntitlement be' None]\<rparr>)"
    by (simp add: reconcile_entitlement_def run_simps with_finalizers_def list_finalizers_def Let_def)
  then obtain be' where "CustomerPlanFinalizer \<in> set (be_Finalizers be')"
    "run_state (reconcile_entitlement ?env (sample_entitlement [])) ?s = (done_ok, ?s\<lparr>ts_log := [UpdatedEntitlement be' None]\<rparr>)"
    by blast
  with entitlement_runsI [OF laws this(2)] show "entitlement_runs False False [AddFinalizer True]" by simp
  obtain d pl r where "run_state (sync_entitlement ?env (sample_entitlement [CustomerPlanFinalizer])) ?s
      = (r, ?s\<lparr>ts_log := [ReadAccount acme, ReadOffer (Inr (sample_offer [])), FetchedPlan ''o1'' (Inr pl),
           AssignedPlan d (Inl (permanent []))]\<rparr>)"
    using sample_assignment [of "[CustomerPlanFinalizer]" ?s] by auto
  then have "run_state (reconcile_entitlement ?env (sample_entitlement [CustomerPlanFinalizer])) ?s
      = (r, ?s\<lparr>ts_log := [ReadAccount acme, ReadOffer (Inr (sample_offer [])), FetchedPlan ''o1'' (Inr pl),
           AssignedPlan d (Inl (permanent []))]\<rparr>)"
    by (simp add: reconcile_entitlement_def)
  from entitlement_runsI [OF laws this] show "entitlement_runs False True [Touch]" by simp
qed


theorem sync_entitlement_assigns_witness:
  "\<exists>d es. AssignedPlan d (Inl (permanent [])) \<in> set es \<and> dp_CustomerID d = ''u1''
     \<and> ts_log (snd (run_state (sync_entitlement (sample_entitlement_env acme) (sample_entitlement [])) \<lparr>ts_world = (), ts_log = []\<rparr>)) = es"
proof -
  let ?s = "\<lparr>ts_world = (), ts_log = []\<rparr> :: (unit, entitlement_step) traced_state"
  obtain d pl r where run: "run_state (sync_entitlement (sample_entitlement_env acme) (sample_entitlement [])) ?s
      = (r, ?s\<lparr>ts_log := [ReadAccount acme, ReadOffer (Inr (sample_offer [])), FetchedPlan ''o1'' (Inr pl),
           AssignedPlan d (Inl (permanent []))]\<rparr>)"
    using sample_assignment [of "[]" ?s] by auto
  have "ba_UID (plain_account ''ns'' ''acme'' ''u1'') = ''u1''" by (simp add: plain_account_def named_meta_def)
  with sync_entitlement_assigns [OF run] have "dp_CustomerID d = ''u1''" by (auto simp: acme_def)
  with run show ?thesis by auto
qed


theorem reconcileDelete_entitlement_abandons_witness:
  "fst (run_state (reconcileDelete_entitlement (sample_entitlement_env (Inl (OtherKubeError ''timeout'')))
      (sample_entitlement [CustomerPlanFinalizer])) \<lparr>ts_world = (), ts_log = []\<rparr>) = done_ok"
proof -
  let ?env = "sample_entitlement_env (Inl (OtherKubeError ''timeout'')) :: unit entitlement_env"
  have "\<exists>be'. be_Finalizers be' = fl_Remove (nv_finalizers ?env) [CustomerPlanFinalizer] CustomerPlanFinalizer
    \<and> run_state (reconcileDelete_entitlement ?env (sample_entitlement [CustomerPlanFinalizer])) \<lparr>ts_world = (), ts_log = []\<rparr>
        = (done_ok, \<lparr>ts_world = (), ts_log = []\<rparr>\<lparr>ts_log := [] @ [ReadAccount (Inl (OtherKubeError ''timeout'')),
             LoggedUnresolvable, UpdatedEntitlement be' None]\<rparr>)"
    using reconcileDelete_entitlement_abandons [of ?env "sample_entitlement [CustomerPlanFinalizer]"
      "OtherKubeError ''timeout''" "\<lparr>ts_world = (), ts_log = []\<rparr>"] by simp
  then show ?thesis by auto
qed

end
