(* ===== verification/Webhook.thy ===== *)
theory Webhook
  imports Kube InvoiceApi
begin

text \<open>
  internal/webhook/invoice.go: the HTTP handler of Amberflo's invoice-ready events: the shared
  secret, the event, the billing account, the invoices it brings up to date.  The Kubernetes
  client, the Amberflo client interface and the invoice syncer are parameters; logging and the
  registration on the webhook server are left out.
\<close>

section \<open>Requests and responses\<close>

text \<open>The body is what the connection gives, and whether it then failed instead of ending.\<close>

record http_req =
  hr_Method :: string
  hr_Header :: "(string \<times> string) list"
  hr_Body :: string
  hr_BodyFails :: bool

record http_resp =
  hs_Status :: int
  hs_Allow :: string
  hs_Body :: string

text \<open>\<open>Header.Get\<close> looks a name up in its canonical form; names with other characters than those of a
  token stay as they are.\<close>

definition token_char :: "char \<Rightarrow> bool" where
  "token_char c \<longleftrightarrow> is_digit c \<or> (65 \<le> (of_char c :: nat) \<and> (of_char c :: nat) \<le> 90)
     \<or> (97 \<le> (of_char c :: nat) \<and> (of_char c :: nat) \<le> 122) \<or> c \<in> set ''!#$%&*+-.^_`|~'' \<or> c = CHR 0x27"

definition to_upper :: "char \<Rightarrow> char" where
  "to_upper c = (if 97 \<le> (of_char c :: nat) \<and> (of_char c :: nat) \<le> 122 then char_of ((of_char c :: nat) - 32) else c)"

fun capitalize :: "bool \<Rightarrow> string \<Rightarrow> string" where
  "capitalize up [] = []"
| "capitalize up (c # cs) = (if up then to_upper c else to_lower c) # capitalize (c = CHR ''-'') cs"

definition canonical_header :: "string \<Rightarrow> string" where
  "canonical_header s = (if list_all token_char s then capitalize True s else s)"

definition header_Get :: "http_req \<Rightarrow> string \<Rightarrow> string" where
  "header_Get rq k = mget (hr_Header rq) (canonical_header k)"

definition http_Error :: "string \<Rightarrow> int \<Rightarrow> http_resp" where
  "http_Error msg status = \<lparr>hs_Status = status, hs_Allow = [], hs_Body = msg @ [CHR 0x0A]\<rparr>"

definition maxBodyBytes :: nat where "maxBodyBytes = 2 ^ 18"

text \<open>\<open>io.ReadAll\<close> of a \<open>io.LimitReader\<close>: what lies beyond the limit is not read.\<close>

definition read_body :: "http_req \<Rightarrow> string option" where
  "read_body rq =
     (if hr_BodyFails rq \<and> length (hr_Body rq) < maxBodyBytes then None else Some (take maxBodyBytes (hr_Body rq)))"

section \<open>The handler's environment\<close>

record 'w webhook_env =
  wh_ListByUID :: "string \<Rightarrow> ('w, kerr + BillingAccount list) io"
  wh_ListAccounts :: "('w, kerr + BillingAccount list) io"
  wh_GetInvoice :: "InvoiceKey \<Rightarrow> ('w, goerr + CustomerProductInvoice) io"
  wh_ListInvoices :: "string \<Rightarrow> ('w, goerr + CustomerProductInvoice list) io"
  wh_Upsert :: "BillingAccount \<Rightarrow> CustomerProductInvoice \<Rightarrow> ('w, rerr option) io"
  wh_Secret :: string
  wh_SecretHeader :: string

datatype webhook_step =
    LookedUp string "kerr + BillingAccount list"
  | LookedThrough "kerr + BillingAccount list"
  | FetchedInvoice InvoiceKey "goerr + CustomerProductInvoice"
  | FetchedInvoices string "goerr + CustomerProductInvoice list"
  | SyncedInvoice BillingAccount CustomerProductInvoice "rerr option"

definition DefaultSecretHeader :: string where "DefaultSecretHeader = ''X-Auth''"

definition authorize :: "'w webhook_env \<Rightarrow> http_req \<Rightarrow> bool" where
  "authorize h rq \<longleftrightarrow>
     (if wh_Secret h = [] then False
      else let header = (if wh_SecretHeader h = [] then DefaultSecretHeader else wh_SecretHeader h);
               got = trim_space (header_Get rq header)
           in got = wh_Secret h)"

section \<open>Events\<close>

record invoiceReadyEvent =
  ev_CustomerID :: string
  ev_InvoiceURI :: string
  ev_Key :: InvoiceKey
  ev_Embedded :: "CustomerProductInvoice option"

text \<open>A map of raw messages; of several members with one name the last counts.\<close>

definition raw_map :: "json \<Rightarrow> (string \<times> json) list option" where
  "raw_map j = (case j of
      JNull \<Rightarrow> Some []
    | JObj ms \<Rightarrow> Some (fold (\<lambda>(k, v) m. AList.update k v m) ms [])
    | _ \<Rightarrow> None)"

fun stringField :: "(string \<times> json) list \<Rightarrow> string list \<Rightarrow> string" where
  "stringField m [] = []"
| "stringField m (k # ks) =
     (case map_of m k of
        None \<Rightarrow> stringField m ks
      | Some raw \<Rightarrow>
        (case dec_string [] raw of
           None \<Rightarrow> stringField m ks
         | Some s \<Rightarrow> if s \<noteq> [] then s else stringField m ks))"

text \<open>A number that is no int64 is truncated; out of range that is up to the platform.\<close>

definition int64Field :: "(float64 \<Rightarrow> int) \<Rightarrow> (string \<times> json) list \<Rightarrow> string \<Rightarrow> int" where
  "int64Field oob m key =
     (case map_of m key of
        None \<Rightarrow> 0
      | Some raw \<Rightarrow>
        (case dec_int64 0 raw of
           Some n \<Rightarrow> n
         | None \<Rightarrow>
           (case dec_float fzero raw of
              Some f \<Rightarrow> if in_int64 (f64_trunc f) then f64_trunc f else oob f
            | None \<Rightarrow> 0)))"

text \<open>Decoding into a struct whose error is ignored: members of the wrong type are skipped.\<close>

fun decode_members_ignoring :: "'r fields \<Rightarrow> (string \<times> json) list \<Rightarrow> 'r \<Rightarrow> 'r" where
  "decode_members_ignoring fs [] r = r"
| "decode_members_ignoring fs ((k, j) # ms) r =
     decode_members_ignoring fs ms
       (case find_field fs k of None \<Rightarrow> r | Some g \<Rightarrow> (case g r j of None \<Rightarrow> r | Some r' \<Rightarrow> r'))"

definition parseInvoiceKey :: "(float64 \<Rightarrow> int) \<Rightarrow> (string \<times> json) list \<Rightarrow> InvoiceKey" where
  "parseInvoiceKey oob data =
     (let key = (case map_of data ''invoiceKey'' of
            Some (JObj ms) \<Rightarrow> decode_members_ignoring key_fields ms zero_key
          | _ \<Rightarrow> zero_key);
          key = (if ik_CustomerID key = []
            then key\<lparr>ik_CustomerID := stringField data [''customerId'', ''customerID'']\<rparr> else key);
          key = (if ik_ProductID key = [] then key\<lparr>ik_ProductID := stringField data [''productId'']\<rparr> else key);
          key = (if ik_ProductPlanID key = []
            then key\<lparr>ik_ProductPlanID := stringField data [''productPlanId'']\<rparr> else key);
          key = (if ik_Year key = 0 then key\<lparr>ik_Year := int64Field oob data ''year''\<rparr> else key);
          key = (if ik_Month key = 0 then key\<lparr>ik_Month := int64Field oob data ''month''\<rparr> else key)
      in if ik_Day key = 0 then key\<lparr>ik_Day := int64Field oob data ''day''\<rparr> else key)"

definition customer_names :: "string list" where
  "customer_names = [''customerId'', ''customerID'', ''customer_id'']"

text \<open>What an invoice embedded in the data adds to the event.\<close>

definition embed :: "CustomerProductInvoice \<Rightarrow> invoiceReadyEvent \<Rightarrow> invoiceReadyEvent" where
  "embed iv event =
     (let event = event\<lparr>ev_Embedded := Some iv\<rparr>;
          event = (if ev_CustomerID event = [] \<and> ik_CustomerID (ci_InvoiceKey iv) \<noteq> []
            then event\<lparr>ev_CustomerID := ik_CustomerID (ci_InvoiceKey iv)\<rparr> else event);
          event = (if ev_InvoiceURI event = [] then event\<lparr>ev_InvoiceURI := ci_InvoiceURI iv\<rparr> else event)
      in if \<not> key_complete (ev_Key event) \<and> ik_ProductPlanID (ci_InvoiceKey iv) \<noteq> []
         then (let key = ci_InvoiceKey iv;
                   key = (if ik_CustomerID key = [] then key\<lparr>ik_CustomerID := ev_CustomerID event\<rparr> else key)
               in event\<lparr>ev_Key := key\<rparr>)
         else event)"

text \<open>\<open>None\<close> stands for the error of the code, whose text is only logged.\<close>

definition parseInvoiceReadyEvent :: "(float64 \<Rightarrow> int) \<Rightarrow> string \<Rightarrow> invoiceReadyEvent option" where
  "parseInvoiceReadyEvent oob body =
     (if length body = 0 then None
      else case json_parse body of None \<Rightarrow> None | Some whole \<Rightarrow>
        (case raw_map whole of None \<Rightarrow> None | Some outer \<Rightarrow>
          (let dataRaw = (case map_of outer ''data'' of Some d \<Rightarrow> d | None \<Rightarrow> whole) in
           case raw_map dataRaw of None \<Rightarrow> None | Some data \<Rightarrow>
             (let customer = stringField data customer_names;
                  customer = (if customer = [] then stringField outer customer_names else customer);
                  key = parseInvoiceKey oob data;
                  key = (if ik_CustomerID key = [] then key\<lparr>ik_CustomerID := customer\<rparr> else key);
                  event = \<lparr>ev_CustomerID = customer, ev_InvoiceURI = stringField data [''invoiceUri'', ''invoiceURI''],
                    ev_Key = key, ev_Embedded = None\<rparr>;
                  event = (case decode_struct invoice_fields zero_invoice dataRaw of
                      Some iv \<Rightarrow> if ci_InvoiceStartTimeInSeconds iv > 0 then embed iv event else event
                    | None \<Rightarrow> event)
              in if ev_CustomerID event = [] then None else Some event))))"

section \<open>Handling\<close>

definition lookupBillingAccount :: "'w webhook_env \<Rightarrow> string
    \<Rightarrow> ('w, webhook_step, rerr + BillingAccount option) act" where
  "lookupBillingAccount h customerID = do {
     r \<leftarrow> perform (wh_ListByUID h customerID) (LookedUp customerID);
     case r of
       Inl e \<Rightarrow> do {
         r \<leftarrow> perform (wh_ListAccounts h) LookedThrough;
         ret (case r of
           Inl e \<Rightarrow> Inl (KubeErr ''list BillingAccounts: '' e)
         | Inr items \<Rightarrow> Inr (find (\<lambda>a. ba_UID a = customerID) items))
       }
     | Inr items \<Rightarrow> ret (Inr (if length items = 0 then None else Some (items ! 0)))
   }"

definition from_event :: "invoiceReadyEvent \<Rightarrow> CustomerProductInvoice \<Rightarrow> CustomerProductInvoice" where
  "from_event event iv =
     (let iv = (if ik_CustomerID (ci_InvoiceKey iv) = [] then iv\<lparr>ci_InvoiceKey := ev_Key event\<rparr> else iv)
      in if ci_InvoiceURI iv = [] then iv\<lparr>ci_InvoiceURI := ev_InvoiceURI event\<rparr> else iv)"

definition fallback_invoices :: "'w webhook_env \<Rightarrow> invoiceReadyEvent
    \<Rightarrow> ('w, webhook_step, rerr + CustomerProductInvoice list) act" where
  "fallback_invoices h event =
     (case ev_Embedded event of
        Some iv \<Rightarrow>
          if ci_InvoiceStartTimeInSeconds iv > 0 then ret (Inr [from_event event iv])
          else do {
            r \<leftarrow> perform (wh_ListInvoices h (ev_CustomerID event)) (FetchedInvoices (ev_CustomerID event));
            ret (case r of
              Inl e \<Rightarrow> Inl (AmberfloErr (Wrap (''list Amberflo invoices for '' @ ev_CustomerID event @ '': '') e []))
            | Inr ivs \<Rightarrow> Inr ivs)
          }
      | None \<Rightarrow> do {
          r \<leftarrow> perform (wh_ListInvoices h (ev_CustomerID event)) (FetchedInvoices (ev_CustomerID event));
          ret (case r of
            Inl e \<Rightarrow> Inl (AmberfloErr (Wrap (''list Amberflo invoices for '' @ ev_CustomerID event @ '': '') e []))
          | Inr ivs \<Rightarrow> Inr ivs)
        })"

definition resolveInvoices :: "'w webhook_env \<Rightarrow> invoiceReadyEvent
    \<Rightarrow> ('w, webhook_step, rerr + CustomerProductInvoice list) act" where
  "resolveInvoices h event =
     (if key_complete (ev_Key event) then do {
        r \<leftarrow> perform (wh_GetInvoice h (ev_Key event)) (FetchedInvoice (ev_Key event));
        case r of
          Inr iv \<Rightarrow> ret (Inr [iv])
        | Inl e \<Rightarrow>
          if \<not> errors_Is e ErrInvoiceNotFound \<and> \<not> IsPermanent e
          then ret (Inl (AmberfloErr (Wrap (''get Amberflo invoice '' @ FormatInvoiceKey (ev_Key event) @ '': '') e [])))
          else fallback_invoices h event
      }
      else fallback_invoices h event)"

fun sync_each :: "'w webhook_env \<Rightarrow> invoiceReadyEvent \<Rightarrow> BillingAccount \<Rightarrow> CustomerProductInvoice list
    \<Rightarrow> ('w, webhook_step, rerr option) act" where
  "sync_each h event account [] = ret None"
| "sync_each h event account (iv # ivs) = do {
     r \<leftarrow> perform (wh_Upsert h account iv) (SyncedInvoice account iv);
     case r of
       Some e \<Rightarrow> ret (Some (prefix_err (''sync invoice for '' @ ev_CustomerID event @ '': '') e))
     | None \<Rightarrow> sync_each h event account ivs
   }"

definition handle :: "'w webhook_env \<Rightarrow> invoiceReadyEvent \<Rightarrow> ('w, webhook_step, rerr option) act" where
  "handle h event = do {
     r \<leftarrow> lookupBillingAccount h (ev_CustomerID event);
     case r of
       Inl e \<Rightarrow> ret (Some e)
     | Inr None \<Rightarrow> ret None
     | Inr (Some account) \<Rightarrow> do {
         r \<leftarrow> resolveInvoices h event;
         case r of
           Inl e \<Rightarrow> ret (Some e)
         | Inr invoices \<Rightarrow> sync_each h event account invoices
       }
   }"

definition ServeHTTP :: "(float64 \<Rightarrow> int) \<Rightarrow> 'w webhook_env \<Rightarrow> http_req \<Rightarrow> ('w, webhook_step, http_resp) act" where
  "ServeHTTP oob h rq =
     (if hr_Method rq \<noteq> ''POST'' then ret ((http_Error ''method not allowed'' 405)\<lparr>hs_Allow := ''POST''\<rparr>)
      else if \<not> authorize h rq then ret (http_Error ''unauthorized'' 401)
      else case read_body rq of
        None \<Rightarrow> ret (http_Error ''bad request'' 400)
      | Some body \<Rightarrow>
        (case parseInvoiceReadyEvent oob body of
           None \<Rightarrow> ret (http_Error ''bad request'' 400)
         | Some event \<Rightarrow>
           if ev_CustomerID event = [] then ret (http_Error ''customerId required'' 400)
           else do {
             r \<leftarrow> handle h event;
             ret (case r of
               Some e \<Rightarrow> http_Error ''internal error'' 500
             | None \<Rightarrow> \<lparr>hs_Status = 200, hs_Allow = [], hs_Body = ''{\"ok\":true}''\<rparr>)
           }))"

section \<open>Facts\<close>

definition handled :: "invoiceReadyEvent \<Rightarrow> webhook_step list \<Rightarrow> rerr option \<Rightarrow> bool" where
  "handled event es r \<longleftrightarrow>
     (\<forall>a iv x. SyncedInvoice a iv x \<in> set es \<longrightarrow>
        ((\<exists>rest. LookedUp (ev_CustomerID event) (Inr (a # rest)) \<in> set es)
          \<or> ba_UID a = ev_CustomerID event \<and> (\<exists>items. LookedThrough (Inr items) \<in> set es \<and> a \<in> set items))
      \<and> (FetchedInvoice (ev_Key event) (Inr iv) \<in> set es
          \<or> (\<exists>ivs. FetchedInvoices (ev_CustomerID event) (Inr ivs) \<in> set es \<and> iv \<in> set ivs)
          \<or> (\<exists>e. ev_Embedded event = Some e \<and> iv = from_event event e))
      \<and> (x \<noteq> None \<longrightarrow> r \<noteq> None))"

definition synced_each :: "BillingAccount \<Rightarrow> CustomerProductInvoice list \<Rightarrow> webhook_step list \<Rightarrow> rerr option \<Rightarrow> bool" where
  "synced_each a ivs es r \<longleftrightarrow>
     (\<forall>e\<in>set es. \<exists>iv x. e = SyncedInvoice a iv x \<and> iv \<in> set ivs \<and> (x \<noteq> None \<longrightarrow> r \<noteq> None))
   \<and> (r = None \<longrightarrow> es = map (\<lambda>iv. SyncedInvoice a iv None) ivs)"

lemma sync_each_leaves: "leaves (sync_each h event a ivs) (synced_each a ivs)"
proof (induction ivs)
  case Nil
  show ?case by (simp add: leaves_ret synced_each_def)
next
  case (Cons iv ivs)
  have rest: "leaves (sync_each h event a ivs) (\<lambda>es. synced_each a (iv # ivs) (SyncedInvoice a iv x # es))"
    if "x = None" for x
    by (rule leaves_weaken [OF Cons.IH]) (use that in \<open>auto simp: synced_each_def\<close>)
  show ?case unfolding sync_each.simps
    by (intro leaves_perform_bind leaves_option leaves_ret rest) (auto simp: synced_each_def)
qed

text \<open>The account an event is for, and the invoices it is about.\<close>

definition looked_up :: "string \<Rightarrow> webhook_step list \<Rightarrow> rerr + BillingAccount option \<Rightarrow> bool" where
  "looked_up c es r \<longleftrightarrow> (\<forall>a. r = Inr (Some a) \<longrightarrow>
     (\<exists>rest. LookedUp c (Inr (a # rest)) \<in> set es)
     \<or> ba_UID a = c \<and> (\<exists>items. LookedThrough (Inr items) \<in> set es \<and> a \<in> set items))
   \<and> (\<forall>a iv x. SyncedInvoice a iv x \<notin> set es)"

lemma find_uid: "find (\<lambda>a. ba_UID a = c) items = Some a \<Longrightarrow> ba_UID a = c \<and> a \<in> set items"
  by (auto simp: find_Some_iff)

lemma lookup_leaves: "leaves (lookupBillingAccount h c) (looked_up c)"
  unfolding lookupBillingAccount_def
  by (intro leaves_perform_bind leaves_sum leaves_ret)
    (auto simp: looked_up_def dest!: find_uid split: sum.splits if_splits, metis Cons_nth_drop_Suc drop0 gr0I length_greater_0_conv)

definition resolved :: "invoiceReadyEvent \<Rightarrow> webhook_step list \<Rightarrow> rerr + CustomerProductInvoice list \<Rightarrow> bool" where
  "resolved event es r \<longleftrightarrow> (\<forall>ivs. r = Inr ivs \<longrightarrow> (\<forall>iv\<in>set ivs.
       FetchedInvoice (ev_Key event) (Inr iv) \<in> set es
     \<or> (\<exists>ivs. FetchedInvoices (ev_CustomerID event) (Inr ivs) \<in> set es \<and> iv \<in> set ivs)
     \<or> (\<exists>e. ev_Embedded event = Some e \<and> iv = from_event event e)))
   \<and> (\<forall>a iv x. SyncedInvoice a iv x \<notin> set es)"

lemma resolve_leaves: "leaves (resolveInvoices h event) (resolved event)"
  unfolding resolveInvoices_def fallback_invoices_def
  by (intro leaves_if leaves_option leaves_perform_bind leaves_sum leaves_ret)
    (auto simp: resolved_def split: sum.splits)

lemma handle_leaves: "leaves (handle h event) (handled event)"
  unfolding handle_def
proof (rule leaves_bind, rule leaves_weaken [OF lookup_leaves])
  fix es r assume l: "looked_up (ev_CustomerID event) es r"
  have "leaves (State_Monad.bind (resolveInvoices h event) (\<lambda>r. case r of Inl e \<Rightarrow> ret (Some e)
      | Inr invoices \<Rightarrow> sync_each h event a invoices)) (\<lambda>es'. handled event (es @ es'))" if "r = Inr (Some a)" for a
  proof (rule leaves_bind, rule leaves_weaken [OF resolve_leaves])
    fix es' q assume "resolved event es' q"
    with l that show "leaves (case q of Inl e \<Rightarrow> ret (Some e) | Inr invoices \<Rightarrow> sync_each h event a invoices)
        (\<lambda>es''. handled event (es @ es' @ es''))"
      by (intro leaves_sum leaves_ret leaves_weaken [OF sync_each_leaves])
        (fastforce simp: handled_def looked_up_def resolved_def synced_each_def)+
  qed
  with l show "leaves (case r of Inl e \<Rightarrow> ret (Some e) | Inr None \<Rightarrow> ret None
      | Inr (Some account) \<Rightarrow> State_Monad.bind (resolveInvoices h event) (\<lambda>r. case r of Inl e \<Rightarrow> ret (Some e)
          | Inr invoices \<Rightarrow> sync_each h event account invoices)) (\<lambda>es'. handled event (es @ es'))"
    by (auto simp: handled_def looked_up_def split: sum.splits option.splits intro: leaves_ret)
qed

text \<open>An event as Amberflo documents it: the envelope with the customer, the URI and the key.\<close>

definition documented_event :: "string \<Rightarrow> string \<Rightarrow> string \<Rightarrow> InvoiceKey \<Rightarrow> json" where
  "documented_event topic customer uri key = JObj [(''topic'', JStr topic),
     (''data'', JObj [(''customerId'', JStr customer), (''invoiceUri'', JStr uri), (''invoiceKey'', enc_key key)])]"

lemma decode_key_ignoring:
  assumes "in_int64 (ik_Year k)" "in_int64 (ik_Month k)" "in_int64 (ik_Day k)" "enc_key k = JObj ms"
  shows "decode_members key_fields ms zero_key = Some k"
  using assms
  by (auto simp: enc_key_def decode_members_append zero_key_def dec_simps)

lemma ignoring_agrees: "decode_members fs ms r = Some r' \<Longrightarrow> decode_members_ignoring fs ms r = r'"
  by (induction fs ms r rule: decode_members.induct) (auto split: option.splits)

lemma no_such_field: "find_field invoice_fields ''customerId'' = None"
  by code_simp

lemma documented_fields:
  "find_field invoice_fields ''invoiceUri'' = Some (field ci_InvoiceURI (\<lambda>x. ci_InvoiceURI_update (\<lambda>_. x)) dec_string)"
  "find_field invoice_fields ''invoiceKey'' =
     Some (field ci_InvoiceKey (\<lambda>x. ci_InvoiceKey_update (\<lambda>_. x)) (decode_struct key_fields))"
  by (simp_all add: find_field_def invoice_fields_def)

lemma embedded_none:
  assumes "decode_members key_fields ms zero_key = Some k"
  shows "\<exists>iv. decode_struct invoice_fields zero_invoice
      (JObj [(''customerId'', JStr c), (''invoiceUri'', JStr u), (''invoiceKey'', JObj ms)]) = Some iv
    \<and> ci_InvoiceStartTimeInSeconds iv = 0"
  using assms
  by (simp add: decode_struct_def no_such_field documented_fields field_def dec_string_def)
    (simp add: zero_invoice_def)

section \<open>Properties\<close>

text \<open>
  An event of the documented shape is read back: its customer, its URI and its key, whatever
  the key says, also when it names another customer than the event.
\<close>

theorem parseInvoiceReadyEvent_documented:
  assumes "key_complete k" "in_int64 (ik_Year k)" "in_int64 (ik_Month k)" "in_int64 (ik_Day k)"
    and "customer \<noteq> []" "ik_ProductID k \<noteq> []"
  shows "parseInvoiceReadyEvent oob (print (documented_event topic customer uri k))
    = Some \<lparr>ev_CustomerID = customer, ev_InvoiceURI = uri, ev_Key = k, ev_Embedded = None\<rparr>"
proof -
  obtain ms where ms: "enc_key k = JObj ms" by (simp add: enc_key_def)
  note dec = decode_key_ignoring [OF assms(2-4) ms]
  from embedded_none [OF dec] obtain iv where iv: "decode_struct invoice_fields zero_invoice
      (JObj [(''customerId'', JStr customer), (''invoiceUri'', JStr uri), (''invoiceKey'', JObj ms)]) = Some iv"
    "ci_InvoiceStartTimeInSeconds iv = 0" by blast
  define body where "body = print (documented_event topic customer uri k)"
  have parse: "json_parse body = Some (documented_event topic customer uri k)" unfolding body_def
    by (rule json_parse_print) (use enc_key_wf [of k] in \<open>simp add: documented_event_def\<close>)
  have ne: "body \<noteq> []" by (simp add: body_def documented_event_def)
  have key: "ik_CustomerID k \<noteq> []" "ik_ProductPlanID k \<noteq> []" "ik_Year k \<noteq> 0" "ik_Month k \<noteq> 0" "ik_Day k \<noteq> 0"
    using assms(1) by (auto simp: key_complete_def)
  show ?thesis unfolding body_def [symmetric]
    by (simp add: parseInvoiceReadyEvent_def parse ne documented_event_def raw_map_def ms iv parseInvoiceKey_def
        ignoring_agrees [OF dec] key assms(5,6) customer_names_def dec_string_def)
qed


text \<open>
  What an event changes: every invoice that is stored goes to the account found for the event's
  customer, by the index or by a search through all accounts, and is the invoice Amberflo gave for
  the event's key, one of those it lists for the customer, or the one the event brought along.
\<close>

theorem handle_sources:
  assumes "run_state (handle h event) s = (r, s')"
  shows "\<exists>es. ts_log s' = ts_log s @ es \<and> (\<forall>a iv x. SyncedInvoice a iv x \<in> set es \<longrightarrow>
        ((\<exists>rest. LookedUp (ev_CustomerID event) (Inr (a # rest)) \<in> set es)
          \<or> ba_UID a = ev_CustomerID event \<and> (\<exists>items. LookedThrough (Inr items) \<in> set es \<and> a \<in> set items))
      \<and> (FetchedInvoice (ev_Key event) (Inr iv) \<in> set es
          \<or> (\<exists>ivs. FetchedInvoices (ev_CustomerID event) (Inr ivs) \<in> set es \<and> iv \<in> set ivs)
          \<or> (\<exists>e. ev_Embedded event = Some e \<and> iv = from_event event e))
      \<and> (x \<noteq> None \<longrightarrow> r \<noteq> None))"
  using leavesD [OF handle_leaves assms] unfolding handled_def .

definition sample_webhook_env :: "'w webhook_env" where
  "sample_webhook_env = \<lparr>wh_ListByUID = (\<lambda>c. ret (Inr [plain_account ''ns'' ''acme'' c])), wh_ListAccounts = ret (Inr []),
     wh_GetInvoice = (\<lambda>k. ret (Inr zero_invoice)), wh_ListInvoices = (\<lambda>c. ret (Inr [])),
     wh_Upsert = (\<lambda>a iv. ret None), wh_Secret = ''s3cret'', wh_SecretHeader = []\<rparr>"

definition sample_key :: InvoiceKey where
  "sample_key = \<lparr>ik_CustomerID = ''u1'', ik_ProductID = ''1'', ik_ProductPlanID = ''p'', ik_Year = 2026, ik_Month = 3, ik_Day = 1\<rparr>"

theorem parseInvoiceReadyEvent_documented_witness:
  "map_option ev_Key (parseInvoiceReadyEvent (\<lambda>f. 0) (print (documented_event ''ready-product-invoices'' ''u2'' ''s3://i'' sample_key)))
     = Some sample_key"
  by (subst parseInvoiceReadyEvent_documented) (simp_all add: sample_key_def key_complete_def in_int64_def)


theorem handle_sources_witness:
  "\<exists>es. ts_log (snd (run_state (handle sample_webhook_env \<lparr>ev_CustomerID = ''u1'', ev_InvoiceURI = [], ev_Key = sample_key,
      ev_Embedded = None\<rparr>) \<lparr>ts_world = (), ts_log = []\<rparr>)) = es
     \<and> SyncedInvoice (plain_account ''ns'' ''acme'' ''u1'') zero_invoice None \<in> set es
     \<and> FetchedInvoice sample_key (Inr zero_invoice) \<in> set es"
proof -
  let ?ev = "\<lparr>ev_CustomerID = ''u1'', ev_InvoiceURI = [], ev_Key = sample_key, ev_Embedded = None\<rparr>"
  let ?s = "\<lparr>ts_world = (), ts_log = []\<rparr> :: (unit, webhook_step) traced_state"
  let ?run = "run_state (handle sample_webhook_env ?ev) ?s"
  have "ts_log (snd ?run) = [LookedUp ''u1'' (Inr [plain_account ''ns'' ''acme'' ''u1'']),
      FetchedInvoice sample_key (Inr zero_invoice), SyncedInvoice (plain_account ''ns'' ''acme'' ''u1'') zero_invoice None]"
    by (simp add: handle_def lookupBillingAccount_def resolveInvoices_def run_simps sample_webhook_env_def sample_key_def
        key_complete_def)
  with handle_sources [OF surjective_pairing, of sample_webhook_env ?ev ?s] show ?thesis by auto
qed

end
