(* ===== verification/Instrument.thy ===== *)
theory Instrument
  imports Customer CustomerPlan PaymentSwitch Meter PlanOps InvoiceApi Kube
begin

text \<open>
  The Client interface of internal/amberflo/client.go, its implementation by the operations over HTTP,
  and the wrapper of internal/amberflo/metrics.go that counts and times every call.  The trace of the
  world holds the calls the Prometheus instruments were told of; the elapsed time is left out.
\<close>

section \<open>The interface\<close>

record 'w Client =
  op_EnsureCustomer :: "DesiredCustomer \<Rightarrow> ('w, goerr + Customer) io"
  op_DisableCustomer :: "string \<Rightarrow> ('w, goerr option) io"
  op_GetCustomer :: "string \<Rightarrow> ('w, goerr + Customer) io"
  op_EnsureMeter :: "DesiredMeter \<Rightarrow> ('w, goerr + Meter) io"
  op_DeleteMeter :: "string \<Rightarrow> string \<Rightarrow> ('w, goerr option) io"
  op_GetMeter :: "string \<Rightarrow> ('w, goerr + Meter) io"
  op_GetMeterByLabel :: "string \<Rightarrow> ('w, goerr + Meter) io"
  op_SubmitUsage :: "UsageRecord list \<Rightarrow> ('w, goerr option) io"
  op_ListInvoices :: "string \<Rightarrow> ('w, goerr + CustomerProductInvoice list) io"
  op_GetLatestInvoice :: "string \<Rightarrow> ('w, goerr + CustomerProductInvoice) io"
  op_GetInvoice :: "InvoiceKey \<Rightarrow> ('w, goerr + CustomerProductInvoice) io"
  op_ListPaymentSettings :: "('w, goerr + PaymentSetting list) io"
  op_ListPaymentMethodSwitches :: "string \<Rightarrow> ('w, goerr + PaymentMethodSwitch list) io"
  op_SchedulePaymentMethodSwitch :: "PaymentMethodSwitch \<Rightarrow> ('w, goerr + PaymentMethodSwitch) io"
  op_EnsureProductPlan :: "DesiredProductPlan \<Rightarrow> ('w, goerr + ProductPlan) io"
  op_DeleteProductPlan :: "string \<Rightarrow> ('w, goerr option) io"
  op_GetProductPlan :: "string \<Rightarrow> ('w, goerr + ProductPlan) io"
  op_EnsureCustomerPlan :: "DesiredCustomerPlan \<Rightarrow> ('w, goerr + CustomerPlan) io"
  op_CancelCustomerPlan :: "string \<Rightarrow> string \<Rightarrow> ('w, goerr option) io"
  op_ListCustomerPlans :: "string \<Rightarrow> ('w, goerr + CustomerPlan list) io"

text \<open>One call the instruments were told of: the operation, its status and its status class.\<close>

datatype call_metric = RecordedOp string string string

definition recordOp :: "string \<Rightarrow> goerr option \<Rightarrow> ('w, call_metric, unit) act" where
  "recordOp op err = (case classifyForMetrics err of (status, cls) \<Rightarrow> remark (RecordedOp op status cls))"

text \<open>A call of the wrapped client, without and with its record.\<close>

definition unmetered :: "('w, 'a) io \<Rightarrow> ('w, call_metric, 'a) act" where
  "unmetered m = State (\<lambda>s. case run_state m (ts_world s) of (x, w) \<Rightarrow> (x, s\<lparr>ts_world := w\<rparr>))"

definition forward_err :: "string \<Rightarrow> ('w, call_metric, goerr option) act \<Rightarrow> ('w, call_metric, goerr option) act" where
  "forward_err op m = do { err \<leftarrow> m; recordOp op err; ret err }"

definition forward :: "string \<Rightarrow> ('w, call_metric, goerr + 'a) act \<Rightarrow> ('w, call_metric, goerr + 'a) act" where
  "forward op m = do {
     r \<leftarrow> m;
     recordOp op (case r of Inl e \<Rightarrow> Some e | Inr x \<Rightarrow> None);
     ret r
   }"

text \<open>A client value is a plain implementation or a wrapper around one.\<close>

datatype 'w client_value =
    Direct "('w, call_metric) traced_state Client"
  | InstrumentedClient "('w, call_metric) traced_state Client"

definition NewInstrumentedClient :: "'w client_value \<Rightarrow> 'w client_value" where
  "NewInstrumentedClient c = (case c of InstrumentedClient ic \<Rightarrow> c | Direct ops \<Rightarrow> InstrumentedClient ops)"

fun methods :: "'w client_value \<Rightarrow> ('w, call_metric) traced_state Client" where
  "methods (Direct c) = c"
| "methods (InstrumentedClient c) =
     \<lparr>op_EnsureCustomer = (\<lambda>x. forward ''EnsureCustomer'' (op_EnsureCustomer c x)),
      op_DisableCustomer = (\<lambda>x. forward_err ''DisableCustomer'' (op_DisableCustomer c x)),
      op_GetCustomer = (\<lambda>x. forward ''GetCustomer'' (op_GetCustomer c x)),
      op_EnsureMeter = (\<lambda>x. forward ''EnsureMeter'' (op_EnsureMeter c x)),
      op_DeleteMeter = (\<lambda>x y. forward_err ''DeleteMeter'' (op_DeleteMeter c x y)),
      op_GetMeter = (\<lambda>x. forward ''GetMeter'' (op_GetMeter c x)),
      op_GetMeterByLabel = (\<lambda>x. forward ''GetMeterByLabel'' (op_GetMeterByLabel c x)),
      op_SubmitUsage = (\<lambda>x. forward_err ''SubmitUsage'' (op_SubmitUsage c x)),
      op_ListInvoices = (\<lambda>x. forward ''ListInvoices'' (op_ListInvoices c x)),
      op_GetLatestInvoice = (\<lambda>x. forward ''GetLatestInvoice'' (op_GetLatestInvoice c x)),
      op_GetInvoice = (\<lambda>x. forward ''GetInvoice'' (op_GetInvoice c x)),
      op_ListPaymentSettings = forward ''ListPaymentSettings'' (op_ListPaymentSettings c),
      op_ListPaymentMethodSwitches = (\<lambda>x. forward ''ListPaymentMethodSwitches'' (op_ListPaymentMethodSwitches c x)),
      op_SchedulePaymentMethodSwitch = (\<lambda>x. forward ''SchedulePaymentMethodSwitch'' (op_SchedulePaymentMethodSwitch c x)),
      op_EnsureProductPlan = (\<lambda>x. forward ''EnsureProductPlan'' (op_EnsureProductPlan c x)),
      op_DeleteProductPlan = (\<lambda>x. forward_err ''DeleteProductPlan'' (op_DeleteProductPlan c x)),
      op_GetProductPlan = (\<lambda>x. forward ''GetProductPlan'' (op_GetProductPlan c x)),
      op_EnsureCustomerPlan = (\<lambda>x. forward ''EnsureCustomerPlan'' (op_EnsureCustomerPlan c x)),
      op_CancelCustomerPlan = (\<lambda>x y. forward_err ''CancelCustomerPlan'' (op_CancelCustomerPlan c x y)),
      op_ListCustomerPlans = (\<lambda>x. forward ''ListCustomerPlans'' (op_ListCustomerPlans c x))\<rparr>"

text \<open>The implementation over HTTP.\<close>

definition http_client :: "'w client \<Rightarrow> 'w net client_value" where
  "http_client c = Direct
     \<lparr>op_EnsureCustomer = (\<lambda>x. unmetered (EnsureCustomer c x)),
      op_DisableCustomer = (\<lambda>x. unmetered (DisableCustomer c x)),
      op_GetCustomer = (\<lambda>x. unmetered (GetCustomer c x)),
      op_EnsureMeter = (\<lambda>x. unmetered (EnsureMeter c x)),
      op_DeleteMeter = (\<lambda>x y. unmetered (DeleteMeter c x y)),
      op_GetMeter = (\<lambda>x. unmetered (GetMeter c x)),
      op_GetMeterByLabel = (\<lambda>x. unmetered (GetMeterByLabel c x)),
      op_SubmitUsage = (\<lambda>x. unmetered (SubmitUsage c x)),
      op_ListInvoices = (\<lambda>x. unmetered (ListInvoices c x)),
      op_GetLatestInvoice = (\<lambda>x. unmetered (GetLatestInvoice c x)),
      op_GetInvoice = (\<lambda>x. unmetered (GetInvoice c x)),
      op_ListPaymentSettings = unmetered (ListPaymentSettings c),
      op_ListPaymentMethodSwitches = (\<lambda>x. unmetered (ListPaymentMethodSwitches c x)),
      op_SchedulePaymentMethodSwitch = (\<lambda>x. unmetered (SchedulePaymentMethodSwitch c x)),
      op_EnsureProductPlan = (\<lambda>x. unmetered (EnsureProductPlan c x)),
      op_DeleteProductPlan = (\<lambda>x. unmetered (DeleteProductPlan c x)),
      op_GetProductPlan = (\<lambda>x. unmetered (GetProductPlan c x)),
      op_EnsureCustomerPlan = (\<lambda>x. unmetered (EnsureCustomerPlan c x)),
      op_CancelCustomerPlan = (\<lambda>x y. unmetered (CancelCustomerPlan c x y)),
      op_ListCustomerPlans = (\<lambda>x. unmetered (ListCustomerPlans c x))\<rparr>"

section \<open>Facts\<close>

lemma run_unmetered [run_simps]:
  "run_state (unmetered m) s = (case run_state m (ts_world s) of (x, w) \<Rightarrow> (x, s\<lparr>ts_world := w\<rparr>))"
  by (simp add: unmetered_def)

lemma run_forward:
  "run_state (forward op m) s = (case run_state m s of (r, t) \<Rightarrow>
     (r, t\<lparr>ts_log := ts_log t @ [RecordedOp op (fst (classifyForMetrics (case r of Inl e \<Rightarrow> Some e | Inr x \<Rightarrow> None)))
        (snd (classifyForMetrics (case r of Inl e \<Rightarrow> Some e | Inr x \<Rightarrow> None)))]\<rparr>))"
  by (simp add: forward_def recordOp_def run_simps case_prod_beta)

lemma run_forward_err:
  "run_state (forward_err op m) s = (case run_state m s of (e, t) \<Rightarrow>
     (e, t\<lparr>ts_log := ts_log t @ [RecordedOp op (fst (classifyForMetrics e)) (snd (classifyForMetrics e))]\<rparr>))"
  by (simp add: forward_err_def recordOp_def run_simps case_prod_beta)

lemma never_counted_twice: "NewInstrumentedClient (NewInstrumentedClient c) = NewInstrumentedClient c"
  by (cases c) (simp_all add: NewInstrumentedClient_def)

end
