(* ===== verification/Bootstrap.thy ===== *)
theory Bootstrap
  imports AccountController MeterController OfferController EntitlementController Webhook Submission
    InvoiceSync Instrument
begin

text \<open>
  internal/config/config.go and the two programs under cmd/: the configuration with its defaults, the
  options of the servers, the credentials, and how the programs put the reconcilers, the webhook
  handler and the submission consumer together.  Files, the environment and the temporary directory
  are parameters; decoding the YAML file, the manager and the Kubernetes clients are left out.  The
  certificates are those of the theory ServingCerts.
\<close>

section \<open>Configuration\<close>

record TLSConfig =
  tl_SecretRef :: "(string \<times> string) option"
  tl_CertDir :: string
  tl_CertName :: string
  tl_KeyName :: string

record WebhookServerConfig =
  ws_Host :: string
  ws_Port :: int
  ws_TLS :: TLSConfig
  ws_ClientCAName :: string

record MetricsServerConfig =
  mt_SecureServing :: "bool option"
  mt_BindAddress :: string
  mt_TLS :: TLSConfig

record NATSConfig =
  na_URL :: string
  na_CAFile :: string
  na_CertFile :: string
  na_KeyFile :: string

record AmberfloProvider =
  ap_MetricsServer :: MetricsServerConfig
  ap_WebhookServer :: "WebhookServerConfig option"
  ap_KubeconfigPath :: string
  ap_AmberfloBaseURL :: string
  ap_AmberfloAPIKeyPath :: string
  ap_AmberfloWebhookSigningSecretPath :: string
  ap_AmberfloWebhookSecretHeader :: string
  ap_AmberfloStripePaymentSettingID :: string
  ap_AmberfloPaymentSwitchMinFutureSkew :: int
  ap_AmberfloRateLimitPerSec :: int
  ap_AllowCustomerDelete :: bool
  ap_SubmissionBatchSize :: int
  ap_SubmissionRetryAfter :: int
  ap_SubmissionAckWait :: int
  ap_SubmissionFetchTimeout :: int
  ap_Nats :: NATSConfig

definition or_text :: "string \<Rightarrow> string \<Rightarrow> string" where
  "or_text s d = (if s = [] then d else s)"

definition or_int :: "int \<Rightarrow> int \<Rightarrow> int" where
  "or_int n d = (if n = 0 then d else n)"

definition SetDefaults_AmberfloProvider :: "AmberfloProvider \<Rightarrow> AmberfloProvider" where
  "SetDefaults_AmberfloProvider obj = obj
     \<lparr>ap_AmberfloBaseURL := or_text (ap_AmberfloBaseURL obj) ''https://app.amberflo.io'',
      ap_AmberfloAPIKeyPath := or_text (ap_AmberfloAPIKeyPath obj) ''/var/run/secrets/amberflo/api-key'',
      ap_AmberfloWebhookSigningSecretPath :=
        or_text (ap_AmberfloWebhookSigningSecretPath obj) ''/var/run/secrets/amberflo/webhook-signing-secret'',
      ap_AmberfloWebhookSecretHeader := or_text (ap_AmberfloWebhookSecretHeader obj) ''X-Auth'',
      ap_AmberfloPaymentSwitchMinFutureSkew := or_int (ap_AmberfloPaymentSwitchMinFutureSkew obj) (60 * second),
      ap_AmberfloRateLimitPerSec := or_int (ap_AmberfloRateLimitPerSec obj) 10,
      ap_SubmissionBatchSize := or_int (ap_SubmissionBatchSize obj) 10,
      ap_SubmissionRetryAfter := or_int (ap_SubmissionRetryAfter obj) (5 * second),
      ap_SubmissionAckWait := or_int (ap_SubmissionAckWait obj) (30 * second),
      ap_SubmissionFetchTimeout := or_int (ap_SubmissionFetchTimeout obj) (5 * second)\<rparr>"

text \<open>\<open>dirs name\<close> is the directory for serving certificates under the temporary directory.\<close>

definition SetDefaults_WebhookServerConfig :: "(string \<Rightarrow> string) \<Rightarrow> WebhookServerConfig \<Rightarrow> WebhookServerConfig" where
  "SetDefaults_WebhookServerConfig dirs obj = obj\<lparr>ws_TLS := (ws_TLS obj)
     \<lparr>tl_CertDir := or_text (tl_CertDir (ws_TLS obj)) (dirs ''k8s-webhook-server'')\<rparr>\<rparr>"

definition SetDefaults_MetricsServerConfig :: "(string \<Rightarrow> string) \<Rightarrow> MetricsServerConfig \<Rightarrow> MetricsServerConfig" where
  "SetDefaults_MetricsServerConfig dirs obj = obj
     \<lparr>mt_SecureServing := (if mt_SecureServing obj = None then Some True else mt_SecureServing obj),
      mt_BindAddress := or_text (mt_BindAddress obj) ''0'',
      mt_TLS := (mt_TLS obj)\<lparr>tl_CertDir := or_text (tl_CertDir (mt_TLS obj)) (dirs ''k8s-metrics-server'')\<rparr>\<rparr>"

definition SetDefaults_TLSConfig :: "TLSConfig \<Rightarrow> TLSConfig" where
  "SetDefaults_TLSConfig obj = obj\<lparr>tl_CertName := or_text (tl_CertName obj) ''tls.crt'',
     tl_KeyName := or_text (tl_KeyName obj) ''tls.key''\<rparr>"

definition SetObjectDefaults :: "(string \<Rightarrow> string) \<Rightarrow> AmberfloProvider \<Rightarrow> AmberfloProvider" where
  "SetObjectDefaults dirs obj =
     (let c = SetDefaults_AmberfloProvider obj;
          m = SetDefaults_MetricsServerConfig dirs (ap_MetricsServer c);
          c = c\<lparr>ap_MetricsServer := m\<lparr>mt_TLS := SetDefaults_TLSConfig (mt_TLS m)\<rparr>\<rparr>
      in case ap_WebhookServer c of
           None \<Rightarrow> c
         | Some w \<Rightarrow> (let w = SetDefaults_WebhookServerConfig dirs w
             in c\<lparr>ap_WebhookServer := Some (w\<lparr>ws_TLS := SetDefaults_TLSConfig (ws_TLS w)\<rparr>)\<rparr>))"

text \<open>The control plane to connect to: the kubeconfig file that is named, else the standard resolution.\<close>

definition RestConfig :: "string + 'cfg \<Rightarrow> (string \<Rightarrow> string + 'cfg) \<Rightarrow> AmberfloProvider \<Rightarrow> string + 'cfg" where
  "RestConfig GetConfig BuildConfigFromFlags c =
     (if ap_KubeconfigPath c = [] then GetConfig else BuildConfigFromFlags (ap_KubeconfigPath c))"

section \<open>Options of the servers\<close>

text \<open>Where the serving certificate comes from: a secret read at each handshake, files, or a
  certificate made at the start.\<close>

datatype certificate_source = FromSecret "string \<times> string" | FromDirectory | SelfSigned

record webhook_options =
  wo_Host :: string
  wo_Port :: int
  wo_CertDir :: string
  wo_CertName :: string
  wo_KeyName :: string
  wo_Certificate :: certificate_source

definition webhookCertFilesExist :: "(string \<Rightarrow> string \<Rightarrow> bool) \<Rightarrow> string \<Rightarrow> string \<Rightarrow> string \<Rightarrow> bool" where
  "webhookCertFilesExist there dir certName keyName \<longleftrightarrow>
     (if dir = [] \<or> certName = [] \<or> keyName = [] then False else there dir certName \<and> there dir keyName)"

definition WebhookServerConfig_Options :: "(string \<Rightarrow> string \<Rightarrow> bool) \<Rightarrow> WebhookServerConfig \<Rightarrow> webhook_options" where
  "WebhookServerConfig_Options there c =
     (let t = ws_TLS c;
          opts = \<lparr>wo_Host = ws_Host c, wo_Port = ws_Port c, wo_CertDir = [], wo_CertName = tl_CertName t,
            wo_KeyName = tl_KeyName t, wo_Certificate = SelfSigned\<rparr>
      in case tl_SecretRef t of
           Some ref \<Rightarrow> opts\<lparr>wo_Certificate := FromSecret ref\<rparr>
         | None \<Rightarrow>
           if tl_CertDir t \<noteq> [] \<and> webhookCertFilesExist there (tl_CertDir t) (tl_CertName t) (tl_KeyName t)
           then opts\<lparr>wo_CertDir := tl_CertDir t, wo_Certificate := FromDirectory\<rparr>
           else opts)"

text \<open>The metrics endpoint asks the local cluster who may scrape it, when its configuration is known.\<close>

datatype scrape_filter = NoFilter | AskCluster "string option"

record metrics_options =
  mo_SecureServing :: bool
  mo_BindAddress :: string
  mo_CertDir :: string
  mo_CertName :: string
  mo_KeyName :: string
  mo_Filter :: scrape_filter
  mo_Secret :: "(string \<times> string) option"

definition MetricsServerConfig_Options :: "string option \<Rightarrow> MetricsServerConfig \<Rightarrow> metrics_options" where
  "MetricsServerConfig_Options authConfig c =
     (let secureServing = (mt_SecureServing c = Some True); t = mt_TLS c
      in \<lparr>mo_SecureServing = secureServing, mo_BindAddress = mt_BindAddress c, mo_CertDir = tl_CertDir t,
          mo_CertName = tl_CertName t, mo_KeyName = tl_KeyName t,
          mo_Filter = (if secureServing then AskCluster authConfig else NoFilter), mo_Secret = tl_SecretRef t\<rparr>)"

section \<open>Credentials\<close>

datatype file_read = FileBytes string | FileAbsent | FileError string

definition loadSecretValue :: "(string \<Rightarrow> file_read) \<Rightarrow> string \<Rightarrow> string \<Rightarrow> string \<Rightarrow> string \<Rightarrow> string + string \<times> string" where
  "loadSecretValue files path envValue envName label =
     (let envKey = trim_space envValue;
          from_env = (if envKey \<noteq> [] then Inr (envKey, ''env:'' @ envName)
            else Inl (''no '' @ label @ '' available: set server-config path to a readable file or export '' @ envName))
      in if path = [] then from_env
         else case files path of
           FileBytes raw \<Rightarrow>
             (let key = trim_space raw
              in if key = [] then Inl (print_str path @ '' contains no '' @ label @ '' after trimming whitespace'')
                 else Inr (key, ''file:'' @ path))
         | FileAbsent \<Rightarrow> from_env
         | FileError e \<Rightarrow> Inl (''read '' @ print_str path @ '': '' @ e))"

definition loadAPIKey :: "(string \<Rightarrow> file_read) \<Rightarrow> string \<Rightarrow> string \<Rightarrow> string + string \<times> string" where
  "loadAPIKey files path envValue = loadSecretValue files path envValue ''AMBERFLO_API_KEY'' ''Amberflo API key''"

definition loadWebhookSecret :: "(string \<Rightarrow> file_read) \<Rightarrow> string \<Rightarrow> string \<Rightarrow> string + string \<times> string" where
  "loadWebhookSecret files path envValue =
     loadSecretValue files path envValue ''AMBERFLO_WEBHOOK_SECRET'' ''Amberflo webhook signing secret''"

text \<open>The submission consumer has a loader of its own, with the same precedence.\<close>

definition loadAPIKey_consumer :: "(string \<Rightarrow> file_read) \<Rightarrow> string \<Rightarrow> string \<Rightarrow> string + string \<times> string" where
  "loadAPIKey_consumer files path envValue =
     (let envKey = trim_space envValue;
          from_env = (if envKey \<noteq> [] then Inr (envKey, ''env:AMBERFLO_API_KEY'')
            else Inl (''no Amberflo API key available: set server-config.amberfloAPIKeyPath to a ''
              @ ''readable file or export AMBERFLO_API_KEY''))
      in if path = [] then from_env
         else case files path of
           FileBytes raw \<Rightarrow>
             (let key = trim_space raw
              in if key = [] then Inl (print_str path @ '' contains no API key after trimming whitespace'')
                 else Inr (key, ''file:'' @ path))
         | FileAbsent \<Rightarrow> from_env
         | FileError e \<Rightarrow> Inl (''read '' @ print_str path @ '': '' @ e))"

definition keyFingerprint :: "string \<Rightarrow> string" where
  "keyFingerprint key = take 8 (hex_bytes (sha256 key))"

section \<open>Putting the programs together\<close>

text \<open>The client both programs build, with the name they send.\<close>

definition client_options :: "AmberfloProvider \<Rightarrow> string \<Rightarrow> string \<Rightarrow> ClientOptions" where
  "client_options cfg apiKey agent = \<lparr>op_APIKey = apiKey, op_BaseURL = ap_AmberfloBaseURL cfg, op_UserAgent = agent,
     op_RetryAttempts = 0, op_RateLimitPerSec = ap_AmberfloRateLimitPerSec cfg\<rparr>"

definition start_client :: "(string \<Rightarrow> file_read) \<Rightarrow> (string \<Rightarrow> (string \<times> string) option) \<Rightarrow> 'w client
    \<Rightarrow> AmberfloProvider \<Rightarrow> string \<Rightarrow> string \<Rightarrow> goerr + 'w net client_value" where
  "start_client files parse_url net cfg envKey agent =
     (case loadAPIKey files (ap_AmberfloAPIKeyPath cfg) envKey of
        Inl e \<Rightarrow> Inl (Plain e)
      | Inr (apiKey, source) \<Rightarrow>
        (case NewClient parse_url net (client_options cfg apiKey agent) of
           Inl e \<Rightarrow> Inl e
         | Inr c \<Rightarrow> Inr (NewInstrumentedClient (http_client c))))"

text \<open>What the programs run on: the world behind the HTTP exchanges, and what the instruments were told.\<close>

type_synonym 'w sys = "('w net, call_metric) traced_state"

text \<open>The reconcilers and the webhook handler get the client's operations; the invoice syncer keeps a
  trace of its own, which they do not see.\<close>

definition untraced :: "('w, 'e, 'a) act \<Rightarrow> ('w, 'a) io" where
  "untraced m = State (\<lambda>w. case run_state m \<lparr>ts_world = w, ts_log = []\<rparr> of (x, t) \<Rightarrow> (x, ts_world t))"

definition account_reconciler :: "AmberfloProvider \<Rightarrow> 'w net client_value \<Rightarrow> 'w sys invoice_api
    \<Rightarrow> 'w sys account_env \<Rightarrow> 'w sys account_env" where
  "account_reconciler cfg c syncer env = env
     \<lparr>env_GetCustomer := op_GetCustomer (methods c), env_EnsureCustomer := op_EnsureCustomer (methods c), env_DisableCustomer := op_DisableCustomer (methods c),
      env_ListPaymentSettings := op_ListPaymentSettings (methods c), env_ListPaymentMethodSwitches := op_ListPaymentMethodSwitches (methods c),
      env_SchedulePaymentMethodSwitch := op_SchedulePaymentMethodSwitch (methods c), env_ListInvoices := op_ListInvoices (methods c),
      env_UpsertInvoice := (\<lambda>a iv. untraced (Upsert syncer (Some a) iv)),
      env_AllowCustomerDelete := ap_AllowCustomerDelete cfg, env_HasInvoiceSyncer := True,
      env_StripePaymentSettingID := ap_AmberfloStripePaymentSettingID cfg,
      env_PaymentSwitchMinFutureSkew := ap_AmberfloPaymentSwitchMinFutureSkew cfg\<rparr>"

definition meter_reconciler :: "'w net client_value \<Rightarrow> 'w sys meter_env \<Rightarrow> 'w sys meter_env" where
  "meter_reconciler c env = env\<lparr>mv_EnsureMeter := op_EnsureMeter (methods c), mv_DeleteMeter := op_DeleteMeter (methods c)\<rparr>"

definition offer_reconciler :: "'w net client_value \<Rightarrow> 'w sys offer_env \<Rightarrow> 'w sys offer_env" where
  "offer_reconciler c env = env\<lparr>ov_EnsureProductPlan := op_EnsureProductPlan (methods c), ov_DeleteProductPlan := op_DeleteProductPlan (methods c)\<rparr>"

definition entitlement_reconciler :: "'w net client_value \<Rightarrow> 'w sys entitlement_env \<Rightarrow> 'w sys entitlement_env" where
  "entitlement_reconciler c env = env\<lparr>nv_GetProductPlan := op_GetProductPlan (methods c),
     nv_CancelCustomerPlan := op_CancelCustomerPlan (methods c), nv_EnsureCustomerPlan := op_EnsureCustomerPlan (methods c)\<rparr>"

text \<open>The webhook handler is registered when the webhook server is configured and its secret loads.\<close>

definition webhook_handler :: "(string \<Rightarrow> file_read) \<Rightarrow> AmberfloProvider \<Rightarrow> string \<Rightarrow> 'w net client_value
    \<Rightarrow> 'w sys invoice_api \<Rightarrow> 'w sys webhook_env \<Rightarrow> 'w sys webhook_env option" where
  "webhook_handler files cfg envSecret c syncer env =
     (case ap_WebhookServer cfg of
        None \<Rightarrow> None
      | Some w \<Rightarrow>
        (case loadWebhookSecret files (ap_AmberfloWebhookSigningSecretPath cfg) envSecret of
           Inl e \<Rightarrow> None
         | Inr (secret, source) \<Rightarrow>
             Some (env\<lparr>wh_GetInvoice := op_GetInvoice (methods c), wh_ListInvoices := op_ListInvoices (methods c),
               wh_Upsert := (\<lambda>a iv. untraced (Upsert syncer (Some a) iv)),
               wh_Secret := secret, wh_SecretHeader := ap_AmberfloWebhookSecretHeader cfg\<rparr>)))"

text \<open>The consumer of the other program, and its run with the client.\<close>

definition submission_consumer :: "AmberfloProvider \<Rightarrow> ('v, 'x, 'u) consumer \<Rightarrow> ('v, 'x, 'u) consumer option" where
  "submission_consumer cfg env =
     (if na_URL (ap_Nats cfg) = [] then None
      else Some (env\<lparr>sc_FetchBatch := ap_SubmissionBatchSize cfg, sc_RetryAfter := ap_SubmissionRetryAfter cfg,
        sc_AckWait := ap_SubmissionAckWait cfg, sc_FetchTimeout := ap_SubmissionFetchTimeout cfg\<rparr>))"

definition run_consumer :: "AmberfloProvider \<Rightarrow> 'w net client_value \<Rightarrow> ('v, 'x, 'u) consumer \<Rightarrow> bool \<Rightarrow> string option
    \<Rightarrow> string option \<Rightarrow> fetch list \<Rightarrow> ('w sys, step, string option) act" where
  "run_consumer cfg c env synced js_err cons_err fs =
     (case submission_consumer cfg env of
        None \<Rightarrow> ret (Some ''NATS URL must be configured'')
      | Some sc \<Rightarrow> Start sc synced js_err cons_err (op_SubmitUsage (methods c)) fs)"

text \<open>The options of the NATS connection.\<close>

datatype nats_option = Name string | RootCAs string | ClientCert string string

definition connectNATS_options :: "NATSConfig \<Rightarrow> nats_option list" where
  "connectNATS_options cfg = [Name ''submission-consumer'']
     @ (if na_CAFile cfg \<noteq> [] \<or> na_CertFile cfg \<noteq> [] \<or> na_KeyFile cfg \<noteq> []
        then [RootCAs (na_CAFile cfg), ClientCert (na_CertFile cfg) (na_KeyFile cfg)] else [])"

section \<open>Facts\<close>

lemma trim_by_fix: "find (\<lambda>p. p \<noteq> [] \<and> prefix p (trim_by ps s)) ps = None"
proof (induction ps s rule: trim_by.induct)
  case (1 ps s)
  show ?case
  proof (cases "find (\<lambda>p. p \<noteq> [] \<and> prefix p s) ps")
    case None
    then show ?thesis by (simp add: trim_by.simps)
  next
    case (Some p)
    from 1 [OF this] Some show ?thesis by (simp add: trim_by.simps [of ps s])
  qed
qed

lemma trim_by_idem: "find (\<lambda>p. p \<noteq> [] \<and> prefix p s) ps = None \<Longrightarrow> trim_by ps s = s"
  by (simp add: trim_by.simps)

lemma trim_space_idem: "trim_space (trim_space s) = trim_space s"
proof -
  let ?l = "trim_by space_runes s" and ?rear = "map rev space_runes"
  let ?r = "trim_by ?rear (rev ?l)"
  obtain q where "rev ?l = q @ ?r" using trim_by_suffix by blast
  then have l: "?l = rev ?r @ rev q" by (metis rev_append rev_rev_ident)
  have "\<not> (p \<noteq> [] \<and> prefix p (rev ?r))" if "p \<in> set space_runes" for p
  proof
    assume p: "p \<noteq> [] \<and> prefix p (rev ?r)"
    then have "prefix p (rev ?r @ rev q)" by (metis prefix_prefix)
    then have "prefix p ?l" using l by metis
    with trim_by_fix [of space_runes s] that p show False by (auto simp: find_None_iff)
  qed
  then have "trim_by space_runes (rev ?r) = rev ?r" by (intro trim_by_idem) (auto simp: find_None_iff)
  moreover have "trim_by ?rear ?r = ?r" by (intro trim_by_idem trim_by_fix)
  ultimately show ?thesis by (simp add: trim_space_def)
qed

lemma or_idem [simp]: "or_text (or_text s d) d = or_text s d" "or_int (or_int n k) k = or_int n k"
  by (simp_all add: or_text_def or_int_def)

text \<open>Where a secret comes from: the file if it is there, else the environment.\<close>

definition secret_text :: "(string \<Rightarrow> file_read) \<Rightarrow> string \<Rightarrow> string \<Rightarrow> string option" where
  "secret_text files path envValue =
     (if path = [] then Some envValue
      else case files path of FileBytes raw \<Rightarrow> Some raw | FileAbsent \<Rightarrow> Some envValue | FileError e \<Rightarrow> None)"

lemma loadSecretValue_iff:
  "(\<exists>src. loadSecretValue files path envValue envName label = Inr (key, src)) \<longleftrightarrow>
     (\<exists>raw. secret_text files path envValue = Some raw \<and> key = trim_space raw \<and> key \<noteq> [])"
  by (auto simp: loadSecretValue_def secret_text_def Let_def split: file_read.splits)

lemma or_text_ne [simp]: "d \<noteq> [] \<Longrightarrow> or_text s d \<noteq> []"
  by (simp add: or_text_def)

section \<open>Properties\<close>

text \<open>
  Applying the defaults twice changes nothing more, and afterwards the provider has a base URL,
  a key path and a secret header, the intervals and sizes are not zero, and the certificate files
  have names.
\<close>

theorem SetObjectDefaults_settles:
  "SetObjectDefaults dirs (SetObjectDefaults dirs c) = SetObjectDefaults dirs c
   \<and> (let d = SetObjectDefaults dirs c in
        ap_AmberfloBaseURL d \<noteq> [] \<and> ap_AmberfloAPIKeyPath d \<noteq> [] \<and> ap_AmberfloWebhookSecretHeader d \<noteq> []
      \<and> ap_SubmissionBatchSize d \<noteq> 0 \<and> ap_AmberfloRateLimitPerSec d \<noteq> 0 \<and> ap_AmberfloPaymentSwitchMinFutureSkew d \<noteq> 0
      \<and> mt_SecureServing (ap_MetricsServer d) \<noteq> None \<and> tl_CertName (mt_TLS (ap_MetricsServer d)) \<noteq> []
      \<and> ap_AllowCustomerDelete d = ap_AllowCustomerDelete c \<and> ap_Nats d = ap_Nats c
      \<and> (ap_WebhookServer d = None \<longleftrightarrow> ap_WebhookServer c = None))"
  by (cases "ap_WebhookServer c")
    (auto simp: SetObjectDefaults_def SetDefaults_AmberfloProvider_def SetDefaults_MetricsServerConfig_def
      SetDefaults_WebhookServerConfig_def SetDefaults_TLSConfig_def Let_def or_int_def)

text \<open>
  C37.  Who the running provider listens to: with the defaults applied, the webhook handler exists
  exactly when its server is configured and the mounted file, or without a file the environment
  variable, holds a secret; and it then accepts a request exactly when the configured header
  carries that secret, both up to surrounding white space.
\<close>

theorem webhook_handler_accepts:
  assumes "r = webhook_handler files (SetObjectDefaults dirs c) envSecret cl syncer env"
    and "secret = secret_text files (ap_AmberfloWebhookSigningSecretPath (SetObjectDefaults dirs c)) envSecret"
  shows "(r \<noteq> None \<longleftrightarrow> ap_WebhookServer c \<noteq> None \<and> (\<exists>raw. secret = Some raw \<and> trim_space raw \<noteq> []))
    \<and> (\<forall>h rq. r = Some h \<longrightarrow> (authorize h rq \<longleftrightarrow> (\<exists>raw. secret = Some raw
         \<and> trim_space (header_Get rq (ap_AmberfloWebhookSecretHeader (SetObjectDefaults dirs c))) = trim_space raw)))"
proof -
  let ?d = "SetObjectDefaults dirs c"
  have d: "ap_WebhookServer ?d = None \<longleftrightarrow> ap_WebhookServer c = None" "ap_AmberfloWebhookSecretHeader ?d \<noteq> []"
    by (cases "ap_WebhookServer c"; simp add: SetObjectDefaults_def SetDefaults_AmberfloProvider_def Let_def)+
  note load = loadSecretValue_iff [of files "ap_AmberfloWebhookSigningSecretPath ?d" envSecret
      "''AMBERFLO_WEBHOOK_SECRET''" "''Amberflo webhook signing secret''", folded loadWebhookSecret_def assms(2)]
  show ?thesis
  proof (cases "ap_WebhookServer ?d = None \<or> (\<exists>e. loadWebhookSecret files (ap_AmberfloWebhookSigningSecretPath ?d) envSecret = Inl e)")
    case True
    with assms(1) have "r = None" by (auto simp: webhook_handler_def split: option.splits)
    moreover have "\<not> (ap_WebhookServer c \<noteq> None \<and> (\<exists>raw. secret = Some raw \<and> trim_space raw \<noteq> []))"
      using True d(1) load by (metis Inl_Inr_False)
    ultimately show ?thesis by simp
  next
    case False
    then obtain w key src where w: "ap_WebhookServer ?d = Some w"
      and k: "loadWebhookSecret files (ap_AmberfloWebhookSigningSecretPath ?d) envSecret = Inr (key, src)"
      by (cases "loadWebhookSecret files (ap_AmberfloWebhookSigningSecretPath ?d) envSecret") auto
    from k load obtain raw where raw: "secret = Some raw" "key = trim_space raw" "key \<noteq> []" by blast
    have r: "\<exists>h. r = Some h \<and> wh_Secret h = key \<and> wh_SecretHeader h = ap_AmberfloWebhookSecretHeader ?d"
      by (simp add: assms(1) webhook_handler_def w k)
    with raw d w show ?thesis by (auto simp: authorize_def Let_def)
  qed
qed

definition sample_config :: AmberfloProvider where
  "sample_config = (let t = \<lparr>tl_SecretRef = None, tl_CertDir = [], tl_CertName = [], tl_KeyName = []\<rparr> in
     \<lparr>ap_MetricsServer = \<lparr>mt_SecureServing = None, mt_BindAddress = [], mt_TLS = t\<rparr>,
      ap_WebhookServer = Some \<lparr>ws_Host = [], ws_Port = 9443, ws_TLS = t, ws_ClientCAName = []\<rparr>, ap_KubeconfigPath = [],
      ap_AmberfloBaseURL = [], ap_AmberfloAPIKeyPath = [], ap_AmberfloWebhookSigningSecretPath = [],
      ap_AmberfloWebhookSecretHeader = [], ap_AmberfloStripePaymentSettingID = [], ap_AmberfloPaymentSwitchMinFutureSkew = 0,
      ap_AmberfloRateLimitPerSec = 0, ap_AllowCustomerDelete = False, ap_SubmissionBatchSize = 0, ap_SubmissionRetryAfter = 0,
      ap_SubmissionAckWait = 0, ap_SubmissionFetchTimeout = 0,
      ap_Nats = \<lparr>na_URL = [], na_CAFile = [], na_CertFile = [], na_KeyFile = []\<rparr>\<rparr>)"

theorem webhook_handler_accepts_witness:
  "\<forall>syncer. \<exists>h. webhook_handler (\<lambda>p. FileAbsent) (SetObjectDefaults (\<lambda>n. n) sample_config) '' s3cret '' (NewInstrumentedClient (http_client store_client)) syncer
       sample_webhook_env = Some h
     \<and> \<not> authorize h \<lparr>hr_Method = ''POST'', hr_Header = [], hr_Body = [], hr_BodyFails = False\<rparr>"
proof
  fix syncer :: "(string \<times> string) list sys invoice_api"
  let ?d = "SetObjectDefaults (\<lambda>n. n) sample_config"
  let ?rq = "\<lparr>hr_Method = ''POST'', hr_Header = [], hr_Body = [], hr_BodyFails = False\<rparr>"
  let ?r = "webhook_handler (\<lambda>p. FileAbsent) ?d '' s3cret '' (NewInstrumentedClient (http_client store_client)) syncer sample_webhook_env"
  have t: "trim_space '' s3cret '' = ''s3cret''" by code_simp
  have s: "secret_text (\<lambda>p. FileAbsent) (ap_AmberfloWebhookSigningSecretPath ?d) '' s3cret '' = Some '' s3cret ''"
    by (simp add: secret_text_def)
  have w: "ap_WebhookServer sample_config \<noteq> None" by (simp add: sample_config_def Let_def)
  from webhook_handler_accepts [OF refl refl, of "\<lambda>p. FileAbsent" "\<lambda>n. n" sample_config "'' s3cret ''"
      "NewInstrumentedClient (http_client store_client)" syncer sample_webhook_env]
  have "?r \<noteq> None" "\<And>h. ?r = Some h \<Longrightarrow> \<not> authorize h ?rq"
    by (simp_all add: s t w header_Get_def mget_def)
  then show "\<exists>h. ?r = Some h \<and> \<not> authorize h ?rq" by blast
qed

end
