(* ===== verification/ServingCerts.thy ===== *)
theory ServingCerts
  imports Bootstrap
begin

text \<open>
  internal/config/webhook_tls.go and TLSConfig.Options of internal/config/config.go: the certificates
  the servers present.  The crypto libraries are parameters; reading a secret, the clock and the
  random source act on the world.  The guard of sync.Once is part of the state.
\<close>

section \<open>A certificate from a secret\<close>

definition TLSConfig_Options :: "(string \<Rightarrow> string \<Rightarrow> ('w, string + (string \<Rightarrow> string)) io)
    \<Rightarrow> (string \<Rightarrow> string \<Rightarrow> string + 'cert) \<Rightarrow> TLSConfig \<Rightarrow> ('w, string + 'cert) io list" where
  "TLSConfig_Options get_secret X509KeyPair c = (case tl_SecretRef c of
      None \<Rightarrow> []
    | Some (namespace, name) \<Rightarrow> [do {
        r \<leftarrow> get_secret namespace name;
        ret (case r of
            Inl err \<Rightarrow> Inl (''failed to get secret: '' @ err)
          | Inr data \<Rightarrow> (case X509KeyPair (data ''tls.crt'') (data ''tls.key'') of
                Inl err \<Rightarrow> Inl (''failed to parse certificate: '' @ err)
              | Inr cert \<Rightarrow> Inr cert))
      }])"

section \<open>A certificate made at the start\<close>

record template =
  tm_SerialNumber :: int
  tm_Organization :: string
  tm_CommonName :: string
  tm_NotBefore :: int
  tm_NotAfter :: int
  tm_KeyUsage :: "string list"
  tm_ExtKeyUsage :: "string list"
  tm_BasicConstraintsValid :: bool
  tm_DNSNames :: "string list"
  tm_IPAddresses :: "string list"

record ('w, 'k, 'cert) crypto =
  cr_GenerateKey :: "('w, string + 'k) io"
  cr_RandInt :: "int \<Rightarrow> ('w, string + int) io"
  cr_Now :: "('w, int) io"
  cr_CreateCertificate :: "template \<Rightarrow> 'k \<Rightarrow> ('w, string + string) io"
  cr_MarshalECPrivateKey :: "'k \<Rightarrow> string + string"
  cr_EncodePEM :: "string \<Rightarrow> string \<Rightarrow> string"
  cr_X509KeyPair :: "string \<Rightarrow> string \<Rightarrow> string + 'cert"

definition webhook_template :: "int \<Rightarrow> int \<Rightarrow> template" where
  "webhook_template serial now =
     \<lparr>tm_SerialNumber = serial, tm_Organization = ''amberflo-provider'', tm_CommonName = ''amberflo-provider-webhook'',
      tm_NotBefore = now - 3600 * second, tm_NotAfter = now + 10 * 365 * 24 * 3600 * second,
      tm_KeyUsage = [''DigitalSignature'', ''KeyEncipherment''], tm_ExtKeyUsage = [''ServerAuth''], tm_BasicConstraintsValid = True,
      tm_DNSNames = [''localhost'', ''amberflo-provider-webhook''], tm_IPAddresses = [''127.0.0.1'', ''::1'']\<rparr>"

definition pair_up :: "('w, 'k, 'cert) crypto \<Rightarrow> 'k \<Rightarrow> string \<Rightarrow> string + 'cert" where
  "pair_up L key der =
     (let certPEM = cr_EncodePEM L ''CERTIFICATE'' der
      in case cr_MarshalECPrivateKey L key of
           Inl err \<Rightarrow> Inl (''marshal webhook TLS key: '' @ err)
         | Inr keyDER \<Rightarrow>
             (let keyPEM = cr_EncodePEM L ''EC PRIVATE KEY'' keyDER
              in case cr_X509KeyPair L certPEM keyPEM of
                   Inl err \<Rightarrow> Inl (''parse webhook TLS key pair: '' @ err)
                 | Inr cert \<Rightarrow> Inr cert))"

definition generateEphemeralWebhookCert :: "('w, 'k, 'cert) crypto \<Rightarrow> ('w, string + 'cert) io" where
  "generateEphemeralWebhookCert L = do {
     k \<leftarrow> cr_GenerateKey L;
     case k of
       Inl err \<Rightarrow> ret (Inl (''generate webhook TLS key: '' @ err))
     | Inr key \<Rightarrow> do {
         s \<leftarrow> cr_RandInt L (2 ^ 128);
         case s of
           Inl err \<Rightarrow> ret (Inl (''generate webhook TLS serial: '' @ err))
         | Inr serial \<Rightarrow> do {
             now \<leftarrow> cr_Now L;
             d \<leftarrow> cr_CreateCertificate L (webhook_template serial now) key;
             ret (case d of
                 Inl err \<Rightarrow> Inl (''create webhook TLS certificate: '' @ err)
               | Inr der \<Rightarrow> pair_up L key der)
           }
       }
   }"

text \<open>The first handshake makes the certificate, or fails to, once and for all.\<close>

record ('w, 'cert) once =
  oc_world :: 'w
  oc_made :: "(string + 'cert) option"

definition ephemeralSelfSignedTLS :: "('w, 'k, 'cert) crypto \<Rightarrow> (('w, 'cert) once, string + 'cert) io" where
  "ephemeralSelfSignedTLS L = State (\<lambda>s. case oc_made s of
      Some r \<Rightarrow> (r, s)
    | None \<Rightarrow> (case run_state (generateEphemeralWebhookCert L) (oc_world s) of
        (r, w) \<Rightarrow> (r, s\<lparr>oc_world := w, oc_made := Some r\<rparr>)))"

fun handshakes :: "('s, 'a) io \<Rightarrow> nat \<Rightarrow> ('s, 'a list) io" where
  "handshakes m 0 = ret []"
| "handshakes m (Suc n) = do { x \<leftarrow> m; xs \<leftarrow> handshakes m n; ret (x # xs) }"

section \<open>Facts\<close>

lemma made_stays:
  assumes "oc_made s = Some r"
  shows "run_state (handshakes (ephemeralSelfSignedTLS L) n) s = (replicate n r, s)"
  by (induction n) (simp_all add: run_simps ephemeralSelfSignedTLS_def assms)

lemma first_handshake:
  assumes "oc_made s = None" "run_state (generateEphemeralWebhookCert L) (oc_world s) = (r, w)"
  shows "run_state (handshakes (ephemeralSelfSignedTLS L) (Suc n)) s
    = (replicate (Suc n) r, s\<lparr>oc_world := w, oc_made := Some r\<rparr>)"
  using assms made_stays [of "s\<lparr>oc_world := w, oc_made := Some r\<rparr>" r L n]
  by (simp add: run_simps ephemeralSelfSignedTLS_def)

lemma generate_names:
  assumes "run_state (generateEphemeralWebhookCert L) w = (Inr cert, w')"
  shows "\<exists>serial now key der w1 w2. run_state (cr_CreateCertificate L (webhook_template serial now) key) w1 = (Inr der, w2)
    \<and> pair_up L key der = Inr cert"
  using assms by (auto simp: generateEphemeralWebhookCert_def run_simps split: prod.splits sum.splits) blast+

section \<open>Properties\<close>

text \<open>
  The certificate a process makes for itself: however many handshakes there are, all of them
  get the same one, made by the first and never again; and when they get one, it was made for
  this server's names, valid from an hour before it was made.  If making it failed, every later
  handshake fails with that same error, whatever the random source gives by then.
\<close>

theorem ephemeral_once:
  assumes "oc_made s = None" "run_state (handshakes (ephemeralSelfSignedTLS L) (Suc n)) s = (rs, s')"
  shows "\<exists>r w. run_state (generateEphemeralWebhookCert L) (oc_world s) = (r, w)
    \<and> rs = replicate (Suc n) r \<and> oc_world s' = w
    \<and> (\<forall>cert. r = Inr cert \<longrightarrow> (\<exists>t key der w1 w2. run_state (cr_CreateCertificate L t key) w1 = (Inr der, w2)
         \<and> pair_up L key der = Inr cert \<and> tm_NotBefore t < tm_NotAfter t
         \<and> tm_DNSNames t = [''localhost'', ''amberflo-provider-webhook'']))"
proof -
  obtain r w where g: "run_state (generateEphemeralWebhookCert L) (oc_world s) = (r, w)" by fastforce
  have "\<exists>t key der w1 w2. run_state (cr_CreateCertificate L t key) w1 = (Inr der, w2)
      \<and> pair_up L key der = Inr cert \<and> tm_NotBefore t < tm_NotAfter t
      \<and> tm_DNSNames t = [''localhost'', ''amberflo-provider-webhook'']" if "r = Inr cert" for cert
  proof -
    from generate_names [OF g [unfolded that]] obtain serial now key der w1 w2 where
      "run_state (cr_CreateCertificate L (webhook_template serial now) key) w1 = (Inr der, w2)" "pair_up L key der = Inr cert"
      by blast
    moreover have "tm_NotBefore (webhook_template serial now) < tm_NotAfter (webhook_template serial now)"
      "tm_DNSNames (webhook_template serial now) = [''localhost'', ''amberflo-provider-webhook'']"
      by (simp_all add: webhook_template_def)
    ultimately show ?thesis by blast
  qed
  with g first_handshake [OF assms(1) g, of n] assms(2) show ?thesis by (intro exI [of _ r] exI [of _ w]) auto
qed

definition failing_crypto :: "(nat, nat, string) crypto" where
  "failing_crypto =
     \<lparr>cr_GenerateKey = State (\<lambda>w. (if w = 0 then Inl ''no entropy'' else Inr w, Suc w)), cr_RandInt = (\<lambda>b. ret (Inr 7)),
      cr_Now = ret 0, cr_CreateCertificate = (\<lambda>t k. ret (Inr ''der'')), cr_MarshalECPrivateKey = (\<lambda>k. Inr ''key''),
      cr_EncodePEM = (\<lambda>k b. b), cr_X509KeyPair = (\<lambda>c k. Inr (c @ k))\<rparr>"

theorem ephemeral_once_witness:
  "\<exists>s'. run_state (handshakes (ephemeralSelfSignedTLS failing_crypto) 3) \<lparr>oc_world = 0, oc_made = None\<rparr>
     = (replicate 3 (Inl ''generate webhook TLS key: no entropy''), s')"
proof -
  let ?s = "\<lparr>oc_world = 0, oc_made = None\<rparr> :: (nat, string) once"
  obtain rs s' where run: "run_state (handshakes (ephemeralSelfSignedTLS failing_crypto) (Suc 2)) ?s = (rs, s')" by fastforce
  have "run_state (generateEphemeralWebhookCert failing_crypto) 0 = (Inl ''generate webhook TLS key: no entropy'', 1)"
    by (simp add: generateEphemeralWebhookCert_def failing_crypto_def run_simps)
  with ephemeral_once [OF _ run] have "rs = replicate (Suc 2) (Inl ''generate webhook TLS key: no entropy'')" by auto
  with run show ?thesis by (simp add: eval_nat_numeral)
qed

end
