(* ===== verification/Provider.thy ===== *)
theory Provider
  imports Bootstrap
begin

text \<open>
  The two programs as wholes: what the reconciler of accounts and the submission consumer achieve
  when the calls they make are those of the Amberflo client, over the HTTP exchanges it has.
\<close>

section \<open>Deleting an account\<close>

text \<open>The Kubernetes calls leave what Amberflo keeps alone.\<close>

definition kept_now :: "('w \<Rightarrow> string \<Rightarrow> string option) \<Rightarrow> 'w sys \<Rightarrow> string \<Rightarrow> string option" where
  "kept_now kept w = kept (net_world (ts_world w))"

definition kube_only :: "('w \<Rightarrow> string \<Rightarrow> string option) \<Rightarrow> 'w sys account_env \<Rightarrow> bool" where
  "kube_only kept env \<longleftrightarrow>
     (\<forall>n ns fs force w. kept_now kept (snd (run_state (env_Apply env n ns fs force) w)) = kept_now kept w)
   \<and> (\<forall>a w. kept_now kept (snd (run_state (env_Update env a) w)) = kept_now kept w)"

definition keeping :: "('w \<Rightarrow> string \<Rightarrow> string option) \<Rightarrow> (string \<Rightarrow> string option)
    \<Rightarrow> ('w sys, account_step) traced_state \<Rightarrow> bool" where
  "keeping kept K s \<longleftrightarrow> kept_now kept (ts_world s) = K"

lemma traced_updates [simp]:
  "ts_world (s\<lparr>ts_log := l\<rparr>) = ts_world s" "ts_world (s\<lparr>ts_world := w\<rparr>) = w" "ts_log (s\<lparr>ts_log := l\<rparr>) = l"
  "ts_log (s\<lparr>ts_world := w\<rparr>) = ts_log s"
  by simp_all

lemma keeps_quiet:
  assumes "\<And>w. kept_now kept (snd (run_state m w)) = kept_now kept w"
  shows "keeps (keeping kept K) (perform m g)"
  unfolding keeps_def
proof (intro allI impI)
  fix s x s' assume "run_state (perform m g) s = (x, s')" "keeping kept K s"
  then have "ts_world s' = snd (run_state m (ts_world s))" by (auto simp: run_perform split: prod.splits)
  with assms [of "ts_world s"] \<open>keeping kept K s\<close> show "keeping kept K s'" by (simp add: keeping_def)
qed

lemma keeps_event: "keeps (keeping kept K) (event env k r m)"
  by (auto simp: event_def keeps_def keeping_def run_simps)

lemma keeps_removal:
  assumes "kube_only kept env"
  shows "keeps (keeping kept K) (finish_removal env account)"
proof -
  have "keeps (keeping kept K) (removeFinalizer env account)"
    unfolding removeFinalizer_def Let_def
    by (intro keeps_intros keeps_quiet) (use assms in \<open>simp_all add: kube_only_def\<close>)
  then show ?thesis unfolding finish_removal_def by (intro keeps_intros)
qed

lemma requeues: "requeue_after transientRequeueAfter \<noteq> done_ok" "requeue_after permanentDisableRequeueAfter \<noteq> done_ok"
  by (simp_all add: requeue_after_def done_ok_def transientRequeueAfter_def permanentDisableRequeueAfter_def)

lemma unforced_deletion:
  assumes "run_state (reconcileDelete env account) s = (done_ok, s')"
    and "fl_Contains (env_finalizers env) (om_Finalizers (ba_Meta account)) CustomerLinkFinalizer" "\<not> forced env account"
  obtains w t where "run_state (env_DisableCustomer env (ba_UID account)) (ts_world s) = (None, w)"
    "ts_world t = w" "run_state (do {
        event env ''Normal'' EventReasonDisabled (''Amberflo customer '' @ ba_UID account @ '' disabled'');
        finish_removal env account }) t = (done_ok, s')"
proof -
  obtain e w where dis: "run_state (env_DisableCustomer env (ba_UID account)) (ts_world s) = (e, w)" by fastforce
  define t where "t = s\<lparr>ts_world := w, ts_log := ts_log s @ [DisabledCustomer (ba_UID account) e]\<rparr>"
  have "e = None"
  proof (rule ccontr)
    assume "e \<noteq> None"
    then obtain err where "e = Some err" by blast
    with assms dis requeues show False
      by (auto simp: reconcileDelete_def Let_def run_simps split: prod.splits if_splits)
  qed
  have "run_state (perform (env_DisableCustomer env (ba_UID account)) (DisabledCustomer (ba_UID account))) s = (e, t)"
    by (simp add: run_perform dis t_def)
  with assms \<open>e = None\<close> have "run_state (do {
        event env ''Normal'' EventReasonDisabled (''Amberflo customer '' @ ba_UID account @ '' disabled'');
        finish_removal env account }) t = (done_ok, s')"
    by (simp add: reconcileDelete_def Let_def)
  with dis \<open>e = None\<close> show thesis by (intro that [of w t]) (simp_all add: t_def)
qed

abbreviation instrumented :: "'w client \<Rightarrow> 'w net client_value" where
  "instrumented c \<equiv> NewInstrumentedClient (http_client c)"

lemma run_instrumented:
  "run_state (op_DisableCustomer (methods (instrumented c)) cid) w = (e, w')
     \<Longrightarrow> run_state (DisableCustomer c cid) (ts_world w) = (e, ts_world w')"
  "run_state (op_SubmitUsage (methods (instrumented c)) rs) w = (e, w')
     \<Longrightarrow> run_state (SubmitUsage c rs) (ts_world w) = (e, ts_world w')"
  by (auto simp: NewInstrumentedClient_def http_client_def run_forward_err run_unmetered split: prod.splits)

lemma reconciler_fields [simp]:
  "env_DisableCustomer (account_reconciler cfg cl syncer base) = op_DisableCustomer (methods cl)"
  "env_finalizers (account_reconciler cfg cl syncer base) = env_finalizers base"
  "kube_only kept (account_reconciler cfg cl syncer base) = kube_only kept base"
  by (simp_all add: account_reconciler_def kube_only_def)


definition guarded_account :: BillingAccount where
  "guarded_account = plain_account ''ns'' ''acme'' ''u1''
     \<lparr>ba_Meta := (named_meta ''ns'' ''acme'' ''u1'')\<lparr>om_Finalizers := [CustomerLinkFinalizer]\<rparr>\<rparr>"


section \<open>Delivering usage\<close>

abbreviation posted_to :: "'w sys \<Rightarrow> UsageRecord list \<Rightarrow> bool" where
  "posted_to w rs \<equiv> posted (ts_world w) rs"

lemma SubmitUsage_marks:
  assumes "cl_retries c \<ge> 1"
  shows "marks (op_SubmitUsage (methods (instrumented c))) posted_to"
  unfolding marks_def
proof (intro allI impI conjI)
  fix rs and w w' :: "'a sys" and e
  assume "run_state (op_SubmitUsage (methods (instrumented c)) rs) w = (e, w')"
  then have run: "run_state (SubmitUsage c rs) (ts_world w) = (e, ts_world w')" by (rule run_instrumented)
  show "posted_to w' rs" if "e = None" using SubmitUsage_posts [OF _ assms] run that by blast
  fix rs' assume "posted_to w rs'"
  with SubmitUsage_log [OF run] show "posted_to w' rs'" unfolding posted_def by (elim exE conjE, intro exI conjI) auto
qed

lemma consumer_libs: "submission_consumer cfg env = Some sc \<Longrightarrow> sc_ce sc = sc_ce env \<and> sc_ulid sc = sc_ulid env"
  by (auto simp: submission_consumer_def split: if_splits)

text \<open>
  C1.  No usage is lost: when the submission consumer acknowledges a message, its event can never be
  turned into a record, or a POST to \<open>/ingest\<close> that carried the record in its body was answered
  with success, or Amberflo rejected the record alone for good.
\<close>

theorem run_consumer_delivers:
  assumes "run_state (run_consumer cfg (instrumented c) env synced js_err cons_err fs) \<lparr>ts_world = w, ts_log = []\<rparr> = (err, s')"
    and "cl_retries c \<ge> 1" "Ack m \<in> set (ts_log s')"
  shows "\<exists>A M now msgs. Fetched A M now msgs \<in> set fs \<and> m \<in> set msgs
    \<and> (case prepareRecord (with_caches env A M) m of
         Inl e \<Rightarrow> isPermanentValidationError e
       | Inr r \<Rightarrow> (\<exists>rs. r \<in> set rs \<and> posted_to (ts_world s') rs)
           \<or> (\<exists>e. Submit [r] (Some e) \<in> set (ts_log s') \<and> IsPermanent e))"
proof (cases "submission_consumer cfg env")
  case None
  with assms(1,3) show ?thesis by (auto simp: run_consumer_def run_simps)
next
  case (Some sc)
  with assms(1) have run: "run_state (Start sc synced js_err cons_err (op_SubmitUsage (methods (instrumented c))) fs) \<lparr>ts_world = w, ts_log = []\<rparr> = (err, s')"
    by (simp add: run_consumer_def)
  have "accounted posted_to \<lparr>ts_world = w, ts_log = []\<rparr>" by (simp add: accounted_def)
  from keepsD [OF accounted_Start [OF SubmitUsage_marks [OF assms(2)]] run this]
  have acc: "Submit rs None \<in> set (ts_log s') \<Longrightarrow> posted_to (ts_world s') rs" for rs by (simp add: accounted_def)
  from Start_run [OF run] assms(3) have "\<exists>A M now msgs. Fetched A M now msgs \<in> set fs \<and> m \<in> set msgs
    \<and> may_ack (with_caches sc A M) (ts_log s') m" by (elim exE conjE) simp
  then obtain A M now msgs where f: "Fetched A M now msgs \<in> set fs" "m \<in> set msgs"
    "may_ack (with_caches sc A M) (ts_log s') m" by blast
  have "prepareRecord (with_caches sc A M) m = prepareRecord (with_caches env A M) m"
    using consumer_libs [OF Some] by (intro prepareRecord_libs) simp_all
  with f(3) acc have "case prepareRecord (with_caches env A M) m of
         Inl e \<Rightarrow> isPermanentValidationError e
       | Inr r \<Rightarrow> (\<exists>rs. r \<in> set rs \<and> posted_to (ts_world s') rs)
           \<or> (\<exists>e. Submit [r] (Some e) \<in> set (ts_log s') \<and> IsPermanent e)"
    by (auto simp: may_ack_def split: sum.splits)
  with f(1,2) show ?thesis by blast
qed

lemma submit_accepted:
  "\<exists>w. run_state (SubmitUsage (scripted 1) rs) (fresh [Response 200 [] []]) = (None, w)"
proof -
  let ?b = "Encoded (print (JArr (map enc_wireUsageRecord rs)))"
  obtain req where req: "build_request (scripted 1) ''POST'' ''/ingest'' (body_bytes ?b) = Some req"
    using build_request_plain [of "''/ingest''" "scripted 1" "''POST''"] by auto
  have "run_state (doJSON (scripted 1) ''POST'' ''/ingest'' ?b dec_none ()) (fresh [Response 200 [] []])
      = (decode_reply dec_none () (outcome_status (Response 200 [] [])) (outcome_body (Response 200 [] [])),
         (fresh [Response 200 [] []])\<lparr>net_world := [], net_log := net_log (fresh [Response 200 [] []]) @ [Sent req (Response 200 [] [])]\<rparr>)"
    by (rule doJSON_first [OF _ _ req]) (simp_all add: scripted_def fresh_def success_outcome_def undisturbed_def)
  then show ?thesis by (simp add: SubmitUsage_def run_simps decode_reply_def outcome_status_def outcome_body_def del: print.simps)
qed

lemma consume_one:
  assumes "prepareRecord (with_caches sc A M) m = Inr r" "run_state (submit [r]) w = (None, w')"
  shows "run_state (consume sc submit [Fetched A M now [m]]) \<lparr>ts_world = w, ts_log = []\<rparr>
    = ((), \<lparr>ts_world = w', ts_log = lag_before now [m]
        @ [Submit [r] None, Counted ''success'', Ack m, setOldestUnsubmittedAge 0, setOldestUnsubmittedAge 0]\<rparr>)"
  using assms by (simp add: processMessages_def settle_def run_simps lag_before_def flip: with_caches_def)

definition nats_config :: AmberfloProvider where
  "nats_config = sample_config\<lparr>ap_Nats := (ap_Nats sample_config)\<lparr>na_URL := ''nats://nats:4222''\<rparr>\<rparr>"

theorem run_consumer_delivers_witness:
  "\<exists>r s'. run_state (run_consumer nats_config (instrumented (scripted 1)) sample_consumer True None None
        [Fetched (sc_BillingAccountCache sample_consumer) (sc_MeterCache sample_consumer) 0 [hd sample_messages]])
        \<lparr>ts_world = \<lparr>ts_world = fresh [Response 200 [] []], ts_log = []\<rparr>, ts_log = []\<rparr> = (None, s')
     \<and> ur_CustomerID r = ''uid-1'' \<and> (\<exists>rs. r \<in> set rs \<and> posted_to (ts_world s') rs)"
proof -
  let ?A = "sc_BillingAccountCache sample_consumer" and ?M = "sc_MeterCache sample_consumer"
  let ?m = "hd sample_messages"
  obtain sc where sc: "submission_consumer nats_config sample_consumer = Some sc"
    "sc_ce sc = sc_ce sample_consumer" "sc_ulid sc = sc_ulid sample_consumer"
    by (simp add: submission_consumer_def nats_config_def)
  have seven: "Sscanf_d ''7'' = Some 7" by code_simp
  have "\<exists>r. prepareRecord (with_caches sample_consumer ?A ?M) ?m = Inr r \<and> ur_CustomerID r = ''uid-1''"
    by (simp add: prepareRecord_def with_caches_def sample_consumer_def sample_ce_def sample_ulid_def sample_messages_def
        billingAccountRefExtension_def GetUID_def GetAPIName_def ulidFromEventID_def Let_def seven)
  then obtain r where r: "prepareRecord (with_caches sample_consumer ?A ?M) ?m = Inr r" "ur_CustomerID r = ''uid-1''" by blast
  have d: "prepareRecord (with_caches (start_defaults sc) ?A ?M) ?m = Inr r"
    using r(1) prepareRecord_libs [of "start_defaults sc" sample_consumer ?A ?M ?m] sc by (simp add: start_defaults_libs)
  let ?submit = "op_SubmitUsage (methods (instrumented (scripted 1)))"
  let ?w = "\<lparr>ts_world = fresh [Response 200 [] []], ts_log = []\<rparr> :: http_outcome list sys"
  obtain n where "run_state (SubmitUsage (scripted 1) [r]) (fresh [Response 200 [] []]) = (None, n)"
    using submit_accepted by blast
  then obtain w where w: "run_state (?submit [r]) ?w = (None, w)"
    by (simp add: NewInstrumentedClient_def http_client_def run_forward_err run_unmetered)
  let ?s' = "\<lparr>ts_world = w, ts_log = lag_before 0 [?m]
      @ [Submit [r] None, Counted ''success'', Ack ?m, setOldestUnsubmittedAge 0, setOldestUnsubmittedAge 0]\<rparr>"
  have run: "run_state (run_consumer nats_config (instrumented (scripted 1)) sample_consumer True None None [Fetched ?A ?M 0 [?m]])
      \<lparr>ts_world = ?w, ts_log = []\<rparr> = (None, ?s')"
    using consume_one [where submit = ?submit, OF d w] by (simp add: run_consumer_def sc Start_def Let_def run_simps del: consume.simps)
  have acked: "Ack ?m \<in> set (ts_log ?s')" by simp
  have "Submit rs (Some e) \<notin> set (lag_before 0 [?m])" for rs e by (simp add: lag_before_def)
  with run_consumer_delivers [OF run _ acked] r have "\<exists>rs. r \<in> set rs \<and> posted_to (ts_world ?s') rs" by auto
  with run r(2) show ?thesis by blast
qed

end
