(* ===== verification/Backoff.thy ===== *)
theory Backoff
  imports Float64 Transport Complex_Main
begin

text \<open>
  The sleep and the jitter the Amberflo client uses when its caller sets none, defaultSleep and
  defaultJitter of internal/amberflo/client.go.  The jitter is computed in floating point, so the
  theory first has addition and multiplication of doubles, and their errors.  What the random
  source draws, and which of the timer and the end of the context comes first, are parameters.
\<close>

section \<open>Arithmetic of doubles\<close>

text \<open>The double nearest to n * 2^e, the sum and the product of two doubles.\<close>

definition f64_of_dyadic :: "bool \<Rightarrow> nat \<Rightarrow> int \<Rightarrow> float64" where
  "f64_of_dyadic neg n e = (case pow2_ratio (- e) n 1 of (a, b) \<Rightarrow> f64_of_ratio neg a b)"

definition signed :: "bool \<Rightarrow> nat \<Rightarrow> int" where
  "signed neg n = (if neg then - int n else int n)"

fun f64_add :: "float64 \<Rightarrow> float64 \<Rightarrow> float64" where
  "f64_add (F64 s m e) (F64 t n f) =
     (let x = min e f; i = signed s (m * 2 ^ nat (e - x)) + signed t (n * 2 ^ nat (f - x))
      in if i = 0 then F64 (s \<and> t) 0 (-1074) else f64_of_dyadic (i < 0) (nat \<bar>i\<bar>) x)"
| "f64_add (FInf s) (FInf t) = (if s = t then FInf s else FNaN)"
| "f64_add (FInf s) (F64 t n f) = FInf s"
| "f64_add (F64 s m e) (FInf t) = FInf t"
| "f64_add FNaN y = FNaN"
| "f64_add x FNaN = FNaN"

fun f64_mult :: "float64 \<Rightarrow> float64 \<Rightarrow> float64" where
  "f64_mult (F64 s m e) (F64 t n f) = f64_of_dyadic (s \<noteq> t) (m * n) (e + f)"
| "f64_mult (FInf s) (FInf t) = FInf (s \<noteq> t)"
| "f64_mult (FInf s) (F64 t n f) = (if n = 0 then FNaN else FInf (s \<noteq> t))"
| "f64_mult (F64 s m e) (FInf t) = (if m = 0 then FNaN else FInf (s \<noteq> t))"
| "f64_mult FNaN y = FNaN"
| "f64_mult x FNaN = FNaN"

definition f64_of_int :: "int \<Rightarrow> float64" where
  "f64_of_int i = f64_of_dyadic (i < 0) (nat \<bar>i\<bar>) 0"

abbreviation fhalf :: float64 where
  "fhalf \<equiv> F64 False 4503599627370496 (-53)"

abbreviation fminus_half :: float64 where
  "fminus_half \<equiv> F64 True 4503599627370496 (-53)"

abbreviation fone :: float64 where
  "fone \<equiv> F64 False 4503599627370496 (-52)"

section \<open>The defaults of the client\<close>

text \<open>\<open>u\<close> is the next number of the random source; \<open>oob\<close> is what converting a double to int64
  gives when it is not one, which Go leaves open.\<close>

definition to_int64 :: "(float64 \<Rightarrow> int) \<Rightarrow> float64 \<Rightarrow> int" where
  "to_int64 oob f = (case f of F64 neg m e \<Rightarrow> (if in_int64 (f64_trunc f) then f64_trunc f else oob f) | _ \<Rightarrow> oob f)"

definition jittered :: "(float64 \<Rightarrow> int) \<Rightarrow> float64 \<Rightarrow> int \<Rightarrow> int" where
  "jittered oob u d =
     (let delta = f64_mult (f64_add u fminus_half) fhalf;
          out = to_int64 oob (f64_mult (f64_of_int d) (f64_add fone delta))
      in if out < 0 then 0 else out)"

definition defaultJitter :: "(float64 \<Rightarrow> int) \<Rightarrow> ('w \<Rightarrow> float64 \<times> 'w) \<Rightarrow> int \<Rightarrow> 'w \<Rightarrow> int \<times> 'w" where
  "defaultJitter oob draw d w =
     (if d \<le> 0 then (0, w) else case draw w of (u, w) \<Rightarrow> (jittered oob u d, w))"

text \<open>\<open>await d\<close> waits for the timer of \<open>d\<close> or the end of the context, whichever comes first.\<close>

definition defaultSleep :: "('w \<Rightarrow> goerr option) \<Rightarrow> (int \<Rightarrow> 'w \<Rightarrow> goerr option \<times> 'w) \<Rightarrow> int \<Rightarrow> 'w \<Rightarrow> goerr option \<times> 'w" where
  "defaultSleep ctx_err await d w = (if d \<le> 0 then (ctx_err w, w) else await d w)"

text \<open>The client \<open>NewClient\<close> builds when its options name neither.\<close>

definition with_defaults :: "(float64 \<Rightarrow> int) \<Rightarrow> ('w \<Rightarrow> float64 \<times> 'w) \<Rightarrow> (int \<Rightarrow> 'w \<Rightarrow> goerr option \<times> 'w) \<Rightarrow> 'w client \<Rightarrow> 'w client" where
  "with_defaults oob draw await c = c\<lparr>cl_sleep := defaultSleep (cl_ctx_err c) await, cl_jitter := defaultJitter oob draw\<rparr>"

section \<open>Rounding between representable bounds\<close>

definition f64_val :: "float64 \<Rightarrow> real" where
  "f64_val f = (case f of F64 neg m e \<Rightarrow> (if neg then - 1 else 1) * real m * 2 powi e | _ \<Rightarrow> 0)"

lemma f64_val_F64 [simp]: "f64_val (F64 neg m e) = (if neg then - 1 else 1) * real m * 2 powi e"
  by (simp add: f64_val_def)

lemma pow2_ratio_val:
  assumes "pow2_ratio e n d = (a, b)" "d > 0"
  shows "b > 0" "real n / real d = real a / real b * 2 powi e"
  using assms by (auto simp: pow2_ratio_def power_int_def divide_simps split: if_splits)

lemma bitlen_pos: "n > 0 \<Longrightarrow> bitlen n = Suc (bitlen (n div 2))"
  by (subst bitlen.simps) simp

lemma bitlen_upper: "n < 2 ^ bitlen n"
proof (induction n rule: less_induct)
  case (less n)
  show ?case
  proof (cases "n = 0")
    case False
    have "n div 2 < 2 ^ bitlen (n div 2)" using False by (intro less) simp
    then show ?thesis using False by (simp add: bitlen_pos)
  qed simp
qed

lemma bitlen_lower: "n > 0 \<Longrightarrow> 2 ^ bitlen n \<le> 2 * n"
proof (induction n rule: less_induct)
  case (less n)
  show ?case
  proof (cases "n = 1")
    case True
    then show ?thesis by (simp add: bitlen_pos bitlen.simps [of 0])
  next
    case False
    with less have "2 ^ bitlen (n div 2) \<le> 2 * (n div 2)" by (intro less) auto
    then show ?thesis using less.prems by (simp add: bitlen_pos)
  qed
qed

lemma round_half_even_between:
  assumes "b > 0"
  shows "k * b \<le> a \<Longrightarrow> k \<le> round_half_even a b" "a \<le> k * b \<Longrightarrow> round_half_even a b \<le> k"
proof -
  have a: "a = b * (a div b) + a mod b" "a mod b < b" using assms by simp_all
  show "k \<le> round_half_even a b" if "k * b \<le> a"
  proof -
    have "k \<le> a div b" using that assms by (simp add: less_eq_div_iff_mult_less_eq)
    then show ?thesis by (auto simp: round_half_even_def Let_def)
  qed
  show "round_half_even a b \<le> k" if "a \<le> k * b"
  proof (cases "a mod b = 0")
    case True
    then show ?thesis using that assms a(1) by (auto simp: round_half_even_def Let_def)
  next
    case False
    have "b * (a div b) < b * k" using that a(1) False by (metis add_diff_cancel_left' diff_is_0_eq le_less_trans mult.commute not_gr_zero not_le zero_less_diff linorder_not_le)
    then show ?thesis by (auto simp: round_half_even_def Let_def)
  qed
qed

text \<open>A value below \<open>2 powi t\<close> is rounded to a multiple of \<open>2 powi (t - 53)\<close> or finer.\<close>

lemma bitlen_quotient:
  assumes "n > 0" "d > 0" "real n / real d < 2 powi t"
  shows "int (bitlen n) - int (bitlen d) \<le> t"
proof (rule ccontr)
  let ?k = "int (bitlen n) - int (bitlen d)"
  assume "\<not> ?k \<le> t"
  then have t: "2 powi t \<le> (2::real) powi (?k - 1)" by (intro power_int_increasing) auto
  have "(2::real) powi (?k - 1) = 2 ^ bitlen n / (2 * 2 ^ bitlen d)" by (simp add: power_int_diff)
  also have "\<dots> \<le> real n / real d"
  proof -
    have "real (2 ^ bitlen n) \<le> real (2 * n)" "real d \<le> real (2 ^ bitlen d)"
      using bitlen_lower [OF assms(1)] bitlen_upper [of d] by (intro of_nat_mono; simp)+
    then have "2 ^ bitlen n \<le> 2 * real n" "real d \<le> 2 ^ bitlen d" by simp_all
    then have "2 ^ bitlen n * real d \<le> (2 * real n) * 2 ^ bitlen d" by (intro mult_mono) auto
    then show ?thesis using assms(2) by (simp add: divide_simps)
  qed
  finally show False using t assms(3) by linarith
qed

lemma f64_of_ratio_between:
  assumes "d > 0" "real n / real d < 2 powi t" "- 1021 \<le> t" "t \<le> 1000" "t - 53 \<le> j"
  obtains m x where "f64_of_ratio neg n d = F64 neg m x"
    and "\<And>c. real c * 2 powi j \<le> real n / real d \<Longrightarrow> real c * 2 powi j \<le> real m * 2 powi x"
    and "\<And>c. real n / real d \<le> real c * 2 powi j \<Longrightarrow> real m * 2 powi x \<le> real c * 2 powi j"
proof (cases "n = 0")
  case True
  show ?thesis by (rule that [of 0 "- 1074"]) (use True in \<open>auto simp: f64_of_ratio_def\<close>)
next
  case False
  define e0 where "e0 = max (- 1074) (int (bitlen n) - int (bitlen d) - 53)"
  obtain a0 b0 where ab0: "pow2_ratio e0 n d = (a0, b0)" by fastforce
  define e where "e = (if a0 div b0 \<ge> 2 ^ 53 then e0 + 1 else e0)"
  obtain a b where ab: "pow2_ratio e n d = (a, b)" by fastforce
  define q where "q = round_half_even a b"
  define mx where "mx = (if q = 2 ^ 53 then (2 ^ 52 :: nat, e + 1) else (q, e))"
  have e0: "e0 \<le> t - 53" using bitlen_quotient [of n d t] assms False by (auto simp: e0_def)
  have e: "e \<le> t - 53"
  proof (cases "a0 div b0 \<ge> 2 ^ 53")
    case True
    note v = pow2_ratio_val [OF ab0 assms(1)]
    have "2 ^ 53 * b0 \<le> a0" using True v(1) by (simp add: less_eq_div_iff_mult_less_eq)
    then have "real (2 ^ 53 * b0) \<le> real a0" by (rule of_nat_mono)
    then have "2 ^ 53 \<le> real a0 / real b0" using v(1) by (simp add: divide_simps)
    then have "2 ^ 53 * 2 powi e0 \<le> real n / real d" unfolding v(2) by (intro mult_right_mono) auto
    then have "(2::real) powi (53 + e0) < 2 powi t" using assms(2) by (simp add: power_int_add)
    then have "53 + e0 < t" using power_int_increasing [of t "53 + e0" "2::real"] by linarith
    with True show ?thesis by (simp add: e_def)
  qed (use e0 in \<open>simp add: e_def\<close>)
  note v = pow2_ratio_val [OF ab assms(1)]
  have "f64_of_ratio neg n d = (case mx of (m, x) \<Rightarrow> if x > 971 then FInf neg else F64 neg m x)"
    by (simp only: f64_of_ratio_def Let_def if_not_P [OF False] e0_def [symmetric] ab0 prod.case
      e_def [symmetric] ab q_def [symmetric] mx_def [symmetric])
  moreover have "snd mx \<le> 971" using e assms(4) by (simp add: mx_def)
  ultimately have r: "f64_of_ratio neg n d = F64 neg (fst mx) (snd mx)" by (simp add: case_prod_beta)
  have m: "real (fst mx) * 2 powi (snd mx) = real q * 2 powi e"
    by (simp add: mx_def power_int_add)
  have "(2::real) powi j = 2 powi (j - e) * 2 powi e" using power_int_add [of "2::real" "j - e" e] by simp
  moreover have "(2::real) powi (j - e) = 2 ^ nat (j - e)" using e assms(5) by (simp add: power_int_def)
  ultimately have c: "real c * 2 powi j = real (c * 2 ^ nat (j - e)) * 2 powi e" for c by simp
  have p: "(2::real) powi e > 0" by simp
  show ?thesis
  proof (rule that [OF r])
    fix c :: nat
    let ?c = "c * 2 ^ nat (j - e)"
    show "real c * 2 powi j \<le> real (fst mx) * 2 powi snd mx" if "real c * 2 powi j \<le> real n / real d"
    proof -
      from that have "real ?c \<le> real a / real b" by (simp only: c v(2) mult_le_cancel_right_pos [OF p])
      then have "?c * b \<le> a" using v(1) by (simp add: pos_le_divide_eq flip: of_nat_mult del: of_nat_power)
      then have "real ?c \<le> real q" unfolding q_def using round_half_even_between(1) [OF v(1)] by (intro of_nat_mono)
      then show ?thesis by (simp only: c m mult_le_cancel_right_pos [OF p])
    qed
    show "real (fst mx) * 2 powi snd mx \<le> real c * 2 powi j" if "real n / real d \<le> real c * 2 powi j"
    proof -
      from that have "real a / real b \<le> real ?c" by (simp only: c v(2) mult_le_cancel_right_pos [OF p])
      then have "a \<le> ?c * b" using v(1) by (simp add: pos_divide_le_eq flip: of_nat_mult del: of_nat_power)
      then have "real q \<le> real ?c" unfolding q_def using round_half_even_between(2) [OF v(1)] by (intro of_nat_mono)
      then show ?thesis by (simp only: c m mult_le_cancel_right_pos [OF p])
    qed
  qed
qed

lemma powi_two_pos [simp]: "\<not> (2::real) powi e < 0" "\<not> (2::real) powi e \<le> 0"
  by (simp_all add: not_less not_le)

text \<open>\<open>f\<close> is \<open>v\<close> rounded: it has the sign of \<open>v\<close> and lies between the same multiples of \<open>2 powi j\<close>.\<close>

definition rounds :: "int \<Rightarrow> real \<Rightarrow> float64 \<Rightarrow> bool" where
  "rounds j v f \<longleftrightarrow> (\<exists>s m e. f = F64 s m e) \<and> (0 \<le> v \<longrightarrow> 0 \<le> f64_val f) \<and> (v \<le> 0 \<longrightarrow> f64_val f \<le> 0)
     \<and> (\<forall>c::nat. (real c * 2 powi j \<le> \<bar>v\<bar> \<longrightarrow> real c * 2 powi j \<le> \<bar>f64_val f\<bar>)
                \<and> (\<bar>v\<bar> \<le> real c * 2 powi j \<longrightarrow> \<bar>f64_val f\<bar> \<le> real c * 2 powi j))"

lemma signed_val: "real_of_int (signed s m) * 2 powi e = f64_val (F64 s m e)"
  by (simp add: signed_def)

lemma dyadic_rounds:
  assumes "real n * 2 powi e < 2 powi t" "- 1021 \<le> t" "t \<le> 1000" "t - 53 \<le> j"
    and "n = 0 \<or> (s \<longleftrightarrow> v < 0)" "\<bar>v\<bar> = real n * 2 powi e"
  shows "rounds j v (f64_of_dyadic s n e)"
proof -
  obtain a b where ab: "pow2_ratio (- e) n 1 = (a, b)" by fastforce
  have b: "b > 0" "real a / real b = real n * 2 powi e"
    using pow2_ratio_val [OF ab] by (simp_all add: power_int_minus field_simps)
  obtain m x where r: "f64_of_ratio s a b = F64 s m x"
    and lo: "\<And>c. real c * 2 powi j \<le> real a / real b \<Longrightarrow> real c * 2 powi j \<le> real m * 2 powi x"
    and hi: "\<And>c. real a / real b \<le> real c * 2 powi j \<Longrightarrow> real m * 2 powi x \<le> real c * 2 powi j"
    by (rule f64_of_ratio_between [OF b(1) _ assms(2-4), of a s]) (use assms(1) b(2) in auto)
  have zero: "m = 0" if "n = 0" using hi [of 0] that b by (simp add: mult_le_0_iff)
  have f: "f64_of_dyadic s n e = F64 s m x" by (simp only: f64_of_dyadic_def ab r prod.case)
  have abs: "\<bar>f64_val (F64 s m x)\<bar> = real m * 2 powi x" by (simp add: abs_mult)
  have "0 \<le> v \<Longrightarrow> 0 \<le> f64_val (F64 s m x)" "v \<le> 0 \<Longrightarrow> f64_val (F64 s m x) \<le> 0"
    using assms(5,6) zero by auto
  then show ?thesis using lo hi unfolding rounds_def f abs assms(6) b by blast
qed

lemma add_rounds:
  assumes "\<bar>f64_val (F64 s m e) + f64_val (F64 s' n f)\<bar> < 2 powi t" "- 1021 \<le> t" "t \<le> 1000" "t - 53 \<le> j"
  shows "rounds j (f64_val (F64 s m e) + f64_val (F64 s' n f)) (f64_add (F64 s m e) (F64 s' n f))"
proof -
  define x where "x = min e f"
  define i where "i = signed s (m * 2 ^ nat (e - x)) + signed s' (n * 2 ^ nat (f - x))"
  have shift: "real_of_int (signed b (k * 2 ^ nat (g - x))) * 2 powi x = f64_val (F64 b k g)" if "x \<le> g" for b k g
  proof -
    have "(2::real) powi g = 2 powi (g - x) * 2 powi x" using power_int_add [of "2::real" "g - x" x] by simp
    moreover have "(2::real) powi (g - x) = 2 ^ nat (g - x)" using that by (simp add: power_int_def)
    ultimately show ?thesis by (simp add: signed_def)
  qed
  have v: "f64_val (F64 s m e) + f64_val (F64 s' n f) = real_of_int i * 2 powi x"
    unfolding i_def of_int_add distrib_right
    by (subst (1 2) shift) (simp_all add: x_def)
  show ?thesis
  proof (cases "i = 0")
    case True
    then have "f64_add (F64 s m e) (F64 s' n f) = F64 (s \<and> s') 0 (- 1074)"
      by (simp add: Let_def x_def [symmetric] i_def [symmetric])
    then show ?thesis unfolding v by (simp add: True rounds_def)
  next
    case False
    then have "f64_add (F64 s m e) (F64 s' n f) = f64_of_dyadic (i < 0) (nat \<bar>i\<bar>) x"
      by (simp add: Let_def x_def [symmetric] i_def [symmetric])
    then show ?thesis using assms unfolding v
      by (simp only:) (rule dyadic_rounds [where t = t]; simp add: abs_mult mult_less_0_iff)
  qed
qed

lemma mult_rounds:
  assumes "\<bar>f64_val (F64 s m e) * f64_val (F64 s' n f)\<bar> < 2 powi t" "- 1021 \<le> t" "t \<le> 1000" "t - 53 \<le> j"
  shows "rounds j (f64_val (F64 s m e) * f64_val (F64 s' n f)) (f64_mult (F64 s m e) (F64 s' n f))"
proof -
  have "\<bar>f64_val (F64 s m e) * f64_val (F64 s' n f)\<bar> = real (m * n) * 2 powi (e + f)"
    by (simp add: power_int_add abs_mult)
  moreover have "m * n = 0 \<or> ((s \<noteq> s') \<longleftrightarrow> f64_val (F64 s m e) * f64_val (F64 s' n f) < 0)"
    by (auto simp: mult_less_0_iff zero_less_mult_iff)
  ultimately show ?thesis using assms by (simp only: f64_mult.simps) (rule dyadic_rounds [where t = t], simp_all only:)
qed

lemma trunc_between:
  assumes "0 \<le> f64_val (F64 s m e)" "real c \<le> f64_val (F64 s m e)" "f64_val (F64 s m e) \<le> real c'"
  shows "int c \<le> f64_trunc (F64 s m e)" "f64_trunc (F64 s m e) \<le> int c'"
proof -
  obtain a b where ab: "pow2_ratio (- e) m 1 = (a, b)" by fastforce
  have b: "b > 0" "real a / real b = real m * 2 powi e"
    using pow2_ratio_val [OF ab] by (simp_all add: power_int_minus field_simps)
  have s: "s \<Longrightarrow> m = 0" using assms(1) by (simp add: mult_le_0_iff)
  have val: "f64_val (F64 s m e) = real a / real b" unfolding b(2) using s by auto
  have zero: "s \<Longrightarrow> a = 0" using s b by simp
  have "f64_trunc (F64 s m e) = int (a div b)" using zero ab by (simp add: f64_trunc_def)
  moreover have "c * b \<le> a" "a \<le> c' * b"
    using assms(2,3) b(1) unfolding val by (simp_all add: field_simps flip: of_nat_mult)
  moreover have "c * b \<le> a \<Longrightarrow> c \<le> a div b" using b(1) by (simp add: less_eq_div_iff_mult_less_eq)
  moreover have "a \<le> c' * b \<Longrightarrow> a div b \<le> c'" using b(1) by (metis div_le_mono nonzero_mult_div_cancel_right not_gr_zero)
  ultimately show "int c \<le> f64_trunc (F64 s m e)" "f64_trunc (F64 s m e) \<le> int c'" by simp_all
qed

section \<open>The band of the jitter\<close>

text \<open>What \<open>rand.Float64\<close> documents: a number from 0 to below 1.\<close>

definition unit_draw :: "float64 \<Rightarrow> bool" where
  "unit_draw u \<longleftrightarrow> (case u of F64 s m e \<Rightarrow> \<not> s \<and> f64_val u < 1 | _ \<Rightarrow> False)"

definition draws_unit :: "('w \<Rightarrow> float64 \<times> 'w) \<Rightarrow> bool" where
  "draws_unit draw \<longleftrightarrow> (\<forall>w. unit_draw (fst (draw w)))"

lemma rounds_hi: "rounds j v f \<Longrightarrow> \<bar>v\<bar> \<le> real c * 2 powi j \<Longrightarrow> \<bar>f64_val f\<bar> \<le> real c * 2 powi j"
  by (simp add: rounds_def)

lemma rounds_lo: "rounds j v f \<Longrightarrow> real c * 2 powi j \<le> \<bar>v\<bar> \<Longrightarrow> real c * 2 powi j \<le> \<bar>f64_val f\<bar>"
  by (simp add: rounds_def)

lemma rounds_nonneg: "rounds j v f \<Longrightarrow> 0 \<le> v \<Longrightarrow> 0 \<le> f64_val f"
  by (simp add: rounds_def)

lemma rounds_finite: "rounds j v f \<Longrightarrow> \<exists>s m e. f = F64 s m e"
  by (simp add: rounds_def)

lemma powi_constants:
  "(2::real) powi (- 53) = 1 / 9007199254740992" "(2::real) powi (- 52) = 1 / 4503599627370496"
  by (simp_all add: power_int_def power_one_over)

lemma constant_vals [simp]: "f64_val fminus_half = - 1 / 2" "f64_val fhalf = 1 / 2" "f64_val fone = 1"
  by (simp_all add: powi_constants)

lemma factor_band:
  assumes "unit_draw u"
  obtains s m e where "f64_add fone (f64_mult (f64_add u fminus_half) fhalf) = F64 s m e"
    and "3 / 4 \<le> f64_val (F64 s m e)" "f64_val (F64 s m e) \<le> 5 / 4"
proof -
  obtain m0 e0 where u: "u = F64 False m0 e0" "0 \<le> f64_val u" "f64_val u < 1"
    using assms by (auto simp: unit_draw_def split: float64.splits)
  let ?v1 = "f64_val u + f64_val fminus_half" and ?x1 = "f64_add u fminus_half"
  have v1: "\<bar>?v1\<bar> \<le> 1 / 2" using u(2,3) by (simp only: constant_vals)
  have r1: "rounds (- 53) ?v1 ?x1"
    unfolding u(1) by (rule add_rounds [where t = 0]) (use v1 [unfolded u(1)] in \<open>simp_all del: f64_val_F64\<close>)
  then obtain s1 m1 e1 where x1: "?x1 = F64 s1 m1 e1" using rounds_finite by blast
  have "\<bar>f64_val ?x1\<bar> \<le> 1 / 2" using rounds_hi [OF r1, of 4503599627370496] v1 by (simp add: powi_constants)
  then have v2: "\<bar>f64_val ?x1 * f64_val fhalf\<bar> \<le> 1 / 4" by (simp only: constant_vals abs_mult)
  let ?x2 = "f64_mult ?x1 fhalf"
  have r2: "rounds (- 53) (f64_val ?x1 * f64_val fhalf) ?x2"
    unfolding x1 by (rule mult_rounds [where t = 0]) (use v2 [unfolded x1] in \<open>simp_all del: f64_val_F64\<close>)
  then obtain s2 m2 e2 where x2: "?x2 = F64 s2 m2 e2" using rounds_finite by blast
  have "\<bar>f64_val ?x2\<bar> \<le> 1 / 4" using rounds_hi [OF r2, of 2251799813685248] v2 by (simp add: powi_constants)
  then have v3: "3 / 4 \<le> f64_val fone + f64_val ?x2" "f64_val fone + f64_val ?x2 \<le> 5 / 4"
    unfolding constant_vals by linarith+
  let ?x3 = "f64_add fone ?x2"
  have r3: "rounds (- 52) (f64_val fone + f64_val ?x2) ?x3"
    unfolding x2 by (rule add_rounds [where t = 1]) (use v3 [unfolded x2] in \<open>simp_all del: f64_val_F64\<close>)
  then obtain s3 m3 e3 where x3: "?x3 = F64 s3 m3 e3" using rounds_finite by blast
  have "3 / 4 \<le> \<bar>f64_val ?x3\<bar>" "\<bar>f64_val ?x3\<bar> \<le> 5 / 4" "0 \<le> f64_val ?x3"
    using rounds_lo [OF r3, of 3377699720527872] rounds_hi [OF r3, of 5629499534213120] v3 r3
    by (simp_all add: powi_constants rounds_def)
  then show ?thesis by (intro that [OF x3]) (simp_all only: x3)
qed

text \<open>Within a quarter of the delay, up to rounding to whole nanoseconds.\<close>

lemma jittered_band:
  assumes "unit_draw u" "0 < d" "d < 2 ^ 50"
  shows "3 * d div 4 \<le> jittered oob u d" "jittered oob u d \<le> (5 * d + 3) div 4"
proof -
  let ?fd = "f64_of_int d" and ?x = "f64_add fone (f64_mult (f64_add u fminus_half) fhalf)"
  obtain s m e where x: "?x = F64 s m e" "3 / 4 \<le> f64_val ?x" "f64_val ?x \<le> 5 / 4"
    by (rule factor_band [OF assms(1)]) (simp only:)
  have d: "real (nat d) = real_of_int d" using assms(2) by simp
  have r: "rounds 0 (real_of_int d) ?fd"
    unfolding f64_of_int_def by (rule dyadic_rounds [where t = 53]) (use assms(2,3) in \<open>auto simp: power_int_def\<close>)
  then obtain s' m' e' where fd: "?fd = F64 s' m' e'" using rounds_finite by blast
  have val: "f64_val ?fd = real_of_int d"
    using rounds_hi [OF r, of "nat d"] rounds_lo [OF r, of "nat d"] r assms(2) by (simp add: rounds_def)
  let ?v = "f64_val ?fd * f64_val ?x" and ?p = "f64_mult ?fd ?x"
  define lo hi where "lo = nat (3 * d div 4)" and "hi = nat ((5 * d + 3) div 4)"
  have b: "real lo \<le> real_of_int d * (3 / 4)" "real_of_int d * (5 / 4) \<le> real hi" "hi < 2 ^ 53"
  proof -
    have "4 * int lo \<le> 3 * d" "5 * d \<le> 4 * int hi" "int hi < 2 ^ 53" using assms(2,3) by (auto simp: lo_def hi_def)
    then have "real_of_int (4 * int lo) \<le> real_of_int (3 * d)" "real_of_int (5 * d) \<le> real_of_int (4 * int hi)" "hi < 2 ^ 53"
      by (simp_all only: of_int_le_iff) simp
    then show "real lo \<le> real_of_int d * (3 / 4)" "real_of_int d * (5 / 4) \<le> real hi" "hi < 2 ^ 53" by simp_all
  qed
  have "real_of_int d * (3 / 4) \<le> ?v" "?v \<le> real_of_int d * (5 / 4)"
    unfolding val using x(2,3) assms(2) by (intro mult_left_mono; simp only:; simp)+
  with b have v: "real lo \<le> ?v" "?v \<le> real hi" "0 \<le> ?v" by linarith+
  have hi: "real hi < 2 ^ 53" using b(3) by (metis of_nat_less_numeral_power_cancel_iff)
  have "\<bar>?v\<bar> < 2 powi 53" using v hi by (simp add: power_int_def)
  then have rp: "rounds 0 ?v ?p" unfolding fd x(1) by (rule mult_rounds) simp_all
  then obtain s3 m3 e3 where p: "?p = F64 s3 m3 e3" using rounds_finite by blast
  have "0 \<le> f64_val ?p" by (rule rounds_nonneg [OF rp v(3)])
  moreover from this have "real lo \<le> f64_val ?p" "f64_val ?p \<le> real hi"
    using rounds_lo [OF rp, of lo] rounds_hi [OF rp, of hi] v(1,2) unfolding abs_of_nonneg [OF v(3)] by simp_all
  ultimately have "0 \<le> f64_val ?p" "real lo \<le> f64_val ?p" "f64_val ?p \<le> real hi" by simp_all
  then have t: "int lo \<le> f64_trunc ?p" "f64_trunc ?p \<le> int hi" unfolding p by (rule trunc_between; simp only:)+
  then have "in_int64 (f64_trunc ?p)" using b(3) by (simp add: in_int64_def)
  then have "to_int64 oob ?p = f64_trunc ?p" by (simp add: to_int64_def p)
  then have "jittered oob u d = f64_trunc ?p" using t by (simp add: jittered_def Let_def)
  moreover have "int lo = 3 * d div 4" "int hi = (5 * d + 3) div 4" using assms(2) by (simp_all add: lo_def hi_def)
  ultimately show "3 * d div 4 \<le> jittered oob u d" "jittered oob u d \<le> (5 * d + 3) div 4" using t by simp_all
qed

lemma base_delay_table_min:
  "list_all (\<lambda>k. base_delay (int k) = min retryMaxDelay (retryBaseDelay * 2 ^ (k - 1))) [1..<57]"
  by code_simp

lemma base_delay_min:
  assumes "1 \<le> attempt" "attempt \<le> 56"
  shows "base_delay attempt = min retryMaxDelay (retryBaseDelay * 2 ^ nat (attempt - 1))"
proof -
  have "nat attempt \<in> set [1..<57]" using assms by auto
  with base_delay_table_min have "base_delay (int (nat attempt)) = min retryMaxDelay (retryBaseDelay * 2 ^ (nat attempt - 1))"
    by (simp only: list_all_iff)
  with assms show ?thesis by (simp add: nat_diff_distrib)
qed

text \<open>The delay after the failed attempt \<open>a\<close>: within a quarter of the exponential delay, or longer
  because the server asked for it.\<close>

definition asked_to_wait :: "'w client \<Rightarrow> http_outcome \<Rightarrow> int \<Rightarrow> bool" where
  "asked_to_wait c out d \<longleftrightarrow> (\<exists>now e te. classify (cl_http_date c) now out = Some e
     \<and> as_transient e = Some te \<and> te_RetryAfter te = d)"

definition pace :: "'w client \<Rightarrow> int \<Rightarrow> http_outcome \<Rightarrow> int \<Rightarrow> bool" where
  "pace c a out d \<longleftrightarrow> (let b = min retryMaxDelay (retryBaseDelay * 2 ^ nat (a - 1))
     in 3 * b div 4 \<le> d \<and> (d \<le> (5 * b + 3) div 4 \<or> asked_to_wait c out d))"

fun paced :: "'w client \<Rightarrow> int \<Rightarrow> activity list \<Rightarrow> bool" where
  "paced c a (Sent r out # Slept d # L) \<longleftrightarrow> pace c a out d \<and> paced c (a + 1) L"
| "paced c a [Sent r out] = True"
| "paced c a [] = True"
| "paced c a _ = False"

lemma defaultJitter_band:
  assumes "draws_unit draw" "0 < d" "d < 2 ^ 50"
  shows "3 * d div 4 \<le> fst (defaultJitter oob draw d w)" "fst (defaultJitter oob draw d w) \<le> (5 * d + 3) div 4"
  using jittered_band [OF _ assms(2,3), of "fst (draw w)" oob] assms(1,2)
  by (simp_all add: defaultJitter_def draws_unit_def case_prod_beta)

lemma default_delay:
  assumes "draws_unit draw" "1 \<le> a" "a \<le> 56" "classify (cl_http_date c) now out = Some e"
    and d: "d = honour_retry_after e (fst (defaultJitter oob draw (base_delay a) w))"
  shows "pace c a out d"
proof -
  have "0 < base_delay a" "base_delay a < 2 ^ 50"
    using base_delay_range [OF assms(2,3)] by (auto simp: retryBaseDelay_def retryMaxDelay_def)
  note band = defaultJitter_band [OF assms(1) this, of oob w, unfolded base_delay_min [OF assms(2,3)]]
  show ?thesis
  proof (cases "d = fst (defaultJitter oob draw (base_delay a) w)")
    case True
    then show ?thesis using band by (simp add: pace_def Let_def base_delay_min [OF assms(2,3)])
  next
    case False
    then obtain te where "as_transient e = Some te" "te_RetryAfter te = d" "fst (defaultJitter oob draw (base_delay a) w) \<le> d"
      unfolding d by (auto simp: honour_retry_after_def split: option.splits if_splits)
    then show ?thesis using band assms(4) by (auto simp: pace_def Let_def asked_to_wait_def base_delay_min [OF assms(2,3)])
  qed
qed

lemma attempt_loop_paced:
  assumes draws: "draws_unit draw" and jitter: "cl_jitter c = defaultJitter oob draw"
  shows "run_state (attempt_loop c meth path body dec z n a) s = (r, s') \<Longrightarrow> 1 \<le> a \<Longrightarrow> a + int n \<le> 58 \<Longrightarrow>
    \<exists>L. net_log s' = net_log s @ L \<and> paced c a L"
proof (induction n arbitrary: a s)
  case 0
  then show ?case by simp
next
  case (Suc n)
  have pace: "pace c a out (honour_retry_after e (fst (cl_jitter c (base_delay a) w)))"
    if "n \<noteq> 0" "classify (cl_http_date c) now out = Some e" for out e now w
    using that Suc.prems by (intro default_delay [OF draws _ _ that(2)]) (auto simp: jitter)
  have IH: "\<exists>L. net_log s' = net_log t @ L \<and> paced c (a + 1) L"
    if "run_state (attempt_loop c meth path body dec z n (a + 1)) t = (r, s')" for t
    using Suc.IH [OF that] Suc.prems by simp
  show ?case
    using Suc.prems(1)
    by (auto simp: attempt_loop_Suc Let_def split: option.splits if_splits dest!: IH intro!: pace)
qed

section \<open>Properties\<close>

lemma with_defaults_fields [simp]:
  "cl_jitter (with_defaults oob draw await c) = defaultJitter oob draw"
  "cl_retries (with_defaults oob draw await c) = cl_retries c"
  "cl_http_date (with_defaults oob draw await c) = cl_http_date c"
  by (simp_all add: with_defaults_def)

lemma paced_date: "cl_http_date c' = cl_http_date c \<Longrightarrow> paced c' a L = paced c a L"
  by (induction c' a L rule: paced.induct) (auto simp: pace_def asked_to_wait_def)

text \<open>
  C38.  How a client with the default jitter paces its retries, with at most 57 attempts per call:
  the sleep after the a-th failed attempt is at least three quarters of the exponential delay
  min(2 s, 100 ms * 2^(a-1)), and at most five quarters of it, up to rounding to nanoseconds,
  unless it is longer because the response asked for exactly that with Retry-After.  The
  floating-point computation of the jitter never leaves that band, whatever is drawn from [0, 1).
\<close>

theorem default_pacing:
  assumes "draws_unit draw" "cl_retries c \<le> 57"
    and "run_state (doJSON (with_defaults oob draw await c) meth path body dec z) s = (r, s')"
  shows "\<exists>L. net_log s' = net_log s @ L \<and> paced c 1 L"
proof -
  let ?c = "with_defaults oob draw await c"
  have "\<exists>L. net_log s' = net_log s @ L \<and> paced ?c 1 L"
  proof (cases body)
    case (EncodeError e)
    then show ?thesis using assms(3) by (auto simp: doJSON_def run_simps)
  next
    case NoBody
    then show ?thesis using assms(2,3) by (auto simp: doJSON_def intro!: attempt_loop_paced [OF assms(1)])
  next
    case (Encoded b)
    then show ?thesis using assms(2,3) by (auto simp: doJSON_def intro!: attempt_loop_paced [OF assms(1)])
  qed
  then show ?thesis using paced_date [of ?c c] by auto
qed

theorem default_pacing_witness:
  "\<exists>L. net_log (snd (run_state (doJSON (with_defaults (\<lambda>f. 0) (\<lambda>w. (fzero, w)) (\<lambda>d w. (None, w)) (scripted 3))
       ''GET'' ''/x'' NoBody dec_none ()) (fresh [NetError ''reset'', NetError ''reset'']))) = L
     \<and> paced (scripted 3) 1 L"
proof -
  let ?m = "doJSON (with_defaults (\<lambda>f. 0) (\<lambda>w. (fzero, w)) (\<lambda>d w. (None, w)) (scripted 3)) ''GET'' ''/x'' NoBody dec_none ()"
  let ?s = "fresh [NetError ''reset'', NetError ''reset'']"
  obtain r s' where run: "run_state ?m ?s = (r, s')" by (cases "run_state ?m ?s")
  have "draws_unit (\<lambda>w :: http_outcome list. (fzero, w))" by (simp add: draws_unit_def unit_draw_def)
  from default_pacing [OF this _ run] obtain L where "net_log s' = net_log ?s @ L" "paced (scripted 3) 1 L"
    by (auto simp: scripted_def)
  then show ?thesis using run by (auto simp: fresh_def)
qed

end
