(* ===== verification/Indexers.thy ===== *)
theory Indexers
  imports AccountController EntitlementController Webhook
begin

text \<open>
  internal/controller/indexers.go and the outcome label of internal/controller/metrics.go: the field
  indexes that the lookups of the account reconciler and of the invoice webhook rely on.  The cache
  that keeps an index is the controller library's; what is used of it is \<open>serves\<close>: listing by a key
  gives, in some order, the stored objects that have the key.
\<close>

section \<open>The index functions\<close>

text \<open>An index function is applied to any object and gives no key for one of another kind.\<close>

datatype kobject = KBinding BillingAccountBinding | KAccount BillingAccount | KPaymentMethod PaymentMethod
  | KStripePaymentMethod StripePaymentMethod | KOffer Offer | KOther string

definition BindingBillingAccountRefField :: string where
  "BindingBillingAccountRefField = ''.spec.billingAccountRef.name''"

definition BindingProjectRefField :: string where
  "BindingProjectRefField = ''.spec.projectRef.name''"

definition BillingAccountUIDField :: string where
  "BillingAccountUIDField = ''.metadata.uid''"

definition binding_account_keys :: "kobject \<Rightarrow> string list" where
  "binding_account_keys obj = (case obj of KBinding b \<Rightarrow> [bb_BillingAccountRef b] | _ \<Rightarrow> [])"

definition binding_project_keys :: "kobject \<Rightarrow> string list" where
  "binding_project_keys obj = (case obj of KBinding b \<Rightarrow> [bb_ProjectRef b] | _ \<Rightarrow> [])"

definition account_uid_keys :: "kobject \<Rightarrow> string list" where
  "account_uid_keys obj = (case obj of KAccount a \<Rightarrow> (if ba_UID a = [] then [] else [ba_UID a]) | _ \<Rightarrow> [])"

text \<open>Registering them one after the other, up to the first failure; \<open>register\<close> is \<open>IndexField\<close> on the
  kind, the field and the function.\<close>

definition AddIndexers :: "(string \<Rightarrow> string \<Rightarrow> (kobject \<Rightarrow> string list) \<Rightarrow> ('w, 'err option) io) \<Rightarrow> ('w, 'err option) io" where
  "AddIndexers register = do {
     err \<leftarrow> register ''BillingAccountBinding'' BindingBillingAccountRefField binding_account_keys;
     case err of
       Some e \<Rightarrow> ret (Some e)
     | None \<Rightarrow> do {
         err \<leftarrow> register ''BillingAccountBinding'' BindingProjectRefField binding_project_keys;
         case err of
           Some e \<Rightarrow> ret (Some e)
         | None \<Rightarrow> register ''BillingAccount'' BillingAccountUIDField account_uid_keys
       }
   }"

text \<open>The label under which a reconcile with this result is counted.\<close>

definition reconcileResult :: "reconciled \<Rightarrow> string" where
  "reconcileResult r = (case r of (res, err) \<Rightarrow>
     if err \<noteq> None then ''error'' else if RequeueAfter res > 0 then ''requeue'' else ''success'')"

section \<open>What an index serves\<close>

definition serves :: "(kobject \<Rightarrow> string list) \<Rightarrow> kobject set \<Rightarrow> string \<Rightarrow> kobject list \<Rightarrow> bool" where
  "serves keys stored v ans \<longleftrightarrow> set ans = {obj \<in> stored. v \<in> set (keys obj)}"

lemma serves_bindings:
  "serves binding_account_keys (KBinding ` stored) v (map KBinding ans) \<longleftrightarrow> set ans = {b \<in> stored. bb_BillingAccountRef b = v}"
  by (auto simp: serves_def binding_account_keys_def set_eq_iff image_iff)

lemma serves_accounts:
  "v \<noteq> [] \<Longrightarrow> serves account_uid_keys (KAccount ` stored) v (map KAccount ans) \<longleftrightarrow> set ans = {a \<in> stored. ba_UID a = v}"
  by (auto simp: serves_def account_uid_keys_def set_eq_iff image_iff split: if_splits)

text \<open>Nothing is ever found under the empty identifier.\<close>

lemma serves_accounts_empty: "serves account_uid_keys (KAccount ` stored) [] (map KAccount ans) \<longleftrightarrow> ans = []"
  by (auto simp: serves_def account_uid_keys_def)

lemma reconcileResult_success: "reconcileResult r = ''success'' \<longleftrightarrow> \<not> comes_back r"
  by (cases r) (simp add: reconcileResult_def comes_back_def)

text \<open>A world with the indexes that are there, in the order they were registered.\<close>

lemma AddIndexers_registers:
  assumes "\<And>kind field keys w. run_state (register kind field keys) w = (None, w @ [(kind, field, keys)])"
  shows "run_state (AddIndexers register) w = (None, w @
     [(''BillingAccountBinding'', BindingBillingAccountRefField, binding_account_keys),
      (''BillingAccountBinding'', BindingProjectRefField, binding_project_keys),
      (''BillingAccount'', BillingAccountUIDField, account_uid_keys)])"
  by (simp add: AddIndexers_def run_simps assms)

lemma find_unique_key:
  assumes "distinct (map f xs)" "x \<in> set xs" "f x = v"
  shows "find (\<lambda>y. f y = v) xs = Some x"
  using assms by (induction xs) auto

section \<open>Properties\<close>

text \<open>
  C39.  The account of an event, found through the index or, when the index fails, by going through
  all accounts: with the index registered here and no two accounts of one UID, both ways answer
  the same, namely the account whose UID is the customer id, and nothing when there is none.
\<close>

theorem lookup_agrees:
  assumes "distinct (map ba_UID items)" "c \<noteq> []"
    and "case fst (run_state (wh_ListByUID h c) (ts_world s)) of
        Inr ans \<Rightarrow> serves account_uid_keys (KAccount ` set items) c (map KAccount ans)
      | Inl e \<Rightarrow> fst (run_state (wh_ListAccounts h) (snd (run_state (wh_ListByUID h c) (ts_world s)))) = Inr items"
  shows "fst (run_state (lookupBillingAccount h c) s) = Inr (find (\<lambda>a. ba_UID a = c) items)"
proof -
  obtain x w where x: "run_state (wh_ListByUID h c) (ts_world s) = (x, w)" by fastforce
  obtain y w' where y: "run_state (wh_ListAccounts h) w = (y, w')" by fastforce
  show ?thesis
  proof (cases x)
    case (Inl e)
    with assms(3) x y show ?thesis by (simp add: lookupBillingAccount_def run_simps)
  next
    case (Inr ans)
    with assms(2,3) x have ans: "set ans = {a \<in> set items. ba_UID a = c}" by (simp add: serves_accounts)
    have "find (\<lambda>a. ba_UID a = c) items = (if length ans = 0 then None else Some (ans ! 0))"
    proof (cases ans)
      case Nil
      then show ?thesis using ans by (auto simp: find_None_iff)
    next
      case (Cons a rest)
      then have "a \<in> set items" "ba_UID a = c" using ans by auto
      then show ?thesis using find_unique_key [OF assms(1)] Cons by simp
    qed
    then show ?thesis using Inr x by (simp add: lookupBillingAccount_def run_simps)
  qed
qed

theorem lookup_agrees_witness:
  "fst (run_state (lookupBillingAccount (sample_webhook_env\<lparr>wh_ListByUID := (\<lambda>c. ret (Inl (OtherKubeError ''no index''))),
       wh_ListAccounts := ret (Inr [plain_account ''a'' ''x'' ''u1'', plain_account ''b'' ''x'' ''u2''])\<rparr>) ''u2'')
     \<lparr>ts_world = (), ts_log = []\<rparr>) = Inr (Some (plain_account ''b'' ''x'' ''u2''))
   \<and> fst (run_state (lookupBillingAccount sample_webhook_env ''u2'') \<lparr>ts_world = (), ts_log = []\<rparr>)
       = Inr (Some (plain_account ''ns'' ''acme'' ''u2''))"
proof (rule conjI)
  let ?s = "\<lparr>ts_world = (), ts_log = []\<rparr> :: (unit, webhook_step) traced_state"
  let ?items = "[plain_account ''a'' ''x'' ''u1'', plain_account ''b'' ''x'' ''u2'']"
  let ?h = "sample_webhook_env\<lparr>wh_ListByUID := (\<lambda>c. ret (Inl (OtherKubeError ''no index''))), wh_ListAccounts := ret (Inr ?items)\<rparr>"
  have "fst (run_state (lookupBillingAccount ?h ''u2'') ?s) = Inr (find (\<lambda>a. ba_UID a = ''u2'') ?items)"
    by (rule lookup_agrees) (simp_all add: plain_account_def named_meta_def run_simps)
  then show "fst (run_state (lookupBillingAccount ?h ''u2'') ?s) = Inr (Some (plain_account ''b'' ''x'' ''u2''))"
    by (simp add: plain_account_def named_meta_def)
  let ?a = "plain_account ''ns'' ''acme'' ''u2''"
  have serves: "serves account_uid_keys (KAccount ` set [?a]) ''u2'' (map KAccount [?a])"
    by (subst serves_accounts) (auto simp: plain_account_def named_meta_def)
  have "fst (run_state (lookupBillingAccount sample_webhook_env ''u2'') ?s) = Inr (find (\<lambda>a. ba_UID a = ''u2'') [?a])"
    by (rule lookup_agrees) (use serves in \<open>simp_all add: sample_webhook_env_def run_simps\<close>)
  then show "fst (run_state (lookupBillingAccount sample_webhook_env ''u2'') ?s) = Inr (Some ?a)"
    by (simp add: plain_account_def named_meta_def)
qed

text \<open>
  C40.  The projects a reconcile of an account counts, when the API server lists the bindings of the
  account's namespace by the index: they are, sorted and each once, those of the active bindings
  whose change puts this very account into the queue.  So no binding is counted whose changes
  would go unnoticed, and none that concerns the account is missed.
\<close>

theorem bindings_watched:
  assumes "fst (run_state (env_ListBindings env (ba_Namespace a) (ba_Name a)) (ts_world s)) = Inr ans"
    and "serves binding_account_keys (KBinding ` {b \<in> stored. bb_Namespace b = ba_Namespace a}) (ba_Name a) (map KBinding ans)"
  shows "\<exists>ps. fst (run_state (aggregateActiveBindingProjects env a) s) = Inr ps \<and> sorted ps \<and> distinct ps
     \<and> set ps = bb_ProjectRef ` {b \<in> stored. (ba_Namespace a, ba_Name a) \<in> set (mapBindingToAccount b)
         \<and> bb_Phase b = BillingAccountBindingPhaseActive \<and> bb_ProjectRef b \<noteq> []}"
proof -
  obtain x w where x: "run_state (env_ListBindings env (ba_Namespace a) (ba_Name a)) (ts_world s) = (x, w)" by fastforce
  with assms(1) have "fst (run_state (aggregateActiveBindingProjects env a) s) = Inr (projectsFromActiveBindings ans)"
    by (simp add: aggregateActiveBindingProjects_def run_simps)
  then show ?thesis using assms(2)
    by (auto simp: serves_bindings projectsFromActiveBindings_def sortedCopy_def sorted_set_props mapBindingToAccount_def)
qed

definition sample_binding :: "string \<Rightarrow> BindingPhase \<Rightarrow> BillingAccountBinding" where
  "sample_binding p ph = \<lparr>bb_Namespace = ''ns'', bb_BillingAccountRef = ''acme'', bb_ProjectRef = p, bb_Phase = ph\<rparr>"

theorem bindings_watched_witness:
  "\<exists>ps. fst (run_state (aggregateActiveBindingProjects
       (sample_account_env\<lparr>env_ListBindings := (\<lambda>ns n. ret (Inr [sample_binding ''p2'' BillingAccountBindingPhaseActive,
          sample_binding ''p1'' BillingAccountBindingPhaseActive, sample_binding ''p3'' (OtherBindingPhase ''Pending'')]))\<rparr>)
       (plain_account ''ns'' ''acme'' ''u1'')) \<lparr>ts_world = (), ts_log = []\<rparr>) = Inr ps
     \<and> sorted ps \<and> distinct ps \<and> set ps = {''p1'', ''p2''}"
proof -
  let ?ans = "[sample_binding ''p2'' BillingAccountBindingPhaseActive, sample_binding ''p1'' BillingAccountBindingPhaseActive,
    sample_binding ''p3'' (OtherBindingPhase ''Pending'')]"
  let ?env = "sample_account_env\<lparr>env_ListBindings := (\<lambda>ns n. ret (Inr ?ans))\<rparr>"
  let ?a = "plain_account ''ns'' ''acme'' ''u1''"
  have "set ?ans = {b \<in> {b \<in> set ?ans. bb_Namespace b = ba_Namespace ?a}. bb_BillingAccountRef b = ba_Name ?a}"
    by (auto simp: sample_binding_def plain_account_def named_meta_def)
  then have serves: "serves binding_account_keys (KBinding ` {b \<in> set ?ans. bb_Namespace b = ba_Namespace ?a}) (ba_Name ?a) (map KBinding ?ans)"
    by (simp only: serves_bindings)
  have "{b \<in> set ?ans. (ba_Namespace ?a, ba_Name ?a) \<in> set (mapBindingToAccount b)
      \<and> bb_Phase b = BillingAccountBindingPhaseActive \<and> bb_ProjectRef b \<noteq> []}
    = {sample_binding ''p2'' BillingAccountBindingPhaseActive, sample_binding ''p1'' BillingAccountBindingPhaseActive}"
    by (auto simp: sample_binding_def plain_account_def named_meta_def mapBindingToAccount_def)
  then have "bb_ProjectRef ` {b \<in> set ?ans. (ba_Namespace ?a, ba_Name ?a) \<in> set (mapBindingToAccount b)
      \<and> bb_Phase b = BillingAccountBindingPhaseActive \<and> bb_ProjectRef b \<noteq> []} = {''p1'', ''p2''}"
    by (simp only:) (auto simp: sample_binding_def)
  with bindings_watched [OF _ serves, of ?env "\<lparr>ts_world = (), ts_log = []\<rparr>"] show ?thesis
    by (simp add: run_simps)
qed

end
