(* ===== verification/Exchanges.thy ===== *)
theory Exchanges
  imports Transport
begin

text \<open>
  What a call of the Amberflo client keeps and why it fails, whichever exchanges it makes: an
  invariant of its exchanges and pauses is one of the call, and a failure is the last outcome's.
\<close>

text \<open>The client's own means, its rate limiter, its sleeps and its jitter, keep \<open>I\<close>.\<close>

definition preserved :: "'w client \<Rightarrow> ('w \<Rightarrow> bool) \<Rightarrow> bool" where
  "preserved c I \<longleftrightarrow> (\<forall>w. I w \<longrightarrow> I (snd (cl_wait c w))) \<and> (\<forall>d w. I w \<longrightarrow> I (snd (cl_sleep c d w)))
     \<and> (\<forall>d w. I w \<longrightarrow> I (snd (cl_jitter c d w)))"

lemma attempt_loop_invariant:
  assumes "preserved c I" "\<And>req w. build_request c meth path body = Some req \<Longrightarrow> I w \<Longrightarrow> I (snd (cl_do c req w))"
  shows "run_state (attempt_loop c meth path body dec z n a) s = (r, s') \<Longrightarrow> I (net_world s) \<Longrightarrow> I (net_world s')"
proof (induction n arbitrary: a s)
  case 0
  then show ?case by simp
next
  case (Suc n)
  from assms(1) have "I w \<Longrightarrow> I (snd (cl_wait c w))" "I w \<Longrightarrow> I (snd (cl_sleep c d w))" "I w \<Longrightarrow> I (snd (cl_jitter c d w))" for w d
    by (simp_all add: preserved_def)
  then show ?case using Suc.prems assms(2)
    by (auto simp: attempt_loop_Suc Let_def split: option.splits if_splits intro: Suc.IH)
qed

lemma doJSON_invariant:
  assumes "run_state (doJSON c meth path body dec z) s = (r, s')" "preserved c I" "I (net_world s)"
    and "\<And>req w. build_request c meth path (body_bytes body) = Some req \<Longrightarrow> I w \<Longrightarrow> I (snd (cl_do c req w))"
  shows "I (net_world s')"
proof (cases "\<exists>e. body = EncodeError e")
  case True
  with assms(1,3) show ?thesis by (auto simp: doJSON_def run_simps)
next
  case False
  with assms(1) have "run_state (attempt_loop c meth path (body_bytes body) dec z (nat (cl_retries c)) 1) s = (r, s')"
    by (cases body) (simp_all add: doJSON_def body_bytes_def)
  from attempt_loop_invariant [OF assms(2) assms(4) this assms(3)] show ?thesis .
qed

text \<open>A call that fails has its error from its last exchange, and the error names no resource.\<close>

lemma classify_fails:
  "classify pd now out = Some e \<Longrightarrow> \<not> errors_Is e k \<and> (is_404 e \<longrightarrow> outcome_status out = 404)"
  by (cases out) (auto simp: classify_def Let_def is_404_def outcome_status_def perm_status_def split: if_splits)

lemma decode_fails:
  "success_outcome out \<Longrightarrow> rp_err (decode_reply dec z (outcome_status out) (outcome_body out)) = Some e \<Longrightarrow> \<not> errors_Is e k \<and> \<not> is_404 e"
  by (cases out) (auto simp: decode_reply_def is_404_def perm_status_def success_outcome_def outcome_status_def split: if_splits option.splits)

lemma attempt_loop_fails:
  assumes "undisturbed c"
  shows "run_state (attempt_loop c meth path body dec z n a) s = (r, s') \<Longrightarrow> rp_err r = Some e
    \<Longrightarrow> \<not> errors_Is e k \<and> (is_404 e \<longrightarrow> (\<exists>req w out. build_request c meth path body = Some req
          \<and> cl_do c req w = (out, net_world s') \<and> outcome_status out = 404))"
proof (induction n arbitrary: a s)
  case 0
  then show ?case by auto
next
  case (Suc n)
  have calm: "cl_ctx_err c w = None" "fst (cl_wait c w) = None" "fst (cl_sleep c d w) = None" for d w
    using assms by (simp_all add: undisturbed_def)
  let ?w = "snd (cl_wait c (net_world s))"
  show ?case
  proof (cases "build_request c meth path body")
    case None
    with Suc.prems calm have "e = permanent ''build request''" by (auto simp: attempt_loop_Suc Let_def fail_reply_def)
    then show ?thesis by (simp add: is_404_def perm_status_def)
  next
    case (Some req)
    obtain out w where do: "cl_do c req ?w = (out, w)" by fastforce
    show ?thesis
    proof (cases "classify (cl_http_date c) (cl_now c w) out")
      case None
      with Suc.prems calm Some do have "r = decode_reply dec z (outcome_status out) (outcome_body out)" by (simp add: attempt_loop_Suc Let_def)
      with None decode_fails [of out dec z e k] Suc.prems(2) show ?thesis by (simp add: classify_None_iff)
    next
      case (Some e')
      show ?thesis
      proof (cases "IsPermanent e' \<or> n = 0")
        case True
        with Suc.prems calm Some \<open>build_request c meth path body = Some req\<close> do have "e = e'" "net_world s' = w"
          by (auto simp: attempt_loop_Suc Let_def fail_reply_def)
        with classify_fails [OF Some, of k] \<open>build_request c meth path body = Some req\<close> do show ?thesis by blast
      next
        case False
        with Suc.prems(1) calm Some \<open>build_request c meth path body = Some req\<close> do
        obtain t where "run_state (attempt_loop c meth path body dec z n (a + 1)) t = (r, s')"
          by (simp add: attempt_loop_Suc Let_def)
        from Suc.IH [OF this Suc.prems(2)] show ?thesis .
      qed
    qed
  qed
qed

lemma doJSON_fails:
  assumes "run_state (doJSON c meth path body dec z) s = (r, s')" "rp_err r = Some e" "undisturbed c" "\<And>x. body \<noteq> EncodeError x"
  shows "\<not> errors_Is e k" "is_404 e \<Longrightarrow> \<exists>req w out. build_request c meth path (body_bytes body) = Some req
      \<and> cl_do c req w = (out, net_world s') \<and> outcome_status out = 404"
  using assms attempt_loop_fails [OF assms(3) _ assms(2), of meth path "body_bytes body" dec z "nat (cl_retries c)" 1 s s']
  by (cases body; auto simp: doJSON_def body_bytes_def)+

end
