(* ===== verification/InvoiceFlow.thy ===== *)
theory InvoiceFlow
  imports Provider Exchanges
begin

text \<open>
  An invoice from the HTTP request that announces it to the API server: the webhook of the provider
  program with the client and the syncer it is given.  Over the laws of the two services, the theory
  says what the API server keeps after the webhook has answered with success.
\<close>

section \<open>The Amberflo client leaves the API server alone\<close>

text \<open>\<open>st\<close> is what somebody other than Amberflo keeps; no exchange with Amberflo touches it.\<close>

definition apart :: "'w client \<Rightarrow> ('w \<Rightarrow> 'k) \<Rightarrow> bool" where
  "apart c st \<longleftrightarrow> (\<forall>req w. st (snd (cl_do c req w)) = st w) \<and> (\<forall>w. st (snd (cl_wait c w)) = st w)
     \<and> (\<forall>d w. st (snd (cl_sleep c d w)) = st w) \<and> (\<forall>d w. st (snd (cl_jitter c d w)) = st w)"

lemma doJSON_apart:
  "apart c st \<Longrightarrow> run_state (doJSON c meth path body dec z) s = (r, s') \<Longrightarrow> st (net_world s') = st (net_world s)"
  by (rule doJSON_invariant [where I = "\<lambda>w. st w = st (net_world s)"]) (auto simp only: apart_def preserved_def)

lemma invoice_reads_apart:
  assumes "apart c st"
  shows "run_state (GetInvoice c key) s = (x, s') \<Longrightarrow> st (net_world s') = st (net_world s)"
    and "run_state (ListInvoices c cid) s = (y, s') \<Longrightarrow> st (net_world s') = st (net_world s)"
  by (auto simp: GetInvoice_def ListInvoices_def run_simps doJSON_apart [OF assms] split: if_splits prod.splits)

section \<open>What the API server keeps\<close>

definition invoice_place :: "BillingAccount \<Rightarrow> CustomerProductInvoice \<Rightarrow> string \<times> string" where
  "invoice_place a iv = (ba_Namespace a, InvoiceName (ba_Name a) (ci_InvoiceStartTimeInSeconds iv))"

text \<open>\<open>S'\<close> is \<open>S\<close> with these invoices of the account: under the name of each, the last one of that
  name, in an object whose spec is as it was if there was one.\<close>

definition keeps_invoices :: "'w invoice_api \<Rightarrow> BillingAccount \<Rightarrow> CustomerProductInvoice list
    \<Rightarrow> (string \<times> string \<Rightarrow> Invoice option) \<Rightarrow> (string \<times> string \<Rightarrow> Invoice option) \<Rightarrow> bool" where
  "keeps_invoices api a ivs S S' \<longleftrightarrow> (\<forall>nn.
     case filter (\<lambda>iv. invoice_place a iv = nn) ivs of
       [] \<Rightarrow> S' nn = S nn
     | found \<Rightarrow> (\<exists>t o1. S' nn = Some o1 \<and> shows_invoice api a (last found) (project a (last found) t) o1
         \<and> (\<forall>old. S nn = Some old \<longrightarrow> iv_Spec o1 = iv_Spec old)))"

lemma keeps_invoices_Nil: "keeps_invoices api a [] S S"
  by (simp add: keeps_invoices_def)

lemma keeps_invoices_Cons:
  assumes "shows_invoice api a iv (project a iv t) o1" "S1 = S(invoice_place a iv := Some o1)"
    and "\<forall>old. S (invoice_place a iv) = Some old \<longrightarrow> iv_Spec o1 = iv_Spec old"
    and "keeps_invoices api a ivs S1 S'"
  shows "keeps_invoices api a (iv # ivs) S S'"
  unfolding keeps_invoices_def
proof
  fix nn
  let ?found = "filter (\<lambda>iv. invoice_place a iv = nn) ivs"
  from assms(4) have rest: "case ?found of [] \<Rightarrow> S' nn = S1 nn
     | found \<Rightarrow> (\<exists>t o1. S' nn = Some o1 \<and> shows_invoice api a (last found) (project a (last found) t) o1
         \<and> (\<forall>old. S1 nn = Some old \<longrightarrow> iv_Spec o1 = iv_Spec old))"
    unfolding keeps_invoices_def by blast
  show "case filter (\<lambda>iv. invoice_place a iv = nn) (iv # ivs) of [] \<Rightarrow> S' nn = S nn
     | found \<Rightarrow> (\<exists>t o1. S' nn = Some o1 \<and> shows_invoice api a (last found) (project a (last found) t) o1
         \<and> (\<forall>old. S nn = Some old \<longrightarrow> iv_Spec o1 = iv_Spec old))"
    using rest assms(1-3) by (cases ?found) (auto simp: fun_upd_apply split: if_splits)
qed

lemma keeps_invoices_one:
  assumes "keeps_invoices api a [iv] S S'"
  shows "\<exists>t o1. S' (invoice_place a iv) = Some o1 \<and> shows_invoice api a iv (project a iv t) o1"
  using assms [unfolded keeps_invoices_def, THEN spec, of "invoice_place a iv"] by auto

section \<open>The webhook with its client and syncer\<close>

text \<open>Reading accounts leaves the invoices of the API server alone.\<close>

definition account_reads :: "'w webhook_env \<Rightarrow> 'w invoice_store \<Rightarrow> bool" where
  "account_reads h store \<longleftrightarrow> (\<forall>c w. store (snd (run_state (wh_ListByUID h c) w)) = store w)
     \<and> (\<forall>w. store (snd (run_state (wh_ListAccounts h) w)) = store w)"

text \<open>Nor do the calls of \<open>h\<close> to Amberflo.\<close>

definition invoice_reads :: "'w webhook_env \<Rightarrow> 'w invoice_store \<Rightarrow> bool" where
  "invoice_reads h store \<longleftrightarrow> (\<forall>k w. store (snd (run_state (wh_GetInvoice h k) w)) = store w)
     \<and> (\<forall>c w. store (snd (run_state (wh_ListInvoices h c) w)) = store w)"

abbreviation (input) untouched :: "('w \<Rightarrow> 'k) \<Rightarrow> 'k \<Rightarrow> ('w, 'e) traced_state \<Rightarrow> bool" where
  "untouched store S s \<equiv> store (ts_world s) = S"

lemma keeps_read:
  assumes "\<And>w. store (snd (run_state m w)) = store w"
  shows "keeps (untouched store S) (perform m g)"
  unfolding keeps_def
proof (intro allI impI)
  fix s x s' assume "run_state (perform m g) s = (x, s')" "untouched store S s"
  then have "ts_world s' = snd (run_state m (ts_world s))" by (auto simp: run_perform split: prod.splits)
  with assms [of "ts_world s"] \<open>untouched store S s\<close> show "untouched store S s'" by simp
qed

lemma lookup_keeps: "account_reads h store \<Longrightarrow> keeps (untouched store S) (lookupBillingAccount h c)"
  unfolding lookupBillingAccount_def
  by (intro keeps_intros keeps_read) (simp_all add: account_reads_def)

lemma resolve_keeps: "invoice_reads h store \<Longrightarrow> keeps (untouched store S) (resolveInvoices h ev)"
  unfolding resolveInvoices_def fallback_invoices_def
  by (intro keeps_intros keeps_read) (simp_all add: invoice_reads_def)

lemma run_untraced:
  "run_state (untraced m) w = (x, w') \<Longrightarrow> \<exists>s'. run_state m \<lparr>ts_world = w, ts_log = []\<rparr> = (x, s') \<and> ts_world s' = w'"
  by (auto simp: untraced_def split: prod.splits)

lemma sync_each_keeps:
  assumes "helper_laws api" "store_laws api store" "wh_Upsert h = (\<lambda>a iv. untraced (Upsert api (Some a) iv))"
  shows "run_state (sync_each h ev a ivs) s = (None, s')
    \<Longrightarrow> keeps_invoices api a ivs (store (ts_world s)) (store (ts_world s'))"
proof (induction ivs arbitrary: s)
  case Nil
  then show ?case by (simp add: run_simps keeps_invoices_Nil)
next
  case (Cons iv ivs)
  obtain x w where up: "run_state (wh_Upsert h a iv) (ts_world s) = (x, w)" by fastforce
  from Cons.prems up have x: "x = None" by (auto simp: run_simps split: option.splits)
  let ?t = "s\<lparr>ts_world := w, ts_log := ts_log s @ [SyncedInvoice a iv None]\<rparr>"
  from Cons.prems up x have rest: "run_state (sync_each h ev a ivs) ?t = (None, s')" by (simp add: run_simps)
  from run_untraced [OF up [unfolded assms(3)]] x obtain u where
    "run_state (Upsert api (Some a) iv) \<lparr>ts_world = ts_world s, ts_log = []\<rparr> = (None, u)" "ts_world u = w" by auto
  from Upsert_projects [OF assms(1,2) this(1)] this(2) obtain t o1 where
    "store w = (store (ts_world s))(invoice_place a iv := Some o1)"
    "shows_invoice api a iv (project a iv t) o1"
    "\<forall>old. store (ts_world s) (invoice_place a iv) = Some old \<longrightarrow> iv_Spec o1 = iv_Spec old"
    by (auto simp: invoice_place_def)
  moreover from Cons.IH [OF rest] have "keeps_invoices api a ivs (store w) (store (ts_world s'))" by simp
  ultimately show ?case using keeps_invoices_Cons by metis
qed

text \<open>Whom the lookup of a customer finds, and which invoices an event stands for, in terms of the calls
  made.\<close>

definition found_by :: "string \<Rightarrow> webhook_step list \<Rightarrow> BillingAccount option \<Rightarrow> bool" where
  "found_by cid es x = (case x of
     Some a \<Rightarrow> (\<exists>others. LookedUp cid (Inr (a # others)) \<in> set es)
       \<or> ba_UID a = cid \<and> (\<exists>items. LookedThrough (Inr items) \<in> set es \<and> a \<in> set items)
   | None \<Rightarrow> LookedUp cid (Inr []) \<in> set es
       \<or> (\<exists>items. LookedThrough (Inr items) \<in> set es \<and> (\<forall>b\<in>set items. ba_UID b \<noteq> cid)))"

definition stands_for :: "invoiceReadyEvent \<Rightarrow> webhook_step list \<Rightarrow> CustomerProductInvoice list \<Rightarrow> bool" where
  "stands_for ev es ivs \<longleftrightarrow> (\<exists>iv. ivs = [iv] \<and> FetchedInvoice (ev_Key ev) (Inr iv) \<in> set es)
     \<or> FetchedInvoices (ev_CustomerID ev) (Inr ivs) \<in> set es
     \<or> (\<exists>iv. ev_Embedded ev = Some iv \<and> ivs = [from_event ev iv])"

lemma lookup_finds: "leaves (lookupBillingAccount h cid) (\<lambda>es r. \<forall>x. r = Inr x \<longrightarrow> found_by cid es x)"
  unfolding lookupBillingAccount_def
  by (intro leaves_perform_bind leaves_sum leaves_ret)
    (auto simp: found_by_def find_None_iff neq_Nil_conv dest!: find_uid split: sum.splits option.splits)

lemma resolve_stands: "leaves (resolveInvoices h ev) (\<lambda>es r. \<forall>ivs. r = Inr ivs \<longrightarrow> stands_for ev es ivs)"
  unfolding resolveInvoices_def fallback_invoices_def
  by (intro leaves_if leaves_option leaves_perform_bind leaves_sum leaves_ret)
    (auto simp: stands_for_def split: sum.splits)

lemma instrumented_reads:
  assumes "apart c st"
  shows "st (net_world (ts_world (snd (run_state (op_GetInvoice (methods (instrumented c)) k) w)))) = st (net_world (ts_world w))"
    and "st (net_world (ts_world (snd (run_state (op_ListInvoices (methods (instrumented c)) cid) w)))) = st (net_world (ts_world w))"
  by (auto simp: NewInstrumentedClient_def http_client_def run_forward run_unmetered split: prod.splits
      dest: invoice_reads_apart [OF assms])

lemma handler_parts:
  assumes "webhook_handler files cfg envSecret cl syncer base = Some h"
  shows "wh_Upsert h = (\<lambda>a iv. untraced (Upsert syncer (Some a) iv))" "wh_GetInvoice h = op_GetInvoice (methods cl)"
    "wh_ListInvoices h = op_ListInvoices (methods cl)" "wh_ListByUID h = wh_ListByUID base" "wh_ListAccounts h = wh_ListAccounts base"
  using assms by (auto simp: webhook_handler_def split: option.splits sum.splits)

lemma ServeHTTP_200:
  assumes "run_state (ServeHTTP oob h rq) s = (resp, s')" "hs_Status resp = 200"
  obtains body ev where "read_body rq = Some body" "parseInvoiceReadyEvent oob body = Some ev" "ev_CustomerID ev \<noteq> []"
    "run_state (handle h ev) s = (None, s')"
  using assms by (auto simp: ServeHTTP_def http_Error_def run_simps split: if_splits option.splits prod.splits)

lemma handle_stores:
  assumes "helper_laws api" "store_laws api store" "wh_Upsert h = (\<lambda>a iv. untraced (Upsert api (Some a) iv))"
    and "account_reads h store" "invoice_reads h store" "run_state (handle h ev) s = (None, s')"
  shows "\<exists>x es rest. ts_log s' = ts_log s @ es @ rest \<and> found_by (ev_CustomerID ev) es x
    \<and> (case x of None \<Rightarrow> store (ts_world s') = store (ts_world s)
       | Some a \<Rightarrow> (\<exists>ivs. stands_for ev es ivs \<and> keeps_invoices api a ivs (store (ts_world s)) (store (ts_world s'))))"
proof -
  obtain r s1 where r: "run_state (lookupBillingAccount h (ev_CustomerID ev)) s = (r, s1)" by fastforce
  from leavesD [OF lookup_finds r] obtain es where es: "ts_log s1 = ts_log s @ es"
    "\<forall>x. r = Inr x \<longrightarrow> found_by (ev_CustomerID ev) es x" by blast
  have w1: "store (ts_world s1) = store (ts_world s)" using keepsD [OF lookup_keeps [OF assms(4)] r] by blast
  have "\<exists>x. r = Inr x" using assms(6) r by (cases r) (auto simp: handle_def run_simps)
  then obtain x where x: "r = Inr x" by blast
  show ?thesis
  proof (cases x)
    case None
    with assms(6) r x have "s' = s1" by (auto simp: handle_def run_simps)
    with es x None w1 show ?thesis by (intro exI [of _ None] exI [of _ es] exI [of _ "[]"]) simp
  next
    case (Some a)
    obtain q s2 where q: "run_state (resolveInvoices h ev) s1 = (q, s2)" by fastforce
    from assms(6) r x Some q obtain ivs where ivs: "q = Inr ivs" and sync: "run_state (sync_each h ev a ivs) s2 = (None, s')"
      by (cases q) (auto simp: handle_def run_simps)
    from leavesD [OF resolve_stands q] obtain us where us: "ts_log s2 = ts_log s1 @ us" "stands_for ev us ivs" using ivs by blast
    have w2: "store (ts_world s2) = store (ts_world s1)" using keepsD [OF resolve_keeps [OF assms(5)] q] by blast
    from leavesD [OF sync_each_leaves sync] obtain rest where "ts_log s' = ts_log s2 @ rest" by blast
    moreover have "found_by (ev_CustomerID ev) (es @ us) x" using es(2) x by (auto simp: found_by_def split: option.splits)
    moreover have "stands_for ev (es @ us) ivs" using us(2) by (auto simp: stands_for_def)
    moreover note sync_each_keeps [OF assms(1-3) sync]
    ultimately show ?thesis using es(1) us(1) w1 w2 Some
      by (intro exI [of _ "Some a"] exI [of _ "es @ us"] exI [of _ rest]) auto
  qed
qed

section \<open>Properties\<close>

text \<open>
  C11.  From the announcement of an invoice to the API server: when the webhook the provider program
  builds answers a request with 200, then either it found no account for the event's customer and
  the invoices of the API server are as before, or it found the account and the API server now has,
  under the name of each invoice the event stands for, the last of that name as Amberflo gave it,
  and all its other invoices as before.
\<close>

theorem webhook_stores:
  assumes "webhook_handler files cfg envSecret (instrumented c) syncer base = Some h"
    and "run_state (ServeHTTP oob h rq) s = (resp, s')" "hs_Status resp = 200"
    and "helper_laws syncer" "store_laws syncer (\<lambda>w. st (net_world (ts_world w)))"
    and "account_reads base (\<lambda>w. st (net_world (ts_world w)))" "apart c st"
  shows "\<exists>body ev x es rest. read_body rq = Some body \<and> parseInvoiceReadyEvent oob body = Some ev
    \<and> ts_log s' = ts_log s @ es @ rest \<and> found_by (ev_CustomerID ev) es x
    \<and> (case x of None \<Rightarrow> st (net_world (ts_world (ts_world s'))) = st (net_world (ts_world (ts_world s)))
       | Some a \<Rightarrow> (\<exists>ivs. stands_for ev es ivs \<and> keeps_invoices syncer a ivs
           (st (net_world (ts_world (ts_world s)))) (st (net_world (ts_world (ts_world s'))))))"
proof -
  let ?store = "\<lambda>w. st (net_world (ts_world w))"
  note parts = handler_parts [OF assms(1)]
  obtain body ev where ev: "read_body rq = Some body" "parseInvoiceReadyEvent oob body = Some ev"
    "run_state (handle h ev) s = (None, s')" by (rule ServeHTTP_200 [OF assms(2,3)])
  have "account_reads h ?store" using assms(6) by (simp add: account_reads_def parts)
  moreover have "invoice_reads h ?store" by (simp add: invoice_reads_def parts instrumented_reads [OF assms(7)])
  ultimately show ?thesis using handle_stores [OF assms(4,5) parts(1) _ _ ev(3)] ev(1,2) by blast
qed

text \<open>The API server in memory, as a part of the world of the program.\<close>

definition on_store :: "('w, 'a) io \<Rightarrow> ('w sys, 'a) io" where
  "on_store m = State (\<lambda>w. case run_state m (net_world (ts_world w)) of
     (x, u) \<Rightarrow> (x, w\<lparr>ts_world := (ts_world w)\<lparr>net_world := u\<rparr>\<rparr>))"

definition lifted :: "'w invoice_api \<Rightarrow> 'w sys invoice_api" where
  "lifted api = \<lparr>api_Now = on_store (api_Now api), api_Get = (\<lambda>ns n. on_store (api_Get api ns n)),
     api_Create = (\<lambda>o1. on_store (api_Create api o1)), api_Patch = (\<lambda>b o1. on_store (api_Patch api b o1)),
     api_StatusPatch = (\<lambda>b o1. on_store (api_StatusPatch api b o1)), api_SetOwnerReference = api_SetOwnerReference api,
     api_SetStatusCondition = api_SetStatusCondition api, api_GroupVersion = api_GroupVersion api,
     api_ReadyCondition = api_ReadyCondition api, api_phase_text = api_phase_text api\<rparr>"

lemma run_on_store:
  "run_state (on_store m) w = (x, w') \<Longrightarrow> run_state m (net_world (ts_world w)) = (x, net_world (ts_world w'))"
  by (auto simp: on_store_def split: prod.splits)

lemma write_law_lifted:
  "write_law m store good \<Longrightarrow> write_law (\<lambda>o1. on_store (m o1)) (\<lambda>w. store (net_world (ts_world w))) good"
  unfolding write_law_def by (blast dest: run_on_store)

lemma lifted_laws:
  assumes "helper_laws api" "store_laws api store"
  shows "helper_laws (lifted api)" "store_laws (lifted api) (\<lambda>w. store (net_world (ts_world w)))"
proof -
  show "helper_laws (lifted api)" using assms(1) by (simp add: helper_laws_def lifted_def)
  from assms(2) have "write_law (\<lambda>o1. on_store (api_Create api o1)) (\<lambda>w. store (net_world (ts_world w)))
      (\<lambda>obj o1. same_labels (iv_Meta o1) (iv_Meta obj) \<and> iv_Spec o1 = iv_Spec obj)"
    "\<And>b. write_law (\<lambda>o1. on_store (api_Patch api b o1)) (\<lambda>w. store (net_world (ts_world w)))
      (\<lambda>obj o1. same_labels (iv_Meta o1) (iv_Meta obj) \<and> iv_Spec o1 = iv_Spec obj)"
    "\<And>b. write_law (\<lambda>o1. on_store (api_StatusPatch api b o1)) (\<lambda>w. store (net_world (ts_world w)))
      (\<lambda>obj o1. same_labels (iv_Meta o1) (iv_Meta obj) \<and> iv_Spec o1 = iv_Spec obj \<and> iv_Status o1 = iv_Status obj)"
    by (auto simp: store_laws_def intro!: write_law_lifted)
  with assms(2) show "store_laws (lifted api) (\<lambda>w. store (net_world (ts_world w)))"
    unfolding store_laws_def by (simp add: lifted_def) (blast dest: run_on_store)
qed

type_synonym invoices = "string \<times> string \<Rightarrow> Invoice option"

definition sample_body :: string where
  "sample_body = print (JObj [(''invoiceStartTimeInSeconds'', JNum (itoa 1767225600)), (''invoiceKey'', enc_key sample_key)])"

definition amber :: "invoices client" where
  "amber = \<lparr>cl_apiKey = ''key'', cl_userAgent = ''agent'', cl_retries = 4, cl_do = (\<lambda>req w. (Response 200 [] sample_body, w)),
     cl_ctx_err = (\<lambda>w. None), cl_wait = (\<lambda>w. (None, w)), cl_sleep = (\<lambda>d w. (None, w)), cl_jitter = (\<lambda>d w. (d, w)),
     cl_now = (\<lambda>w. 0), cl_http_date = (\<lambda>t. None)\<rparr>"

lemma amber_request: "\<exists>req. build_request amber ''GET'' (invoiceGetPath sample_key) None = Some req"
proof -
  have "list_all (\<lambda>c. \<not> is_ctl c) (snd (resolve (invoiceGetPath sample_key)))" by code_simp
  then show ?thesis by (auto simp: build_request_def list_ex_iff list_all_iff split: prod.split)
qed

lemma amber_decodes: "dec_invoice sample_body = Some (zero_invoice\<lparr>ci_InvoiceStartTimeInSeconds := 1767225600, ci_InvoiceKey := sample_key\<rparr>)"
proof -
  let ?j = "JObj [(''invoiceStartTimeInSeconds'', JNum (itoa 1767225600)), (''invoiceKey'', enc_key sample_key)]"
  have "wf_json ?j" using enc_key_wf by simp
  moreover have "decode_struct invoice_fields zero_invoice ?j
      = Some (zero_invoice\<lparr>ci_InvoiceStartTimeInSeconds := 1767225600, ci_InvoiceKey := sample_key\<rparr>)"
  proof -
    have start: "find_field invoice_fields ''invoiceStartTimeInSeconds'' = Some (field ci_InvoiceStartTimeInSeconds
        (\<lambda>x. ci_InvoiceStartTimeInSeconds_update (\<lambda>_. x)) dec_int64)"
      by (simp add: find_field_def invoice_fields_def)
    have num: "dec_int64 0 (JNum (itoa 1767225600)) = Some 1767225600" by (simp add: in_int64_def)
    obtain ms where ms: "enc_key sample_key = JObj ms" by (simp add: enc_key_def)
    have "decode_members key_fields ms zero_key = Some sample_key"
      by (rule decode_key_ignoring [OF _ _ _ ms]) (simp_all add: sample_key_def in_int64_def)
    then show ?thesis
      by (simp add: decode_struct_def start documented_fields field_def num ms)
        (simp add: zero_invoice_def num documented_fields field_def decode_struct_def)
  qed
  ultimately show ?thesis unfolding dec_invoice_def sample_body_def by (simp only: unmarshal_print)
qed

definition amber_invoice :: CustomerProductInvoice where
  "amber_invoice = zero_invoice\<lparr>ci_InvoiceStartTimeInSeconds := 1767225600, ci_InvoiceKey := sample_key, ci_Raw := sample_body\<rparr>"

lemma amber_gets:
  "\<exists>n. run_state (GetInvoice amber sample_key) s = (Inr amber_invoice, n) \<and> net_world n = net_world s"
proof -
  obtain req where req: "build_request amber ''GET'' (invoiceGetPath sample_key) (body_bytes NoBody) = Some req"
    using amber_request by (auto simp: body_bytes_def)
  have "run_state (doJSON amber ''GET'' (invoiceGetPath sample_key) NoBody dec_invoice zero_invoice) s
      = (decode_reply dec_invoice zero_invoice (outcome_status (Response 200 [] sample_body)) (outcome_body (Response 200 [] sample_body)),
         s\<lparr>net_world := net_world s, net_log := net_log s @ [Sent req (Response 200 [] sample_body)]\<rparr>)"
    by (rule doJSON_first [OF _ _ req]) (simp_all add: amber_def success_outcome_def undisturbed_def)
  moreover have "sample_body \<noteq> []" "sample_body \<noteq> ''null''" "sample_body \<noteq> ''{}''" by (simp_all add: sample_body_def)
  ultimately show ?thesis
    by (simp add: GetInvoice_def run_simps decode_reply_val amber_decodes outcome_status_def outcome_body_def no_invoice_def)
      (simp add: amber_invoice_def sample_key_def)
qed

lemma amber_apart: "apart amber (\<lambda>w. w)"
  by (simp add: apart_def amber_def)

definition sample_request :: http_req where
  "sample_request = \<lparr>hr_Method = ''POST'', hr_Header = [(''X-Auth'', ''s3cret'')],
     hr_Body = print (documented_event ''ready-product-invoices'' ''u1'' ''s3://i'' sample_key), hr_BodyFails = False\<rparr>"

lemma sample_event:
  "\<exists>body. read_body sample_request = Some body \<and> parseInvoiceReadyEvent (\<lambda>f. 0) body
     = Some \<lparr>ev_CustomerID = ''u1'', ev_InvoiceURI = ''s3://i'', ev_Key = sample_key, ev_Embedded = None\<rparr>"
proof (intro exI conjI)
  let ?text = "print (documented_event ''ready-product-invoices'' ''u1'' ''s3://i'' sample_key)"
  have "length ?text \<le> 300" by code_simp
  then show "read_body sample_request = Some ?text"
    by (simp add: read_body_def sample_request_def maxBodyBytes_def del: print.simps)
  show "parseInvoiceReadyEvent (\<lambda>f. 0) ?text
      = Some \<lparr>ev_CustomerID = ''u1'', ev_InvoiceURI = ''s3://i'', ev_Key = sample_key, ev_Embedded = None\<rparr>"
    by (rule parseInvoiceReadyEvent_documented) (simp_all add: sample_key_def key_complete_def in_int64_def)
qed

lemma amber_upserts:
  assumes "net_world (ts_world w) = (\<lambda>_. None)"
  shows "fst (run_state (untraced (Upsert (lifted memory_api) (Some (plain_account ns n u)) amber_invoice)) w) = None"
  using assms
  by (auto simp: untraced_def Upsert_def run_simps lifted_def on_store_def memory_api_def amber_invoice_def Let_def
      create_invoice_def store_put_def patchStatus_def split: prod.splits)

lemma sample_handled:
  assumes "webhook_handler (\<lambda>p. FileAbsent) sample_config ''s3cret'' (instrumented amber) (lifted memory_api) sample_webhook_env = Some h"
    and "net_world (ts_world (ts_world s)) = (\<lambda>_. None)"
  defines "ev \<equiv> \<lparr>ev_CustomerID = ''u1'', ev_InvoiceURI = ''s3://i'', ev_Key = sample_key, ev_Embedded = None\<rparr>"
  obtains s' where "run_state (handle h ev) s = (None, s')"
    "ts_log s' = ts_log s @ [LookedUp ''u1'' (Inr [plain_account ''ns'' ''acme'' ''u1'']), FetchedInvoice sample_key (Inr amber_invoice),
       SyncedInvoice (plain_account ''ns'' ''acme'' ''u1'') amber_invoice None]"
proof -
  note parts = handler_parts [OF assms(1)]
  let ?a = "plain_account ''ns'' ''acme'' ''u1''"
  obtain w where get: "run_state (wh_GetInvoice h sample_key) (ts_world s) = (Inr amber_invoice, w)"
    "net_world (ts_world w) = (\<lambda>_. None)"
    using amber_gets [of "ts_world (ts_world s)"] assms(2)
    by (auto simp: parts NewInstrumentedClient_def http_client_def run_forward run_unmetered)
  obtain w' where up: "run_state (wh_Upsert h ?a amber_invoice) w = (None, w')"
    using amber_upserts [OF get(2), of "''ns''" "''acme''" "''u1''"] by (metis parts(1) prod.collapse)
  have key: "key_complete sample_key" by (simp add: sample_key_def key_complete_def)
  have "run_state (wh_ListByUID h ''u1'') (ts_world s) = (Inr [?a], ts_world s)"
    by (simp add: parts sample_webhook_env_def run_simps)
  then show thesis using get up key
    by (intro that [of "s\<lparr>ts_world := w', ts_log := ts_log s @ [LookedUp ''u1'' (Inr [?a]), FetchedInvoice sample_key (Inr amber_invoice),
       SyncedInvoice ?a amber_invoice None]\<rparr>"])
      (simp_all add: handle_def lookupBillingAccount_def resolveInvoices_def ev_def run_simps)
qed

theorem webhook_stores_witness:
  "\<exists>h resp s' t o1. webhook_handler (\<lambda>p. FileAbsent) sample_config ''s3cret'' (instrumented amber) (lifted memory_api) sample_webhook_env = Some h
     \<and> run_state (ServeHTTP (\<lambda>f. 0) h sample_request) \<lparr>ts_world = \<lparr>ts_world = fresh (\<lambda>_. None), ts_log = []\<rparr>, ts_log = []\<rparr> = (resp, s')
     \<and> hs_Status resp = 200
     \<and> net_world (ts_world (ts_world s')) (''ns'', InvoiceName ''acme'' 1767225600) = Some o1
     \<and> shows_invoice (lifted memory_api) (plain_account ''ns'' ''acme'' ''u1'') amber_invoice
         (project (plain_account ''ns'' ''acme'' ''u1'') amber_invoice t) o1"
proof -
  let ?w = "\<lparr>ts_world = fresh (\<lambda>_. None), ts_log = []\<rparr> :: invoices sys"
  let ?s = "\<lparr>ts_world = ?w, ts_log = []\<rparr> :: (invoices sys, webhook_step) traced_state"
  let ?a = "plain_account ''ns'' ''acme'' ''u1''"
  let ?ev = "\<lparr>ev_CustomerID = ''u1'', ev_InvoiceURI = ''s3://i'', ev_Key = sample_key, ev_Embedded = None\<rparr>"
  have trim: "trim_space ''s3cret'' = ''s3cret''" by code_simp
  then obtain h where h: "webhook_handler (\<lambda>p. FileAbsent) sample_config ''s3cret'' (instrumented amber) (lifted memory_api) sample_webhook_env = Some h"
      "wh_Secret h = ''s3cret''" "wh_SecretHeader h = []"
    by (simp add: webhook_handler_def sample_config_def Let_def loadWebhookSecret_def loadSecretValue_def)
  have canon: "canonical_header ''X-Auth'' = ''X-Auth''" by code_simp
  have auth: "authorize h sample_request" using h(2,3) trim
    by (simp add: canon authorize_def sample_request_def header_Get_def mget_def DefaultSecretHeader_def Let_def)
  obtain s' where s': "run_state (handle h ?ev) ?s = (None, s')"
    "ts_log s' = ts_log ?s @ [LookedUp ''u1'' (Inr [?a]), FetchedInvoice sample_key (Inr amber_invoice), SyncedInvoice ?a amber_invoice None]"
    by (rule sample_handled [OF h(1), of ?s]) (simp_all add: fresh_def)
  obtain body where body: "read_body sample_request = Some body" "parseInvoiceReadyEvent (\<lambda>f. 0) body = Some ?ev"
    using sample_event by blast
  have post: "hr_Method sample_request = ''POST''" by (simp add: sample_request_def)
  obtain resp where run: "run_state (ServeHTTP (\<lambda>f. 0) h sample_request) ?s = (resp, s')" "hs_Status resp = 200"
    using auth body s'(1) post by (simp add: ServeHTTP_def run_simps)
  have reads: "account_reads sample_webhook_env (\<lambda>w. net_world (ts_world w) :: invoices)"
    by (simp add: account_reads_def sample_webhook_env_def run_simps)
  from webhook_stores [OF h(1) run lifted_laws [OF memory_api_laws] reads amber_apart]
  obtain x es rest where res: "ts_log s' = ts_log ?s @ es @ rest" "found_by ''u1'' es x"
    "case x of None \<Rightarrow> net_world (ts_world (ts_world s')) = net_world (ts_world (ts_world ?s))
       | Some a \<Rightarrow> (\<exists>ivs. stands_for ?ev es ivs \<and> keeps_invoices (lifted memory_api) a ivs
           (net_world (ts_world (ts_world ?s))) (net_world (ts_world (ts_world s'))))"
    using body by auto
  have es: "set es \<subseteq> {LookedUp ''u1'' (Inr [?a]), FetchedInvoice sample_key (Inr amber_invoice), SyncedInvoice ?a amber_invoice None}"
    using res(1) s'(2) by (metis Un_upper1 append_Nil list.set(1) list.set(2) same_append_eq set_append traced_state.select_convs(2))
  have "x = Some ?a" using es res(2) by (auto simp: found_by_def split: option.splits)
  with res(3) obtain ivs where ivs: "stands_for ?ev es ivs" and kept: "keeps_invoices (lifted memory_api) ?a ivs
      (net_world (ts_world (ts_world ?s))) (net_world (ts_world (ts_world s')))" by auto
  have "ivs = [amber_invoice]" using es ivs by (auto simp: stands_for_def)
  moreover have "invoice_place ?a amber_invoice = (''ns'', InvoiceName ''acme'' 1767225600)"
    by (simp add: invoice_place_def amber_invoice_def plain_account_def named_meta_def)
  ultimately obtain t o1 where "net_world (ts_world (ts_world s')) (''ns'', InvoiceName ''acme'' 1767225600) = Some o1"
    "shows_invoice (lifted memory_api) ?a amber_invoice (project ?a amber_invoice t) o1"
    using keeps_invoices_one kept by metis
  with h(1) run show ?thesis by blast
qed

end
