(* ===== verification/AccountFlow.thy ===== *)
theory AccountFlow
  imports InvoiceFlow
begin

text \<open>
  A billing account from the API server to Amberflo: the reconciler of the provider program with the
  client and the syncer it is given.  When a run says that the account is synced, Amberflo keeps the
  customer the account and its bindings call for.
\<close>

section \<open>Who writes customers\<close>

text \<open>Of the exchanges with Amberflo only the requests to /customers that are no GET change what it keeps
  of customers, and what the client does besides requests changes nothing of it.\<close>

definition writes_customers :: "Transport.http_req \<Rightarrow> bool" where
  "writes_customers req \<longleftrightarrow> rq_Path req = ''/customers'' \<and> rq_Method req \<noteq> ''GET''"

definition only_writes :: "'w client \<Rightarrow> ('w \<Rightarrow> 'k) \<Rightarrow> bool" where
  "only_writes c st \<longleftrightarrow> (\<forall>req w. \<not> writes_customers req \<longrightarrow> st (snd (cl_do c req w)) = st w)
     \<and> (\<forall>w. st (snd (cl_wait c w)) = st w) \<and> (\<forall>d w. st (snd (cl_sleep c d w)) = st w)
     \<and> (\<forall>d w. st (snd (cl_jitter c d w)) = st w)"

lemma doJSON_quiet:
  assumes "only_writes c st" "meth = ''GET'' \<or> fst (resolve path) \<noteq> ''/customers''"
    and "run_state (doJSON c meth path body dec z) s = (r, s')"
  shows "st (net_world s') = st (net_world s)"
proof (rule doJSON_invariant [where I = "\<lambda>w. st w = st (net_world s)", OF assms(3)])
  fix req w assume "build_request c meth path (body_bytes body) = Some req" "st w = st (net_world s)"
  with build_request_path [OF this(1)] assms(1,2) show "st (snd (cl_do c req w)) = st (net_world s)"
    by (auto simp: only_writes_def writes_customers_def)
qed (use assms(1) in \<open>simp_all add: only_writes_def preserved_def\<close>)

lemma other_calls_quiet:
  assumes "only_writes c st"
  shows "run_state (ListPaymentSettings c) s = (a, s') \<Longrightarrow> st (net_world s') = st (net_world s)"
    and "run_state (ListPaymentMethodSwitches c cid) s = (b, s') \<Longrightarrow> st (net_world s') = st (net_world s)"
    and "run_state (SchedulePaymentMethodSwitch c sw) s = (d, s') \<Longrightarrow> st (net_world s') = st (net_world s)"
    and "run_state (ListInvoices c cid) s = (e, s') \<Longrightarrow> st (net_world s') = st (net_world s)"
proof -
  have switch: "fst (resolve ''/customers/payment-method/switch'') \<noteq> ''/customers''" by code_simp
  show "run_state (ListPaymentSettings c) s = (a, s') \<Longrightarrow> st (net_world s') = st (net_world s)"
    "run_state (ListPaymentMethodSwitches c cid) s = (b, s') \<Longrightarrow> st (net_world s') = st (net_world s)"
    "run_state (ListInvoices c cid) s = (e, s') \<Longrightarrow> st (net_world s') = st (net_world s)"
    by (auto simp: ListPaymentSettings_def ListPaymentMethodSwitches_def ListInvoices_def run_simps
        doJSON_quiet [OF assms disjI1 [OF refl]] split: if_splits prod.splits)
  show "run_state (SchedulePaymentMethodSwitch c sw) s = (d, s') \<Longrightarrow> st (net_world s') = st (net_world s)"
    by (auto simp: SchedulePaymentMethodSwitch_def run_simps doJSON_quiet [OF assms disjI2 [OF switch]]
        split: if_splits prod.splits)
qed

text \<open>The API server does not change what Amberflo keeps.\<close>

definition kube_apart :: "('w \<Rightarrow> 'k) \<Rightarrow> 'w account_env \<Rightarrow> 'w invoice_api \<Rightarrow> bool" where
  "kube_apart st env api \<longleftrightarrow> (\<forall>w. st (snd (run_state (env_Now env) w)) = st w)
     \<and> (\<forall>w. st (snd (run_state (api_Now api) w)) = st w) \<and> (\<forall>ns n w. st (snd (run_state (api_Get api ns n) w)) = st w)
     \<and> (\<forall>x w. st (snd (run_state (api_Create api x) w)) = st w) \<and> (\<forall>x y w. st (snd (run_state (api_Patch api x y) w)) = st w)
     \<and> (\<forall>x y w. st (snd (run_state (api_StatusPatch api x y) w)) = st w)"

lemma Upsert_quiet:
  assumes "kube_apart st env api"
  shows "st (snd (run_state (untraced (Upsert api a iv)) w)) = st w"
proof -
  have p: "keeps (untouched st S) (patchStatus api x acc iv pj)" for S x acc pj
    unfolding patchStatus_def Let_def
    by (intro keeps_intros keeps_read) (use assms in \<open>simp_all add: kube_apart_def\<close>)
  have "keeps (untouched st (st w)) (Upsert api a iv)"
    unfolding Upsert_def create_invoice_def Let_def
    by (intro keeps_intros keeps_read p) (use assms in \<open>simp_all add: kube_apart_def\<close>)
  from keepsD [OF this, of "\<lparr>ts_world = w, ts_log = []\<rparr>"] show ?thesis
    by (simp add: untraced_def split: prod.splits) 
qed

abbreviation kept_customers :: "('w \<Rightarrow> string \<Rightarrow> string option) \<Rightarrow> 'w sys \<Rightarrow> string \<Rightarrow> string option" where
  "kept_customers kept w \<equiv> kept (net_world (ts_world w))"

lemma reconciler_quiet:
  assumes "only_writes c kept" "kube_apart (kept_customers kept) base syncer"
    and env_def: "env = account_reconciler cfg (instrumented c) syncer base"
  shows "kept_customers kept (snd (run_state (env_ListPaymentSettings env) w)) = kept_customers kept w"
    and "kept_customers kept (snd (run_state (env_ListPaymentMethodSwitches env cid) w)) = kept_customers kept w"
    and "kept_customers kept (snd (run_state (env_SchedulePaymentMethodSwitch env sw) w)) = kept_customers kept w"
    and "kept_customers kept (snd (run_state (env_ListInvoices env cid) w)) = kept_customers kept w"
    and "kept_customers kept (snd (run_state (env_UpsertInvoice env a iv) w)) = kept_customers kept w"
    and "kept_customers kept (snd (run_state (env_Now env) w)) = kept_customers kept w"
proof -
  show "kept_customers kept (snd (run_state (env_UpsertInvoice env a iv) w)) = kept_customers kept w"
    using Upsert_quiet [OF assms(2)] by (simp add: env_def account_reconciler_def)
  show "kept_customers kept (snd (run_state (env_Now env) w)) = kept_customers kept w"
    using assms(2) by (simp add: env_def account_reconciler_def kube_apart_def)
qed (auto simp: env_def account_reconciler_def NewInstrumentedClient_def http_client_def run_forward run_unmetered
    split: prod.splits dest: other_calls_quiet [OF assms(1)])


section \<open>Runs that say synced\<close>

definition synced :: "account_step \<Rightarrow> bool" where
  "synced e \<longleftrightarrow> (\<exists>m. e = Event ''Normal'' EventReasonSynced m)"

lemma synced_simps [simp]:
  "\<not> synced (ReadClock t)" "\<not> synced (GotPaymentMethod a)" "\<not> synced (GotStripePaymentMethod b)"
  "\<not> synced (ListedBindings c)" "\<not> synced (GotCustomer i g)" "\<not> synced (EnsuredCustomer d r)"
  "\<not> synced (Event ''Warning'' k m)"
  by (simp_all add: synced_def)

lemma silent: "only (\<lambda>e. \<not> synced e) m \<Longrightarrow> run_state m s = (x, t) \<Longrightarrow> \<exists>es. ts_log t = ts_log s @ es \<and> (\<forall>e\<in>set es. \<not> synced e)"
  unfolding only_def by (rule leavesD)

lemma silent_parts:
  "only (\<lambda>e. \<not> synced e) (aggregateActiveBindingProjects env account)"
  "only (\<lambda>e. \<not> synced e) (resolveStripeCustomerID env account)"
  "only (\<lambda>e. \<not> synced e) (extra_traits env cid sid)"
  "only (\<lambda>e. \<not> synced e) (handleAmberfloError env err)"
  unfolding aggregateActiveBindingProjects_def resolveStripeCustomerID_def extra_traits_def handleAmberfloError_def event_def Let_def
  by (intro only_intros; simp)+

text \<open>What a run adds to the log.\<close>

definition says :: "('e \<Rightarrow> bool) \<Rightarrow> ('w, 'e) traced_state \<Rightarrow> ('w, 'e) traced_state \<Rightarrow> bool" where
  "says P s s' \<longleftrightarrow> (\<exists>es. ts_log s' = ts_log s @ es \<and> (\<exists>e\<in>set es. P e))"

lemma says_bind:
  assumes "run_state (State_Monad.bind m f) s = (y, s')" "says P s s'" "only (\<lambda>e. \<not> P e) m" "\<And>x. only (\<lambda>_. True) (f x)"
  obtains x t where "run_state m s = (x, t)" "run_state (f x) t = (y, s')" "says P t s'"
proof -
  obtain x t where run: "run_state m s = (x, t)" "run_state (f x) t = (y, s')"
    using assms(1) by (cases "run_state m s") (auto simp: run_simps)
  obtain es where es: "ts_log t = ts_log s @ es" "\<forall>e\<in>set es. \<not> P e"
    using leavesD [OF assms(3) [unfolded only_def] run(1)] by blast
  obtain fs where fs: "ts_log s' = ts_log t @ fs"
    using leavesD [OF assms(4) [unfolded only_def] run(2)] by blast
  from assms(2) es fs have "\<exists>e\<in>set fs. P e" by (auto simp: says_def)
  with fs have "says P t s'" by (auto simp: says_def)
  with run show thesis by (rule that)
qed

lemma says_only: "only (\<lambda>e. \<not> P e) m \<Longrightarrow> run_state m s = (x, t) \<Longrightarrow> \<not> says P s t"
  unfolding only_def says_def by (drule (1) leavesD) auto

lemma grow: "only (\<lambda>_. True) (ensure_and_finish env account d sid)" "only (\<lambda>_. True) (switch_and_finish env account d sid cust)"
  "only (\<lambda>_. True) (handleAmberfloError env err)"
  unfolding sync_defs Let_def by (intro only_intros event_only upsert_only TrueI)+

lemma ensured_before_synced:
  assumes "run_state (ensure_and_finish env account d sid) s = (r, s')" "says synced s s'"
  obtains extra cust w u where "run_state (env_EnsureCustomer env (d\<lparr>dc_ExtraTraits := extra\<rparr>)) w = (Inr cust, ts_world u)"
    "run_state (switch_and_finish env account (d\<lparr>dc_ExtraTraits := extra\<rparr>) sid cust) u = (r, s')"
proof (rule says_bind [OF assms(1) [unfolded ensure_and_finish_def] assms(2) silent_parts(3)], goal_cases)
  case (1 x)
  show ?case unfolding Let_def by (intro only_intros grow TrueI)
next
  case (2 x t)
  show ?case
  proof (cases x)
    case (Inl e)
    from 2(3) have "run_state (handleAmberfloError env e) t = (r, s')" by (simp add: Inl)
    from says_only [OF silent_parts(4) this] 2(4) show ?thesis by blast
  next
    case (Inr extra)
    let ?d = "d\<lparr>dc_ExtraTraits := extra\<rparr>"
    from 2(3) have run: "run_state (do { c \<leftarrow> perform (env_EnsureCustomer env ?d) (EnsuredCustomer ?d);
        case c of Inl e \<Rightarrow> handleAmberfloError env e | Inr customer \<Rightarrow> switch_and_finish env account ?d sid customer }) t = (r, s')"
      by (simp only: Inr sum.case Let_def)
    show ?thesis
    proof (rule says_bind [OF run 2(4)], goal_cases)
      case 1
      show ?case by (intro only_intros) simp
    next
      case (2 c)
      show ?case by (intro only_intros grow)
    next
      case (3 c u)
      have c: "run_state (env_EnsureCustomer env ?d) (ts_world t) = (c, ts_world u)"
        using 3(1) by (auto simp: run_perform split: prod.splits)
      show ?thesis
      proof (cases c)
        case (Inl e)
        from 3(2) have "run_state (handleAmberfloError env e) u = (r, s')" by (simp add: Inl)
        from says_only [OF silent_parts(4) this] 3(3) show ?thesis by blast
      next
        case (Inr cust)
        with 3(2) c show ?thesis by (intro that [of extra "ts_world t" cust u]) simp_all
      qed
    qed
  qed
qed

lemma sync_synced:
  assumes "run_state (sync_account env account) s = (r, s')" "says synced s s'"
  obtains items sid t where "says (\<lambda>e. e = ListedBindings (Inr items)) s s'"
    "run_state (ensure_and_finish env account (desiredCustomerFromAccount account (projectsFromActiveBindings items)) sid) t = (r, s')"
    "says synced t s'"
proof (rule says_bind [OF assms(1) [unfolded sync_account_def] assms(2) silent_parts(1)], goal_cases)
  case (1 p)
  show ?case
    by (intro only_intros grow only_weaken [OF silent_parts(2)] TrueI)
next
  case (2 p t)
  obtain x w where "run_state (env_ListBindings env (ba_Namespace account) (ba_Name account)) (ts_world s) = (x, w)" by fastforce
  with 2(2) have x: "ts_log t = ts_log s @ [ListedBindings x]"
    "p = (case x of Inl e \<Rightarrow> Inl e | Inr items \<Rightarrow> Inr (projectsFromActiveBindings items))"
    by (auto simp: aggregateActiveBindingProjects_def run_simps)
  show ?case
  proof (cases x)
    case (Inl e)
    with 2(3) x(2) have "run_state (ret (failed_with (KubeErr ''aggregate active binding projects'' e))) t = (r, s')" by simp
    from says_only [OF only_ret this] 2(4) show ?thesis by blast
  next
    case (Inr items)
    from 2(3) x(2) Inr have run: "run_state (do { r \<leftarrow> resolveStripeCustomerID env account;
        case r of Inl e \<Rightarrow> ret (failed_with (prefix_err ''resolve stripe customer id: '' e))
        | Inr sid \<Rightarrow> ensure_and_finish env account (desiredCustomerFromAccount account (projectsFromActiveBindings items)) sid }) t = (r, s')"
      by simp
    from 2(4) x(1) Inr have listed: "says (\<lambda>e. e = ListedBindings (Inr items)) s s'" by (auto simp: says_def)
    show ?thesis
    proof (rule says_bind [OF run 2(4) silent_parts(2)], goal_cases)
      case (1 q)
      show ?case by (intro only_intros grow TrueI)
    next
      case (2 q u)
      show ?case
      proof (cases q)
        case (Inl e)
        with 2(2) have "run_state (ret (failed_with (prefix_err ''resolve stripe customer id: '' e))) u = (r, s')" by simp
        from says_only [OF only_ret this] 2(3) show ?thesis by blast
      next
        case (Inr sid)
        with 2 listed show ?thesis by (intro that) simp_all
      qed
    qed
  qed
qed

section \<open>After the customer is in place\<close>

lemma run_ensure:
  "run_state (op_EnsureCustomer (methods (instrumented c)) d) w = (x, w')
     \<Longrightarrow> run_state (EnsureCustomer c d) (ts_world w) = (x, ts_world w')"
  by (auto simp: NewInstrumentedClient_def http_client_def run_forward run_unmetered split: prod.splits)

lemma switch_and_finish_keeps:
  fixes env :: "'w sys account_env"
  assumes "only_writes c kept" "kube_apart (kept_customers kept) base syncer"
    and "env = account_reconciler cfg (instrumented c) syncer base"
  shows "keeps (untouched (kept_customers kept) K) (switch_and_finish env account d sid cust)"
proof -
  note quiet = reconciler_quiet [OF assms]
  have up: "keeps (untouched (kept_customers kept) K) (upsert_invoices env account ivs)" for ivs
    by (induction ivs) (auto intro!: keeps_intros keeps_read simp: quiet)
  have ev: "keeps (untouched (kept_customers kept) K) (event env k m x)" for k m x
    by (auto simp: event_def keeps_def run_simps)
  show ?thesis
    unfolding switch_and_finish_def finish_sync_def syncInvoices_def scheduleStripePaymentSwitch_def
      resolveStripePaymentSwitchTarget_def Let_def
    by (intro keeps_intros keeps_read up ev quiet)
qed

lemma active_projects:
  fixes items :: "BillingAccountBinding list"
  defines "ps \<equiv> {bb_ProjectRef b |b. b \<in> set items \<and> bb_Phase b = BillingAccountBindingPhaseActive \<and> bb_ProjectRef b \<noteq> []}"
  shows "dc_Projects (desiredCustomerFromAccount account (projectsFromActiveBindings items)) = sorted_list_of_set ps"
proof (rule sorted_distinct_set_unique)
  have "finite ps" by (simp add: ps_def)
  then show "set (dc_Projects (desiredCustomerFromAccount account (projectsFromActiveBindings items))) = set (sorted_list_of_set ps)"
    by (auto simp: ps_def desiredCustomerFromAccount_def projectsFromActiveBindings_def sortedCopy_def)
qed (simp_all add: desiredCustomerFromAccount_def sortedCopy_def sorted_set_props)

text \<open>What a customer that needs no update looks like.\<close>

lemma up_to_date:
  assumes "dec_wireCustomer b = Some wc" "\<not> customerNeedsUpdate (fromWire wc b) (buildWireCustomer d)"
  shows "wc_Enabled wc" "wc_CustomerName wc = (if dc_Name d = [] then dc_ID d else dc_Name d)"
    "wc_CustomerEmail wc = dc_Email d" "map_of (wc_Traits wc) = map_of (build_traits d)"
  using assms dec_wireCustomer_wf [OF assms(1)]
  by (auto simp: customerNeedsUpdate_def fromWire_def buildWireCustomer_def cloneTraits_def traitsEqual_iff split: if_splits)

section \<open>Properties\<close>


definition idle_api :: "'w invoice_api" where
  "idle_api = \<lparr>api_Now = ret 0, api_Get = (\<lambda>ns n. ret (Inl NotFound)), api_Create = (\<lambda>x. ret (Inr x)),
     api_Patch = (\<lambda>x y. ret (Inr y)), api_StatusPatch = (\<lambda>x y. ret (Inr y)), api_SetOwnerReference = (\<lambda>a rs. Inr rs),
     api_SetStatusCondition = (\<lambda>cs c. c # cs), api_GroupVersion = [], api_ReadyCondition = [], api_phase_text = (\<lambda>p. [])\<rparr>"

definition acme :: BillingAccount where
  "acme = plain_account ''ns'' ''acme'' ''u1''"

definition acme_customer :: DesiredCustomer where
  "acme_customer = desiredCustomerFromAccount acme []"

definition acme_wire :: wireCustomer where
  "acme_wire = buildWireCustomer acme_customer"

definition acme_store :: "(string \<times> string) list" where
  "acme_store = [(''u1'', print (enc_wireCustomer acme_wire))]"

definition acme_kept :: Customer where
  "acme_kept = fromWire (acme_wire\<lparr>wc_Traits := sort_key fst (wc_Traits acme_wire)\<rparr>) (print (enc_wireCustomer acme_wire))"

abbreviation acme_env :: "(string \<times> string) list sys account_env" where
  "acme_env \<equiv> account_reconciler sample_config (instrumented store_client) idle_api sample_account_env"

abbreviation in_store :: "(string \<times> string) list sys \<Rightarrow> bool" where
  "in_store w \<equiv> net_world (ts_world w) = acme_store"

lemma acme_facts: "ba_UID acme = ''u1''" "ba_Name acme = ''acme''" "ba_Namespace acme = ''ns''" "ba_DefaultPaymentMethodRef acme = None"
  "dc_ID acme_customer = ''u1''" "acme_customer\<lparr>dc_ExtraTraits := []\<rparr> = acme_customer"
  by (simp_all add: acme_customer_def acme_def plain_account_def named_meta_def desiredCustomerFromAccount_def)

lemma acme_gets:
  assumes "net_world n = acme_store"
  shows "\<exists>n'. run_state (GetCustomer store_client ''u1'') n = (Inr acme_kept, n') \<and> net_world n' = acme_store"
proof -
  have "map_of (net_world n) ''u1'' = Some (print (enc_wireCustomer acme_wire))" by (simp add: assms acme_store_def)
  from GetCustomer_kept [OF store_client_undisturbed store_client_store _ _ this [unfolded acme_wire_def] decode_wireCustomer [OF build_wire_ok]]
  show ?thesis using assms by (auto simp: acme_kept_def acme_wire_def acme_facts)
qed

lemma acme_ensures:
  assumes "net_world n = acme_store"
  shows "\<exists>n'. run_state (EnsureCustomer store_client acme_customer) n = (Inr acme_kept, n') \<and> net_world n' = acme_store"
proof -
  have "\<not> customerNeedsUpdate acme_kept (buildWireCustomer acme_customer)"
    using matching_wire [OF build_wire_ok] by (simp add: acme_kept_def acme_wire_def)
  with acme_gets [OF assms] show ?thesis by (auto simp: EnsureCustomer_def acme_facts run_simps)
qed

lemma acme_lists:
  assumes "net_world n = acme_store"
  shows "\<exists>n'. run_state (ListInvoices store_client ''u1'') n = (Inr [], n') \<and> net_world n' = acme_store"
proof -
  have path: "list_all (\<lambda>c. \<not> is_ctl c) (snd (resolve (invoiceListPath ''u1'' False)))"
    "\<not> prefix ''/customers/'' (fst (resolve (invoiceListPath ''u1'' False)))" by code_simp+
  then have "\<exists>req. build_request store_client ''GET'' (invoiceListPath ''u1'' False) (body_bytes NoBody) = Some req"
    by (auto simp: build_request_def list_ex_iff list_all_iff split: prod.split)
  then obtain req where req: "build_request store_client ''GET'' (invoiceListPath ''u1'' False) (body_bytes NoBody) = Some req" ..
  with build_request_path [OF req] path have get: "rq_Method req = ''GET''" "\<not> prefix ''/customers/'' (rq_Path req)" by simp_all
  have do: "cl_do store_client req (net_world n) = (Response 200 [] [], net_world n)" by (simp add: store_client_def get)
  have "run_state (doJSON store_client ''GET'' (invoiceListPath ''u1'' False) NoBody dec_invoices []) n
      = (decode_reply dec_invoices [] (outcome_status (Response 200 [] [])) (outcome_body (Response 200 [] [])),
         n\<lparr>net_world := net_world n, net_log := net_log n @ [Sent req (Response 200 [] [])]\<rparr>)"
    by (rule doJSON_first [OF store_client_undisturbed req _ store_wait [OF store_client_store] do])
      (simp_all add: success_outcome_def)
  then show ?thesis using assms
    by (simp add: ListInvoices_def run_simps decode_reply_def outcome_status_def outcome_body_def)
qed

lemma acme_calls:
  assumes "in_store w"
  shows "\<exists>w'. run_state (env_GetCustomer acme_env ''u1'') w = (Inr acme_kept, w') \<and> in_store w'"
    and "\<exists>w'. run_state (env_EnsureCustomer acme_env acme_customer) w = (Inr acme_kept, w') \<and> in_store w'"
    and "\<exists>w'. run_state (env_ListInvoices acme_env ''u1'') w = (Inr [], w') \<and> in_store w'"
  using acme_gets [of "ts_world w"] acme_ensures [of "ts_world w"] acme_lists [of "ts_world w"] assms
  by (auto simp: account_reconciler_def NewInstrumentedClient_def http_client_def run_forward run_unmetered)

lemma acme_traits: "stripeTraitsFromExisting (cu_Traits acme_kept) = []"
  by code_simp

lemma acme_syncs:
  assumes "in_store (ts_world s)"
  obtains r s' where "run_state (sync_account acme_env acme) s = (r, s')"
    "says (\<lambda>e. e = Event ''Normal'' EventReasonSynced (''Amberflo customer u1 synced'')) s s'"
proof -
  obtain w1 where w1: "run_state (env_GetCustomer acme_env ''u1'') (ts_world s) = (Inr acme_kept, w1)" "in_store w1"
    using acme_calls(1) [OF assms] by blast
  obtain w2 where w2: "run_state (env_EnsureCustomer acme_env acme_customer) w1 = (Inr acme_kept, w2)" "in_store w2"
    using acme_calls(2) [OF w1(2)] by blast
  obtain w3 where w3: "run_state (env_ListInvoices acme_env ''u1'') w2 = (Inr [], w3)"
    using acme_calls(3) [OF w2(2)] by blast
  have env: "env_ListBindings acme_env ns n = ret (Inr [])" "env_HasInvoiceSyncer acme_env" "env_HasRecorder acme_env"
    "env_IsStatusConditionTrue acme_env cs t" for ns n cs t
    by (simp_all add: account_reconciler_def sample_account_env_def)
  have id: "cu_ID acme_kept = ''u1''" by (simp add: acme_kept_def acme_wire_def fromWire_def buildWireCustomer_def acme_facts)
  have "projectsFromActiveBindings [] = []" by (simp add: projectsFromActiveBindings_def sortedCopy_def sorted_set_def)
  then have "run_state (sync_account acme_env acme) s = (done_ok, s\<lparr>ts_world := w3, ts_log := ts_log s
      @ [ListedBindings (Inr []), GotCustomer ''u1'' (Inr acme_kept), EnsuredCustomer acme_customer (Inr acme_kept),
         ListedInvoices ''u1'' (Inr []), Event ''Normal'' EventReasonSynced ''Amberflo customer u1 synced'']\<rparr>)"
    by (simp add: sync_account_def aggregateActiveBindingProjects_def resolveStripeCustomerID_def env acme_facts
        ensure_and_finish_def extra_traits_def acme_traits switch_and_finish_def finish_sync_def syncInvoices_def
        run_simps w1(1) w2(1) w3 event_def id done_ok_def flip: acme_customer_def)
  then show thesis by (rule that) (simp add: says_def)
qed


end
