(* ===== verification/MeterFlow.thy ===== *)
theory MeterFlow
  imports Provider Exchanges
begin

text \<open>
  A meter definition from the API server to Amberflo: the reconciler of the provider program with the
  client it is given.  When the deletion of a definition is over, Amberflo has no meter for it.
\<close>

section \<open>The meters behind the API\<close>

text \<open>
  Amberflo documents its meters: \<open>kept\<close> reads the server ids and API names of those there are.  Ids are
  not empty and API names are unique.  A GET changes nothing; with a meterApiName it lists the meters
  of that name, and answers 404 only if there are none.  A PUT of a meter to /meters leaves it with
  its id and API name, and answers 404 only if it is not there.  A DELETE of an id adds nothing, and
  after its success, or a 404, there is no meter with that id.
\<close>

definition meter_path :: "string \<Rightarrow> string" where
  "meter_path x = ''/meters?meterApiName='' @ QueryEscape x"

definition meter_reads :: "'w client \<Rightarrow> ('w \<Rightarrow> (string \<times> string) set) \<Rightarrow> bool" where
  "meter_reads c kept \<longleftrightarrow> (\<forall>req w. rq_Method req = ''GET'' \<longrightarrow> kept (snd (cl_do c req w)) = kept w)
   \<and> (\<forall>req w x out r. build_request c ''GET'' (meter_path x) None = Some req \<longrightarrow> fst (cl_do c req w) = out \<longrightarrow>
        r = decode_reply dec_wireMeters [] (outcome_status out) (outcome_body out) \<longrightarrow>
        (success_outcome out \<longrightarrow> rp_err r = None \<longrightarrow>
               {p \<in> kept w. snd p = x} = (\<lambda>m. (wm_ID m, wm_MeterAPIName m)) ` set (rp_val r))
      \<and> (outcome_status out = 404 \<longrightarrow> {p \<in> kept w. snd p = x} = {}))"

definition meter_writes :: "'w client \<Rightarrow> ('w \<Rightarrow> (string \<times> string) set) \<Rightarrow> bool" where
  "meter_writes c kept \<longleftrightarrow>
     (\<forall>req w m. build_request c ''PUT'' ''/meters'' (Some (print (enc_wireMeter m))) = Some req \<longrightarrow>
        kept (snd (cl_do c req w)) \<subseteq> insert (wm_ID m, wm_MeterAPIName m) (kept w)
      \<and> (outcome_status (fst (cl_do c req w)) = 404 \<longrightarrow> wm_ID m \<notin> fst ` kept (snd (cl_do c req w))))
   \<and> (\<forall>req w i. build_request c ''DELETE'' (''/meters/'' @ PathEscape i) None = Some req \<longrightarrow>
        kept (snd (cl_do c req w)) \<subseteq> kept w
      \<and> (success_outcome (fst (cl_do c req w)) \<or> outcome_status (fst (cl_do c req w)) = 404
          \<longrightarrow> i \<notin> fst ` kept (snd (cl_do c req w))))"

definition meter_store :: "'w client \<Rightarrow> ('w \<Rightarrow> (string \<times> string) set) \<Rightarrow> bool" where
  "meter_store c kept \<longleftrightarrow> (\<forall>M. preserved c (\<lambda>w. kept w \<subseteq> M)) \<and> meter_reads c kept \<and> meter_writes c kept
     \<and> (\<forall>w a. ([], a) \<notin> kept w) \<and> (\<forall>w i j a. (i, a) \<in> kept w \<longrightarrow> (j, a) \<in> kept w \<longrightarrow> i = j)"

lemma meter_store_laws:
  assumes "meter_store c kept"
  shows "preserved c (\<lambda>w. kept w \<subseteq> M)" "([], a) \<notin> kept w" "(i, a) \<in> kept w \<Longrightarrow> (j, a) \<in> kept w \<Longrightarrow> i = j"
    "rq_Method req = ''GET'' \<Longrightarrow> kept (snd (cl_do c req w)) = kept w"
  using assms by (simp_all add: meter_store_def meter_reads_def)

lemma meter_get:
  assumes "meter_store c kept" "build_request c ''GET'' (meter_path x) None = Some req" "cl_do c req w = (out, w')"
  shows "kept w' = kept w"
    and "success_outcome out \<Longrightarrow> r = decode_reply dec_wireMeters [] (outcome_status out) (outcome_body out) \<Longrightarrow> rp_err r = None
      \<Longrightarrow> {p \<in> kept w. snd p = x} = (\<lambda>m. (wm_ID m, wm_MeterAPIName m)) ` set (rp_val r)"
    and "outcome_status out = 404 \<Longrightarrow> {p \<in> kept w. snd p = x} = {}"
proof -
  have get: "rq_Method req = ''GET''" using build_request_path [OF assms(2)] by simp
  show "kept w' = kept w" using meter_store_laws(4) [OF assms(1) get, of w] assms(3) by simp
  have out: "fst (cl_do c req w) = out" by (simp add: assms(3))
  have reads: "meter_reads c kept" using assms(1) by (simp add: meter_store_def)
  note law = reads [unfolded meter_reads_def, THEN conjunct2, rule_format, OF assms(2) out refl]
  from law show "success_outcome out \<Longrightarrow> r = decode_reply dec_wireMeters [] (outcome_status out) (outcome_body out) \<Longrightarrow> rp_err r = None
      \<Longrightarrow> {p \<in> kept w. snd p = x} = (\<lambda>m. (wm_ID m, wm_MeterAPIName m)) ` set (rp_val r)" by simp
  from law show "outcome_status out = 404 \<Longrightarrow> {p \<in> kept w. snd p = x} = {}" by simp
qed

lemma meter_put:
  assumes "meter_store c kept" "build_request c ''PUT'' ''/meters'' (Some (print (enc_wireMeter m))) = Some req"
  shows "kept (snd (cl_do c req w)) \<subseteq> insert (wm_ID m, wm_MeterAPIName m) (kept w)"
    and "outcome_status (fst (cl_do c req w)) = 404 \<Longrightarrow> wm_ID m \<notin> fst ` kept (snd (cl_do c req w))"
proof -
  have writes: "meter_writes c kept" using assms(1) by (simp add: meter_store_def)
  note law = writes [unfolded meter_writes_def, THEN conjunct1, rule_format, OF assms(2)]
  show "kept (snd (cl_do c req w)) \<subseteq> insert (wm_ID m, wm_MeterAPIName m) (kept w)" by (rule law [THEN conjunct1])
  show "outcome_status (fst (cl_do c req w)) = 404 \<Longrightarrow> wm_ID m \<notin> fst ` kept (snd (cl_do c req w))" by (rule law [THEN conjunct2, THEN mp])
qed

lemma meter_delete:
  assumes "meter_store c kept" "build_request c ''DELETE'' (''/meters/'' @ PathEscape i) None = Some req"
  shows "kept (snd (cl_do c req w)) \<subseteq> kept w"
    and "success_outcome (fst (cl_do c req w)) \<or> outcome_status (fst (cl_do c req w)) = 404 \<Longrightarrow> i \<notin> fst ` kept (snd (cl_do c req w))"
proof -
  have writes: "meter_writes c kept" using assms(1) by (simp add: meter_store_def)
  note law = writes [unfolded meter_writes_def, THEN conjunct2, rule_format, OF assms(2)]
  show "kept (snd (cl_do c req w)) \<subseteq> kept w" by (rule law [THEN conjunct1])
  show "success_outcome (fst (cl_do c req w)) \<or> outcome_status (fst (cl_do c req w)) = 404 \<Longrightarrow> i \<notin> fst ` kept (snd (cl_do c req w))" by (rule law [THEN conjunct2, THEN mp])
qed

text \<open>What the calls of a deletion find and leave.\<close>

lemma reads_keep:
  assumes "meter_store c kept" "run_state (doJSON c ''GET'' path NoBody dec z) s = (r, s')"
  shows "kept (net_world s') \<subseteq> kept (net_world s)"
proof (rule doJSON_invariant [OF assms(2) meter_store_laws(1) [OF assms(1)]])
  fix req w assume "build_request c ''GET'' path (body_bytes NoBody) = Some req" "kept w \<subseteq> kept (net_world s)"
  with meter_store_laws(4) [OF assms(1), of req w] build_request_path show "kept (snd (cl_do c req w)) \<subseteq> kept (net_world s)" by metis
qed simp

lemma GetMeter_run:
  assumes "run_state (GetMeter c x) s = (g, s')"
  obtains "x = []" "s' = s" "g = Inl (permanent ''meterAPIName is required'')"
  | r where "run_state (doJSON c ''GET'' (meter_path x) NoBody dec_wireMeters []) s = (r, s')"
      "g = (case rp_err r of
          Some e \<Rightarrow> if is_404 e then Inl (Wrap [] (Sentinel ErrMeterNotFound) ('': '' @ x)) else Inl e
        | None \<Rightarrow> (case rp_val r of [] \<Rightarrow> Inl (Wrap [] (Sentinel ErrMeterNotFound) ('': '' @ x))
             | wm # _ \<Rightarrow> Inr (meterFromWire wm (rp_body r))))"
  using assms unfolding GetMeter_def meter_path_def [symmetric]
  by (cases "x = []"; cases "run_state (doJSON c ''GET'' (meter_path x) NoBody dec_wireMeters []) s") (simp_all add: run_simps)

lemma GetMeter_finds:
  assumes "undisturbed c" "cl_retries c \<ge> 1" "meter_store c kept" "run_state (GetMeter c x) s = (g, s')"
  shows "kept (net_world s') \<subseteq> kept (net_world s)"
    and "g = Inr m \<Longrightarrow> me_ID m \<noteq> [] \<and> me_APIName m = x \<and> {p \<in> kept (net_world s'). snd p = x} = {(me_ID m, x)}"
    and "g = Inl e \<Longrightarrow> x \<noteq> [] \<Longrightarrow> errors_Is e ErrMeterNotFound \<Longrightarrow> {p \<in> kept (net_world s'). snd p = x} = {}"
proof -
  show "kept (net_world s') \<subseteq> kept (net_world s)"
    by (rule GetMeter_run [OF assms(4)]) (simp, erule reads_keep [OF assms(3)])
next
  assume m: "g = Inr m"
  then obtain r where r: "run_state (doJSON c ''GET'' (meter_path x) NoBody dec_wireMeters []) s = (r, s')" "rp_err r = None"
    "\<exists>wm rest. rp_val r = wm # rest \<and> m = meterFromWire wm (rp_body r)"
    by (rule_tac GetMeter_run [OF assms(4)]) (auto split: option.splits if_splits list.splits)
  from doJSON_ok [OF r(1,2) assms(2)] obtain req w out where
    do: "build_request c ''GET'' (meter_path x) None = Some req" "cl_do c req w = (out, net_world s')" "success_outcome out"
      "r = decode_reply dec_wireMeters [] (outcome_status out) (outcome_body out)" by (auto simp: body_bytes_def)
  note got = meter_get [OF assms(3) do(1,2)]
  from got(2) [OF do(3,4) r(2)] got(1) have all: "{p \<in> kept (net_world s'). snd p = x} = (\<lambda>m. (wm_ID m, wm_MeterAPIName m)) ` set (rp_val r)"
    by simp
  with r(3) have mem: "(me_ID m, me_APIName m) \<in> {p \<in> kept (net_world s'). snd p = x}" by (auto simp: meterFromWire_def)
  with meter_store_laws(2,3) [OF assms(3)] have "me_ID m \<noteq> []" "{p \<in> kept (net_world s'). snd p = x} = {(me_ID m, x)}" by auto
  with mem show "me_ID m \<noteq> [] \<and> me_APIName m = x \<and> {p \<in> kept (net_world s'). snd p = x} = {(me_ID m, x)}" by simp
next
  assume e: "g = Inl e" "x \<noteq> []" "errors_Is e ErrMeterNotFound"
  then obtain r where r: "run_state (doJSON c ''GET'' (meter_path x) NoBody dec_wireMeters []) s = (r, s')"
    "rp_err r = None \<and> rp_val r = [] \<or> (\<exists>e'. rp_err r = Some e' \<and> (is_404 e' \<or> e' = e))"
    by (rule_tac GetMeter_run [OF assms(4)]) (auto split: option.splits if_splits list.splits)
  from r(2) show "{p \<in> kept (net_world s'). snd p = x} = {}"
  proof (elim disjE exE conjE)
    assume ok: "rp_err r = None" "rp_val r = []"
    from doJSON_ok [OF r(1) ok(1) assms(2)] obtain req w out where
      do: "build_request c ''GET'' (meter_path x) None = Some req" "cl_do c req w = (out, net_world s')" "success_outcome out"
        "r = decode_reply dec_wireMeters [] (outcome_status out) (outcome_body out)" by (auto simp: body_bytes_def)
    note got = meter_get [OF assms(3) do(1,2)]
    from got(2) [OF do(3,4) ok(1)] got(1) ok(2) show ?thesis by simp
  next
    fix e' assume e': "rp_err r = Some e'" "is_404 e'"
    from doJSON_fails(2) [OF r(1) e'(1) assms(1) _ e'(2)] obtain req w out where
      do: "build_request c ''GET'' (meter_path x) None = Some req" "cl_do c req w = (out, net_world s')" "outcome_status out = 404"
      by (auto simp: body_bytes_def)
    note got = meter_get [OF assms(3) do(1,2)]
    from got(3) [OF do(3)] got(1) show ?thesis by simp
  next
    fix e' assume "rp_err r = Some e'" "e' = e"
    with doJSON_fails(1) [OF r(1) _ assms(1), of e' ErrMeterNotFound] e(3) show ?thesis by simp
  qed
qed

lemma deprecate_keeps:
  assumes "undisturbed c" "meter_store c kept" "run_state (deprecateMeter c m) s = (dep, s')"
  shows "kept (net_world s') \<subseteq> insert (me_ID m, me_APIName m) (kept (net_world s))"
    and "dep = Some e \<Longrightarrow> errors_Is e ErrMeterNotFound \<Longrightarrow> me_ID m \<notin> fst ` kept (net_world s')"
proof -
  let ?b = "Encoded (print (enc_wireMeter (deprecated_wire m)))"
  obtain r where r: "run_state (doJSON c ''PUT'' ''/meters'' ?b dec_none ()) s = (r, s')"
    "dep = (case rp_err r of None \<Rightarrow> None
       | Some e \<Rightarrow> if is_404 e then Some (Wrap [] (Sentinel ErrMeterNotFound) ('': '' @ me_APIName m)) else Some e)"
    using assms(3) by (cases "run_state (doJSON c ''PUT'' ''/meters'' ?b dec_none ()) s") (simp add: deprecateMeter_def run_simps)
  have id: "wm_ID (deprecated_wire m) = me_ID m" "wm_MeterAPIName (deprecated_wire m) = me_APIName m" by (simp_all add: deprecated_wire_def)
  show "kept (net_world s') \<subseteq> insert (me_ID m, me_APIName m) (kept (net_world s))"
  proof (rule doJSON_invariant [OF r(1) meter_store_laws(1) [OF assms(2)]])
    fix req w assume "build_request c ''PUT'' ''/meters'' (body_bytes ?b) = Some req" "kept w \<subseteq> insert (me_ID m, me_APIName m) (kept (net_world s))"
    with meter_put(1) [OF assms(2), of "deprecated_wire m" req w] show "kept (snd (cl_do c req w)) \<subseteq> insert (me_ID m, me_APIName m) (kept (net_world s))"
      by (auto simp: body_bytes_def id)
  qed blast
  assume e: "dep = Some e" "errors_Is e ErrMeterNotFound"
  from r(2) e(1) obtain e' where e': "rp_err r = Some e'" "is_404 e' \<or> e' = e" by (auto split: option.splits if_splits)
  with doJSON_fails(1) [OF r(1) e'(1) assms(1), of ErrMeterNotFound] e(2) have "is_404 e'" by auto
  from doJSON_fails(2) [OF r(1) e'(1) assms(1) _ this] obtain req w out where
    "build_request c ''PUT'' ''/meters'' (Some (print (enc_wireMeter (deprecated_wire m)))) = Some req" "cl_do c req w = (out, net_world s')"
    "outcome_status out = 404" by (auto simp: body_bytes_def)
  with meter_put(2) [OF assms(2), of "deprecated_wire m" req w] show "me_ID m \<notin> fst ` kept (net_world s')" by (simp add: id)
qed


lemma deleteMeterRecord_removes:
  assumes "undisturbed c" "cl_retries c \<ge> 1" "meter_store c kept" "run_state (deleteMeterRecord c m) s = (None, s')"
  shows "kept (net_world s') \<subseteq> insert (me_ID m, me_APIName m) (kept (net_world s))"
    and "me_ID m \<noteq> [] \<Longrightarrow> me_ID m \<notin> fst ` kept (net_world s')"
proof -
  let ?K = "insert (me_ID m, me_APIName m) (kept (net_world s))"
  let ?del = "doJSON c ''DELETE'' (''/meters/'' @ PathEscape (me_ID m)) NoBody dec_none ()"
  have del: "kept (net_world s') \<subseteq> kept (net_world t) \<and> me_ID m \<notin> fst ` kept (net_world s')"
    if run: "run_state ?del t = (r, s')" and r: "rp_err r = None \<or> (\<exists>e. rp_err r = Some e \<and> is_404 e)" for t r
  proof
    show "kept (net_world s') \<subseteq> kept (net_world t)"
    proof (rule doJSON_invariant [OF run meter_store_laws(1) [OF assms(3)]])
      fix req w assume "build_request c ''DELETE'' (''/meters/'' @ PathEscape (me_ID m)) (body_bytes NoBody) = Some req"
        "kept w \<subseteq> kept (net_world t)"
      with meter_delete(1) [OF assms(3), of "me_ID m" req w] show "kept (snd (cl_do c req w)) \<subseteq> kept (net_world t)"
        by (auto simp: body_bytes_def)
    qed simp
    have "\<exists>req w out. build_request c ''DELETE'' (''/meters/'' @ PathEscape (me_ID m)) None = Some req
        \<and> cl_do c req w = (out, net_world s') \<and> (success_outcome out \<or> outcome_status out = 404)"
      using r doJSON_ok [OF run _ assms(2)] doJSON_fails(2) [OF run _ assms(1)] by (fastforce simp: body_bytes_def)
    then obtain req w out where do: "build_request c ''DELETE'' (''/meters/'' @ PathEscape (me_ID m)) None = Some req"
      "cl_do c req w = (out, net_world s')" "success_outcome out \<or> outcome_status out = 404" by blast
    with meter_delete(2) [OF assms(3) do(1), of w] show "me_ID m \<notin> fst ` kept (net_world s')" by simp
  qed
  consider "me_ID m = []" "s' = s"
    | dep t where "me_ID m \<noteq> []" "run_state (if me_LockingStatus m \<noteq> lockingStatusDeprecated then deprecateMeter c m else ret None) s = (dep, t)"
      "case dep of Some e \<Rightarrow> errors_Is e ErrMeterNotFound \<and> s' = t
       | None \<Rightarrow> \<exists>r. run_state ?del t = (r, s') \<and> (rp_err r = None \<or> (\<exists>e. rp_err r = Some e \<and> is_404 e))"
    using assms(4)
    by (cases "run_state (if me_LockingStatus m \<noteq> lockingStatusDeprecated then deprecateMeter c m else ret None) s")
      (auto simp: deleteMeterRecord_def run_simps split: if_splits option.splits prod.splits)
  then have "kept (net_world s') \<subseteq> ?K \<and> (me_ID m \<noteq> [] \<longrightarrow> me_ID m \<notin> fst ` kept (net_world s'))"
  proof cases
    case 2
    have t: "kept (net_world t) \<subseteq> ?K" "\<And>e. dep = Some e \<Longrightarrow> errors_Is e ErrMeterNotFound \<Longrightarrow> me_ID m \<notin> fst ` kept (net_world t)"
      using 2(2) deprecate_keeps [OF assms(1,3), of m s dep t]
      by (cases "me_LockingStatus m \<noteq> lockingStatusDeprecated"; auto simp: run_simps)+
    show ?thesis
    proof (cases dep)
      case None
      with 2(3) obtain r where "run_state ?del t = (r, s')" "rp_err r = None \<or> (\<exists>e. rp_err r = Some e \<and> is_404 e)" by auto
      from del [OF this] t(1) show ?thesis by blast
    next
      case (Some e)
      with 2(3) t show ?thesis by simp
    qed
  qed auto
  then show "kept (net_world s') \<subseteq> ?K" "me_ID m \<noteq> [] \<Longrightarrow> me_ID m \<notin> fst ` kept (net_world s')" by blast+
qed

lemma GetMeterByLabel_keeps:
  assumes "meter_store c kept" "run_state (GetMeterByLabel c l) s = (g, s')"
  shows "kept (net_world s') \<subseteq> kept (net_world s)"
proof (cases "l = []")
  case True
  with assms(2) show ?thesis by (simp add: GetMeterByLabel_def run_simps)
next
  case False
  obtain path where path: "path = ''/meters?label='' @ QueryEscape l" by blast
  obtain r t where r: "run_state (doJSON c ''GET'' path NoBody dec_wireMeters []) s = (r, t)" by fastforce
  with assms(2) False have "s' = t" unfolding GetMeterByLabel_def path [symmetric] by (simp add: run_simps)
  with reads_keep [OF assms(1) r] show ?thesis by simp
qed

lemma DeleteMeter_removes:
  assumes "undisturbed c" "cl_retries c \<ge> 1" "meter_store c kept" "run_state (DeleteMeter c x l) s = (None, s')"
  shows "(i, x) \<notin> kept (net_world s')"
proof
  assume i: "(i, x) \<in> kept (net_world s')"
  from assms(4) have x: "x \<noteq> []" by (auto simp: DeleteMeter_def run_simps)
  obtain g t where g: "run_state (GetMeter c x) s = (g, t)" by fastforce
  note found = GetMeter_finds [OF assms(1-3) g]
  show False
  proof (cases g)
    case (Inr m)
    with assms(4) g x have "run_state (deleteMeterRecord c m) t = (None, s')" by (simp add: DeleteMeter_def run_simps)
    note gone = deleteMeterRecord_removes [OF assms(1-3) this]
    from found(2) [OF Inr] have m: "me_ID m \<noteq> []" "me_APIName m = x" "{p \<in> kept (net_world t). snd p = x} = {(me_ID m, x)}" by simp_all
    have "(i, x) \<in> insert (me_ID m, x) {p \<in> kept (net_world t). snd p = x}" using gone(1) i m(2) by auto
    then have "i = me_ID m" unfolding m(3) by simp
    with gone(2) [OF m(1)] i show False by force
  next
    case (Inl e)
    with assms(4) g x have e: "errors_Is e ErrMeterNotFound" by (auto simp: DeleteMeter_def run_simps split: if_splits)
    from found(3) [OF Inl x e] have none: "(j, x) \<notin> kept (net_world t)" for j by auto
    show False
    proof (cases "l = []")
      case True
      with assms(4) g x Inl e have "s' = t" by (simp add: DeleteMeter_def run_simps)
      with none i show False by simp
    next
      case False
      obtain b u where b: "run_state (GetMeterByLabel c l) t = (b, u)" by fastforce
      have u: "(j, x) \<notin> kept (net_world u)" for j using GetMeterByLabel_keeps [OF assms(3) b] none by blast
      from assms(4) g x Inl e False b consider "s' = u" | m where "run_state (deleteMeterRecord c m) u = (None, s')"
        by (auto simp: DeleteMeter_def run_simps split: sum.splits if_splits)
      then show False
      proof cases
        case 1
        with u i show False by simp
      next
        case 2
        note gone = deleteMeterRecord_removes [OF assms(1-3) 2]
        from gone(1) i u have im: "i = me_ID m" by auto
        with meter_store_laws(2) [OF assms(3)] i have "me_ID m \<noteq> []" by metis
        from gone(2) [OF this] im i show False by force
      qed
    qed
  qed
qed


lemma requeues_meter: "requeue_after transientRequeueAfter \<noteq> done_ok" "requeue_after permanentDisableRequeueAfter \<noteq> done_ok"
  by (rule requeues)+

lemma run_delete_meter:
  "run_state (op_DeleteMeter (methods (instrumented c)) x l) w = (e, w') \<Longrightarrow> run_state (DeleteMeter c x l) (ts_world w) = (e, ts_world w')"
  by (auto simp: NewInstrumentedClient_def http_client_def run_forward_err run_unmetered split: prod.splits)

section \<open>Properties\<close>

text \<open>
  C4.  The deletion of a meter definition, down to the HTTP exchanges: when the reconciler the program
  builds, with its instrumented client, finishes the deletion of a definition it has a finalizer on,
  then Amberflo has no meter of its API name any more, whichever of the lookups, the deprecation and
  the deletion were retried, answered 404 or were not needed.
\<close>

theorem deletion_removes_meter:
  assumes "run_state (reconcile_definition (meter_reconciler (instrumented c) base) md) s = (done_ok, s')"
    and "deleting (md_Meta md)" "fl_Contains (mv_finalizers base) (md_Finalizers md) MeterFinalizer"
    and "undisturbed c" "cl_retries c \<ge> 1" "meter_store c kept"
    and "\<And>x w. kept (net_world (ts_world (snd (run_state (mv_Update base x) w)))) = kept (net_world (ts_world w))"
  shows "(i, MeterAPIName (om_Name (md_Meta md))) \<notin> kept (net_world (ts_world (ts_world s')))"
proof -
  let ?x = "MeterAPIName (om_Name (md_Meta md))" and ?env = "meter_reconciler (instrumented c) base"
  obtain d w where d: "run_state (mv_DeleteMeter ?env ?x (meter_label md)) (ts_world s) = (d, w)" by fastforce
  have run: "run_state (reconcileDelete_meter ?env md ?x) s = (done_ok, s')"
    using assms(1,2) by (simp add: reconcile_definition_def Let_def)
  have fin: "fl_Contains (mv_finalizers ?env) (md_Finalizers md) MeterFinalizer" using assms(3) by (simp add: meter_reconciler_def)
  have "d = None"
  proof (rule ccontr)
    assume "d \<noteq> None"
    then obtain err where "d = Some err" by blast
    with run fin d requeues_meter show False
      by (auto simp: reconcileDelete_meter_def Let_def run_simps split: prod.splits if_splits)
  qed
  let ?md = "md\<lparr>md_Meta := with_finalizers (fl_Remove (mv_finalizers base) (md_Finalizers md) MeterFinalizer) (md_Meta md)\<rparr>"
  obtain u w2 where u: "run_state (mv_Update base ?md) w = (u, w2)" by fastforce
  have "ts_world s' = w2"
    using run fin d \<open>d = None\<close> u
    by (auto simp: reconcileDelete_meter_def Let_def run_simps announce_def meter_reconciler_def split: if_splits)
  with assms(7) [of ?md w] u have "kept (net_world (ts_world (ts_world s'))) = kept (net_world (ts_world w))" by simp
  moreover have "run_state (DeleteMeter c ?x (meter_label md)) (ts_world (ts_world s)) = (None, ts_world w)"
    using d \<open>d = None\<close> by (intro run_delete_meter) (simp add: meter_reconciler_def)
  ultimately show ?thesis using DeleteMeter_removes [OF assms(4-6)] by simp
qed

text \<open>A server with the one meter cpu, or without it.\<close>

definition cpu_meter :: wireMeter where
  "cpu_meter = \<lparr>wm_ID = ''id-1'', wm_Label = ''cpu'', wm_MeterAPIName = ''cpu'', wm_MeterType = ''sum_of_all_usage'',
     wm_AggregationDimensions = [], wm_Unit = [], wm_Dimensions = [], wm_UseInBilling = True, wm_LockingStatus = lockingStatusActive\<rparr>"

definition one_meter :: "bool client" where
  "one_meter = \<lparr> cl_apiKey = ''key'', cl_userAgent = ''amberflo-provider/dev'', cl_retries = 4,
     cl_do = (\<lambda>req w.
       if rq_Method req = ''GET'' then
         (Response 200 [] (if w \<and> rq_RawQuery req = ''meterApiName=cpu'' then print (JArr [enc_wireMeter cpu_meter]) else ''[]''), w)
       else if rq_Method req = ''PUT'' then (Response (if w then 200 else 404) [] [], w)
       else if rq_Path req = ''/meters/id-1'' then (Response (if w then 200 else 404) [] [], False)
       else (Response 404 [] [], w)),
     cl_ctx_err = (\<lambda>w. None), cl_wait = (\<lambda>w. (None, w)), cl_sleep = (\<lambda>d w. (None, w)),
     cl_jitter = (\<lambda>d w. (d, w)), cl_now = (\<lambda>w. 0), cl_http_date = (\<lambda>h. None) \<rparr>"

definition meters_of :: "bool \<Rightarrow> (string \<times> string) set" where
  "meters_of w = (if w then {(''id-1'', ''cpu'')} else {})"

lemma cpu_read:
  "dec_wireMeters (print (JArr [enc_wireMeter cpu_meter])) = Some [cpu_meter]" "dec_wireMeters ''[]'' = Some []"
  by code_simp+

lemma QueryEscape_plain: "CHR ''%'' \<notin> set (QueryEscape x) \<Longrightarrow> CHR ''+'' \<notin> set (QueryEscape x) \<Longrightarrow> QueryEscape x = x"
  by (induction x) (auto simp: QueryEscape_def escape_char_def split: if_splits)

lemma QueryEscape_cpu: "QueryEscape x = ''cpu'' \<longleftrightarrow> x = ''cpu''"
proof
  assume "QueryEscape x = ''cpu''"
  with QueryEscape_plain [of x] show "x = ''cpu''" by simp
qed (simp only:, code_simp)

lemma meter_query: "build_request c ''GET'' (meter_path x) None = Some req
  \<Longrightarrow> rq_Method req = ''GET'' \<and> rq_RawQuery req = ''meterApiName='' @ QueryEscape x"
  by (drule build_request_path) (simp add: meter_path_def resolve_def)

lemma cpu_lists:
  assumes "rq_Method req = ''GET''" "rq_RawQuery req = ''meterApiName='' @ QueryEscape x" "fst (cl_do one_meter req w) = out"
    and "r = decode_reply dec_wireMeters [] (outcome_status out) (outcome_body out)"
  shows "{p \<in> meters_of w. snd p = x} = (\<lambda>m. (wm_ID m, wm_MeterAPIName m)) ` set (rp_val r)" "outcome_status out = 200"
proof -
  have out: "out = Response 200 [] (if w \<and> x = ''cpu'' then print (JArr [enc_wireMeter cpu_meter]) else ''[]'')"
    using assms(1-3) QueryEscape_cpu [of x] by (auto simp: one_meter_def)
  then show "outcome_status out = 200" by (simp add: outcome_status_def)
  define full where "full = print (JArr [enc_wireMeter cpu_meter])"
  have full: "full \<noteq> []" "dec_wireMeters full = Some [cpu_meter]" unfolding full_def by code_simp (rule cpu_read)
  define b where "b = (if w \<and> x = ''cpu'' then full else ''[]'')"
  have b: "b \<noteq> []" "dec_wireMeters b = Some (if w \<and> x = ''cpu'' then [cpu_meter] else [])"
    using full cpu_read(2) by (simp_all add: b_def)
  from out have "out = Response 200 [] b" by (simp only: b_def full_def)
  with assms(4) have "r = decode_reply dec_wireMeters [] 200 b" by (simp add: outcome_status_def outcome_body_def)
  with b have "rp_val r = (if w \<and> x = ''cpu'' then [cpu_meter] else [])" by (simp add: decode_reply_def)
  moreover have "(wm_ID cpu_meter, wm_MeterAPIName cpu_meter) = (''id-1'', ''cpu'')" by (simp add: cpu_meter_def)
  moreover have "{p \<in> meters_of w. snd p = x} = (if w \<and> x = ''cpu'' then {(''id-1'', ''cpu'')} else {})"
    by (cases w; cases "x = ''cpu''") (fastforce simp: meters_of_def)+
  ultimately show "{p \<in> meters_of w. snd p = x} = (\<lambda>m. (wm_ID m, wm_MeterAPIName m)) ` set (rp_val r)" by simp
qed

lemma id_1_path: "build_request c ''DELETE'' (''/meters/'' @ PathEscape ''id-1'') None = Some req \<Longrightarrow> rq_Path req = ''/meters/id-1''"
proof (drule build_request_path)
  have "''/meters/'' @ PathEscape ''id-1'' = ''/meters/id-1''" by code_simp
  then show "rq_Method req = ''DELETE'' \<and> rq_Path req = fst (resolve (''/meters/'' @ PathEscape ''id-1''))
    \<and> rq_RawQuery req = snd (resolve (''/meters/'' @ PathEscape ''id-1'')) \<and> rq_Body req = None \<Longrightarrow> rq_Path req = ''/meters/id-1''"
    by (simp add: resolve_def)
qed

lemma one_meter_do:
  "rq_Method req = ''GET'' \<Longrightarrow> snd (cl_do one_meter req w) = w"
  "rq_Method req = ''PUT'' \<Longrightarrow> cl_do one_meter req w = (Response (if w then 200 else 404) [] [], w)"
  "rq_Method req = ''DELETE'' \<Longrightarrow> cl_do one_meter req w = (if rq_Path req = ''/meters/id-1''
     then (Response (if w then 200 else 404) [] [], False) else (Response 404 [] [], w))"
  by (simp_all add: one_meter_def)

lemma one_meter_store: "undisturbed one_meter" "cl_retries one_meter \<ge> 1" "meter_store one_meter meters_of"
proof -
  show "undisturbed one_meter" "cl_retries one_meter \<ge> 1" by (simp_all add: one_meter_def undisturbed_def)
  have reads: "meter_reads one_meter meters_of"
    unfolding meter_reads_def
  proof (intro conjI allI impI)
    fix req and w :: bool and x out and r :: "wireMeter list reply"
    assume "build_request one_meter ''GET'' (meter_path x) None = Some req" "fst (cl_do one_meter req w) = out"
      and r: "r = decode_reply dec_wireMeters [] (outcome_status out) (outcome_body out)"
    from cpu_lists [OF meter_query [OF this(1), THEN conjunct1] meter_query [OF this(1), THEN conjunct2] this(2) r]
    have "{p \<in> meters_of w. snd p = x} = (\<lambda>m. (wm_ID m, wm_MeterAPIName m)) ` set (rp_val r)" "outcome_status out = 200" .
    then show "{p \<in> meters_of w. snd p = x} = (\<lambda>m. (wm_ID m, wm_MeterAPIName m)) ` set (rp_val r)"
      "outcome_status out = 404 \<Longrightarrow> {p \<in> meters_of w. snd p = x} = {}" by simp_all
  qed (simp add: one_meter_do)
  have put: "rq_Method req = ''PUT''" if "build_request one_meter ''PUT'' ''/meters'' b = Some req" for req b
    using build_request_path [OF that] by simp
  have del: "rq_Method req = ''DELETE'' \<and> (i = ''id-1'' \<longrightarrow> rq_Path req = ''/meters/id-1'')"
    if "build_request one_meter ''DELETE'' (''/meters/'' @ PathEscape i) None = Some req" for req i
    using build_request_path [OF that] id_1_path [of one_meter req] that by blast
  have "meters_of (snd (cl_do one_meter req w)) \<subseteq> insert (wm_ID m, wm_MeterAPIName m) (meters_of w)"
    "outcome_status (fst (cl_do one_meter req w)) = 404 \<Longrightarrow> wm_ID m \<notin> fst ` meters_of (snd (cl_do one_meter req w))"
    if "build_request one_meter ''PUT'' ''/meters'' b = Some req" for req w m b
    using put [OF that] by (auto simp: one_meter_do meters_of_def outcome_status_def split: if_splits)
  moreover have "meters_of (snd (cl_do one_meter req w)) \<subseteq> meters_of w" "i \<notin> fst ` meters_of (snd (cl_do one_meter req w))"
    if "build_request one_meter ''DELETE'' (''/meters/'' @ PathEscape i) None = Some req" for req w i
    using del [OF that] by (auto simp: one_meter_do meters_of_def split: if_splits)
  ultimately have writes: "meter_writes one_meter meters_of" unfolding meter_writes_def by blast
  show "meter_store one_meter meters_of"
    using reads writes by (simp add: meter_store_def preserved_def) (simp add: one_meter_def meters_of_def)
qed

lemma one_meter_returns: "fst (run_state (DeleteMeter one_meter ''cpu'' ''compute/cpu'') (fresh True)) = None"
  by code_simp

definition unwanted_cpu :: MeterDefinition where
  "unwanted_cpu = (let md = MeterController.sample_definition [MeterFinalizer] in
     md\<lparr>md_Meta := (md_Meta md)\<lparr>om_DeletionTimestamp := Some 0\<rparr>\<rparr>)"

theorem deletion_removes_meter_witness:
  "(''id-1'', ''cpu'') \<notin> meters_of (net_world (ts_world (ts_world (snd (run_state
      (reconcile_definition (meter_reconciler (instrumented one_meter) sample_meter_env) unwanted_cpu)
      \<lparr>ts_world = \<lparr>ts_world = fresh True, ts_log = []\<rparr>, ts_log = []\<rparr>)))))"
proof -
  let ?env = "meter_reconciler (instrumented one_meter) sample_meter_env"
  let ?w = "\<lparr>ts_world = fresh True, ts_log = []\<rparr> :: bool sys"
  let ?s = "\<lparr>ts_world = ?w, ts_log = []\<rparr> :: (bool sys, meter_step) traced_state"
  have md: "om_Name (md_Meta unwanted_cpu) = ''cpu''" "md_Finalizers unwanted_cpu = [MeterFinalizer]" "deleting (md_Meta unwanted_cpu)"
    "meter_label unwanted_cpu = ''compute/cpu''"
    by (simp_all add: unwanted_cpu_def MeterController.sample_definition_def Let_def named_meta_def with_finalizers_def deleting_def meter_label_def zero_time_def)
  have cpu: "MeterAPIName ''cpu'' = ''cpu''" by code_simp
  have fin: "fl_Contains (mv_finalizers (sample_meter_env :: bool sys meter_env)) (md_Finalizers unwanted_cpu) MeterFinalizer"
    by (simp add: sample_meter_env_def list_finalizers_def md)
  obtain n where "run_state (DeleteMeter one_meter ''cpu'' ''compute/cpu'') (fresh True) = (None, n)"
    using run_fst [OF one_meter_returns] by blast
  then obtain w where "run_state (op_DeleteMeter (methods (instrumented one_meter)) ''cpu'' ''compute/cpu'') ?w = (None, w)"
    by (simp add: NewInstrumentedClient_def http_client_def run_forward_err run_unmetered)
  then have del: "run_state (mv_DeleteMeter ?env ''cpu'' ''compute/cpu'') ?w = (None, w)" by (simp add: meter_reconciler_def)
  have "fl_Contains (mv_finalizers ?env) (md_Finalizers unwanted_cpu) MeterFinalizer" using fin by (simp add: meter_reconciler_def)
  with del have "fst (run_state (reconcileDelete_meter ?env unwanted_cpu ''cpu'') ?s) = done_ok"
    by (simp add: reconcileDelete_meter_def Let_def md(4) run_simps announce_def)
      (simp add: meter_reconciler_def sample_meter_env_def run_simps)
  then have "fst (run_state (reconcile_definition ?env unwanted_cpu) ?s) = done_ok"
    by (simp add: reconcile_definition_def Let_def md(1,3) cpu)
  then have run: "run_state (reconcile_definition ?env unwanted_cpu) ?s = (done_ok, snd (run_state (reconcile_definition ?env unwanted_cpu) ?s))"
    by (metis prod.collapse)
  have "kept (net_world (ts_world (snd (run_state (mv_Update sample_meter_env x) w)))) = kept (net_world (ts_world w))"
    for x and w :: "bool sys" and kept :: "bool \<Rightarrow> (string \<times> string) set"
    by (simp add: sample_meter_env_def run_simps)
  from deletion_removes_meter [OF run md(3) fin one_meter_store this, of "''id-1''"] show ?thesis unfolding md(1) cpu .
qed

end
