(* ===== verification/Startup.thy ===== *)
theory Startup
  imports InvoiceFlow Indexers
begin

text \<open>
  How the two programs start: SetupWithManager of the controllers and of the webhook handler, and the
  functions main of cmd/amberflo-provider and cmd/submission-consumer.  The manager, the codec of the
  configuration file, the flags' values and the connections are parameters.  A call of the manager
  is a step with the error it returned.  \<open>os.Exit(1)\<close> ends the program: main returns the message
  logged before it, or nothing when it returns.
\<close>

section \<open>What a controller is set up with\<close>

type_synonym requests = "(string \<times> string) list"

text \<open>Its name, the kind it reconciles, for each other kind it watches the requests a change of
  an object puts into the queue, and what it runs for a request: namespace and name.\<close>

record 'w controller_setup =
  cs_Name :: string
  cs_For :: string
  cs_Watches :: "(string \<times> (kobject \<Rightarrow> ('w, requests) io)) list"
  cs_Reconcile :: "string \<times> string \<Rightarrow> ('w, reconciled) io"

definition account_SetupWithManager :: "'w account_env \<Rightarrow> 'w account_env \<times> 'w controller_setup" where
  "account_SetupWithManager r = (let r = r\<lparr>env_HasRecorder := True\<rparr> in (r,
     \<lparr>cs_Name = ''billingaccount'', cs_For = ''BillingAccount'',
      cs_Watches =
       [(''BillingAccountBinding'', \<lambda>obj. ret (case obj of KBinding b \<Rightarrow> mapBindingToAccount b | _ \<Rightarrow> [])),
        (''PaymentMethod'', \<lambda>obj. ret (case obj of KPaymentMethod pm \<Rightarrow> mapPaymentMethodToAccount pm | _ \<Rightarrow> [])),
        (''StripePaymentMethod'', \<lambda>obj. case obj of
            KStripePaymentMethod spm \<Rightarrow> untraced (mapStripePaymentMethodToAccount r spm) | _ \<Rightarrow> ret [])],
      cs_Reconcile = (\<lambda>(ns, name). untraced (Reconcile r ns name))\<rparr>))"

definition meterControllerName :: string where "meterControllerName = ''meterdefinition''"

definition offerControllerName :: string where "offerControllerName = ''offer''"

definition beControllerName :: string where "beControllerName = ''billingentitlement''"

definition meter_SetupWithManager :: "'w meter_env \<Rightarrow> 'w meter_env \<times> 'w controller_setup" where
  "meter_SetupWithManager r = (let r = r\<lparr>mv_HasRecorder := True\<rparr> in (r,
     \<lparr>cs_Name = meterControllerName, cs_For = ''MeterDefinition'', cs_Watches = [],
      cs_Reconcile = (\<lambda>(ns, name). untraced (Reconcile_meter r name))\<rparr>))"

definition offer_SetupWithManager :: "'w offer_env \<Rightarrow> 'w offer_env \<times> 'w controller_setup" where
  "offer_SetupWithManager r = (let r = r\<lparr>ov_HasRecorder := True\<rparr> in (r,
     \<lparr>cs_Name = offerControllerName, cs_For = ''Offer'', cs_Watches = [],
      cs_Reconcile = (\<lambda>(ns, name). untraced (Reconcile_offer r name))\<rparr>))"

definition entitlement_SetupWithManager :: "'w entitlement_env \<Rightarrow> 'w entitlement_env \<times> 'w controller_setup" where
  "entitlement_SetupWithManager r = (let r = r\<lparr>nv_HasRecorder := True\<rparr> in (r,
     \<lparr>cs_Name = beControllerName, cs_For = ''BillingEntitlement'',
      cs_Watches = [(''Offer'', \<lambda>obj. case obj of KOffer ofr \<Rightarrow> untraced (mapOfferToEntitlements r ofr) | _ \<Rightarrow> ret [])],
      cs_Reconcile = (\<lambda>(ns, name). untraced (Reconcile_entitlement r ns name))\<rparr>))"

text \<open>The path the webhook handler is registered under.\<close>

definition Endpoint :: string where
  "Endpoint = ''/amberflo/invoices''"

section \<open>The surroundings of main\<close>

record flags =
  fg_leader_elect :: bool
  fg_leader_elect_namespace :: string
  fg_health_probe_bind_address :: string
  fg_server_config :: string

definition default_flags :: flags where
  "default_flags = \<lparr>fg_leader_elect = False, fg_leader_elect_namespace = [],
     fg_health_probe_bind_address = '':8081'', fg_server_config = []\<rparr>"

record manager_options =
  mg_Metrics :: metrics_options
  mg_WebhookServer :: "webhook_options option"
  mg_HealthProbeBindAddress :: string
  mg_LeaderElection :: bool
  mg_LeaderElectionID :: string
  mg_LeaderElectionNamespace :: string

text \<open>\<open>bt_DecodeInto\<close> reads the configuration without the defaults that are registered with the scheme;
  the last fields are what the manager's client gives the parts.\<close>

record ('v, 'w, 'cfg) boot =
  bt_version :: string
  bt_ReadFile :: "string \<Rightarrow> ('v, string + string) io"
  bt_DecodeInto :: "string \<Rightarrow> string + AmberfloProvider"
  bt_dirs :: "string \<Rightarrow> string"
  bt_files :: "string \<Rightarrow> file_read"
  bt_Getenv :: "string \<Rightarrow> string"
  bt_GetConfig :: "string + 'cfg"
  bt_BuildConfigFromFlags :: "string \<Rightarrow> string + 'cfg"
  bt_NewKubeClient :: "'cfg \<Rightarrow> string option"
  bt_describe :: "'cfg \<Rightarrow> string"
  bt_there :: "string \<Rightarrow> string \<Rightarrow> bool"
  bt_NewManager :: "'cfg \<Rightarrow> manager_options \<Rightarrow> ('v, string option) io"
  bt_parse_url :: "string \<Rightarrow> (string \<times> string) option"
  bt_net :: "'w client"
  bt_Setup :: "'w sys controller_setup \<Rightarrow> ('v, string option) io"
  bt_IndexField :: "string \<Rightarrow> string \<Rightarrow> (kobject \<Rightarrow> string list) \<Rightarrow> ('v, string option) io"
  bt_AddCheck :: "string \<Rightarrow> ('v, string option) io"
  bt_Connect :: "nats_option list \<Rightarrow> string \<Rightarrow> ('v, string option) io"
  bt_Informer :: "string \<Rightarrow> ('v, string option) io"
  bt_Add :: "('v, string option) io"
  bt_Start :: "('v, string option) io"
  bt_account :: "'w sys account_env"
  bt_meter :: "'w sys meter_env"
  bt_offer :: "'w sys offer_env"
  bt_entitlement :: "'w sys entitlement_env"
  bt_webhook :: "'w sys webhook_env"
  bt_syncer :: "'w sys invoice_api"

text \<open>The steps of a start.  A consumer is added with its client, its batch size, retry delay, acknowledgement wait
  and fetch timeout.\<close>

datatype 'w boot_step =
    ConfigRead string "string + string"
  | ManagerMade manager_options "string option"
  | ControllerMade "'w sys controller_setup" "string option"
  | IndexMade string string "string option"
  | HandlerRegistered string "'w sys webhook_env" "string option"
  | NatsConnected string "nats_option list" "string option"
  | InformerAsked string "string option"
  | ConsumerAdded "'w net client_value" "int \<times> int \<times> int \<times> int" "string option"
  | CheckAdded string "string option"
  | Started "string option"
  | Drained

fun failed :: "'w boot_step \<Rightarrow> bool" where
  "failed (ConfigRead p x) = isl x"
| "failed (ManagerMade opts e) = (e \<noteq> None)"
| "failed (ControllerMade c e) = (e \<noteq> None)"
| "failed (IndexMade k f e) = (e \<noteq> None)"
| "failed (HandlerRegistered p h e) = (e \<noteq> None)"
| "failed (NatsConnected u os e) = (e \<noteq> None)"
| "failed (InformerAsked k e) = (e \<noteq> None)"
| "failed (ConsumerAdded c n e) = (e \<noteq> None)"
| "failed (CheckAdded k e) = (e \<noteq> None)"
| "failed (Started e) = (e \<noteq> None)"
| "failed Drained = False"

section \<open>Shared beginnings\<close>

text \<open>Go on with \<open>k\<close>, or end the program with a message when the call fails.\<close>

definition or_exit :: "('v, 'e, string option) act \<Rightarrow> string \<Rightarrow> ('v, 'e, string option) act \<Rightarrow> ('v, 'e, string option) act" where
  "or_exit m msg k = do { err \<leftarrow> m; case err of Some e \<Rightarrow> ret (Some msg) | None \<Rightarrow> k }"

definition load_config :: "('v, 'w, 'cfg) boot \<Rightarrow> string \<Rightarrow> ('v, 'w boot_step, string + AmberfloProvider) act" where
  "load_config b path = do {
     r \<leftarrow> (if path = [] then ret (Inr []) else perform (bt_ReadFile b path) (ConfigRead path));
     ret (case r of
       Inl e \<Rightarrow> Inl (''unable to read server config from '' @ print_str path)
     | Inr configData \<Rightarrow>
       (case bt_DecodeInto b configData of
          Inl e \<Rightarrow> Inl ''unable to decode server config''
        | Inr serverConfig \<Rightarrow> Inr (SetObjectDefaults (bt_dirs b) serverConfig)))
   }"

text \<open>The control plane to work on, and the local cluster, which the metrics endpoint asks.\<close>

definition find_clusters :: "('v, 'w, 'cfg) boot \<Rightarrow> AmberfloProvider \<Rightarrow> string + 'cfg \<times> 'cfg" where
  "find_clusters b serverConfig =
     (case RestConfig (bt_GetConfig b) (bt_BuildConfigFromFlags b) serverConfig of
        Inl e \<Rightarrow> Inl ''unable to load rest config''
      | Inr cfg \<Rightarrow>
        (case bt_NewKubeClient b cfg of
           Some e \<Rightarrow> Inl ''unable to create bootstrap client''
         | None \<Rightarrow>
           (case bt_GetConfig b of
              Inl e \<Rightarrow> Inl ''unable to load local rest config for metrics auth''
            | Inr metricsAuthConfig \<Rightarrow> Inr (cfg, metricsAuthConfig))))"

text \<open>Each program has its own \<open>load\<close>, which reads the key from its file or the environment.\<close>

definition make_client :: "((string \<Rightarrow> file_read) \<Rightarrow> string \<Rightarrow> string \<Rightarrow> string + string \<times> string)
    \<Rightarrow> ('v, 'w, 'cfg) boot \<Rightarrow> AmberfloProvider \<Rightarrow> string \<Rightarrow> string + 'w net client_value" where
  "make_client load b serverConfig agent =
     (case load (bt_files b) (ap_AmberfloAPIKeyPath serverConfig) (bt_Getenv b ''AMBERFLO_API_KEY'') of
        Inl e \<Rightarrow> Inl ''unable to load Amberflo API key''
      | Inr (apiKey, keySource) \<Rightarrow>
        (case NewClient (bt_parse_url b) (bt_net b) (client_options serverConfig apiKey (agent @ ''/'' @ bt_version b)) of
           Inl e \<Rightarrow> Inl ''unable to construct Amberflo client''
         | Inr c \<Rightarrow> Inr (NewInstrumentedClient (http_client c))))"

definition check_and_start :: "('v, 'w, 'cfg) boot \<Rightarrow> ('v, 'w boot_step, string option) act \<Rightarrow> ('v, 'w boot_step, string option) act" where
  "check_and_start b k =
     or_exit (perform (bt_AddCheck b ''healthz'') (CheckAdded ''healthz'')) ''unable to set up health check'' (
     or_exit (perform (bt_AddCheck b ''readyz'') (CheckAdded ''readyz'')) ''unable to set up ready check'' (
     or_exit (perform (bt_Start b) Started) ''unable to start manager'' k))"

section \<open>The provider program\<close>

definition provider_options :: "('v, 'w, 'cfg) boot \<Rightarrow> flags \<Rightarrow> AmberfloProvider \<Rightarrow> 'cfg \<Rightarrow> manager_options" where
  "provider_options b fg serverConfig metricsAuthConfig =
     \<lparr>mg_Metrics = MetricsServerConfig_Options (Some (bt_describe b metricsAuthConfig)) (ap_MetricsServer serverConfig),
      mg_WebhookServer = map_option (WebhookServerConfig_Options (bt_there b)) (ap_WebhookServer serverConfig),
      mg_HealthProbeBindAddress = fg_health_probe_bind_address fg,
      mg_LeaderElection = fg_leader_elect fg,
      mg_LeaderElectionID = ''amberflo-provider.providers.datum.net'',
      mg_LeaderElectionNamespace = fg_leader_elect_namespace fg\<rparr>"

definition account_setup :: "('v, 'w, 'cfg) boot \<Rightarrow> AmberfloProvider \<Rightarrow> 'w net client_value \<Rightarrow> 'w sys controller_setup" where
  "account_setup b serverConfig c = snd (account_SetupWithManager (account_reconciler serverConfig c (bt_syncer b) (bt_account b)))"

definition meter_setup :: "('v, 'w, 'cfg) boot \<Rightarrow> 'w net client_value \<Rightarrow> 'w sys controller_setup" where
  "meter_setup b c = snd (meter_SetupWithManager (meter_reconciler c (bt_meter b)))"

definition offer_setup :: "('v, 'w, 'cfg) boot \<Rightarrow> 'w net client_value \<Rightarrow> 'w sys controller_setup" where
  "offer_setup b c = snd (offer_SetupWithManager (offer_reconciler c (bt_offer b)))"

definition entitlement_setup :: "('v, 'w, 'cfg) boot \<Rightarrow> 'w net client_value \<Rightarrow> 'w sys controller_setup" where
  "entitlement_setup b c = snd (entitlement_SetupWithManager (entitlement_reconciler c (bt_entitlement b)))"

definition invoice_handler :: "('v, 'w, 'cfg) boot \<Rightarrow> AmberfloProvider \<Rightarrow> 'w net client_value \<Rightarrow> 'w sys webhook_env option" where
  "invoice_handler b serverConfig c = webhook_handler (bt_files b) serverConfig (bt_Getenv b ''AMBERFLO_WEBHOOK_SECRET'') c
     (bt_syncer b) (bt_webhook b)"

text \<open>The manager's client and the syncer are set already; registering a handler does not fail.\<close>

definition handler_SetupWithManager :: "'w sys webhook_env \<Rightarrow> ('v, 'w boot_step, string option) act" where
  "handler_SetupWithManager h = do { remark (HandlerRegistered Endpoint h None); ret None }"

definition provider_wire :: "('v, 'w, 'cfg) boot \<Rightarrow> AmberfloProvider \<Rightarrow> 'w net client_value \<Rightarrow> ('v, 'w boot_step, string option) act" where
  "provider_wire b serverConfig c =
     (let setup = (\<lambda>u. perform (bt_Setup b u) (ControllerMade u));
          register = (\<lambda>kind field keys. perform (bt_IndexField b kind field keys) (IndexMade kind field))
      in or_exit (setup (account_setup b serverConfig c)) ''unable to create controller'' (
         or_exit (setup (meter_setup b c)) ''unable to create controller'' (
         or_exit (setup (offer_setup b c)) ''unable to create controller'' (
         or_exit (setup (entitlement_setup b c)) ''unable to create controller'' (
         or_exit (AddIndexers register) ''unable to add indexers'' (
         case invoice_handler b serverConfig c of
           None \<Rightarrow> check_and_start b (ret None)
         | Some h \<Rightarrow> or_exit (handler_SetupWithManager h) ''unable to register Amberflo invoice webhook''
             (check_and_start b (ret None))))))))"

definition provider_main :: "('v, 'w, 'cfg) boot \<Rightarrow> flags \<Rightarrow> ('v, 'w boot_step, string option) act" where
  "provider_main b fg = do {
     r \<leftarrow> load_config b (fg_server_config fg);
     case r of
       Inl msg \<Rightarrow> ret (Some msg)
     | Inr serverConfig \<Rightarrow>
       (case find_clusters b serverConfig of
          Inl msg \<Rightarrow> ret (Some msg)
        | Inr (cfg, metricsAuthConfig) \<Rightarrow>
          (let opts = provider_options b fg serverConfig metricsAuthConfig
           in or_exit (perform (bt_NewManager b cfg opts) (ManagerMade opts)) ''unable to start manager'' (
              case make_client loadAPIKey b serverConfig ''amberflo-provider'' of
                Inl msg \<Rightarrow> ret (Some msg)
              | Inr c \<Rightarrow> provider_wire b serverConfig c)))
   }"

section \<open>The submission consumer\<close>

definition consumer_options :: "('v, 'w, 'cfg) boot \<Rightarrow> flags \<Rightarrow> AmberfloProvider \<Rightarrow> 'cfg \<Rightarrow> manager_options" where
  "consumer_options b fg serverConfig metricsAuthConfig =
     \<lparr>mg_Metrics = MetricsServerConfig_Options (Some (bt_describe b metricsAuthConfig)) (ap_MetricsServer serverConfig),
      mg_WebhookServer = None, mg_HealthProbeBindAddress = fg_health_probe_bind_address fg,
      mg_LeaderElection = False, mg_LeaderElectionID = [], mg_LeaderElectionNamespace = []\<rparr>"

definition connectNATS :: "('v, 'w, 'cfg) boot \<Rightarrow> NATSConfig \<Rightarrow> ('v, 'w boot_step, string option) act" where
  "connectNATS b cfg = perform (bt_Connect b (connectNATS_options cfg) (na_URL cfg))
     (NatsConnected (na_URL cfg) (connectNATS_options cfg))"

text \<open>After the manager has stopped without an error the connection is drained; an exit skips that.\<close>

definition consumer_wire :: "('v, 'w, 'cfg) boot \<Rightarrow> AmberfloProvider \<Rightarrow> 'w net client_value \<Rightarrow> ('v, 'w boot_step, string option) act" where
  "consumer_wire b serverConfig c =
     (if na_URL (ap_Nats serverConfig) = [] then ret (Some ''NATS URL must be configured'')
      else or_exit (connectNATS b (ap_Nats serverConfig)) ''unable to connect to NATS'' (
           or_exit (perform (bt_Informer b ''BillingAccount'') (InformerAsked ''BillingAccount''))
             ''unable to create BillingAccountCache'' (
           or_exit (perform (bt_Informer b ''MeterDefinition'') (InformerAsked ''MeterDefinition''))
             ''unable to create MeterDefinitionCache'' (
           or_exit (perform (bt_Add b) (ConsumerAdded c (ap_SubmissionBatchSize serverConfig, ap_SubmissionRetryAfter serverConfig,
               ap_SubmissionAckWait serverConfig, ap_SubmissionFetchTimeout serverConfig)))
             ''unable to add submission consumer to manager'' (
           check_and_start b (do { remark Drained; ret None }))))))"

definition consumer_main :: "('v, 'w, 'cfg) boot \<Rightarrow> flags \<Rightarrow> ('v, 'w boot_step, string option) act" where
  "consumer_main b fg = do {
     r \<leftarrow> load_config b (fg_server_config fg);
     case r of
       Inl msg \<Rightarrow> ret (Some msg)
     | Inr serverConfig \<Rightarrow>
       (case find_clusters b serverConfig of
          Inl msg \<Rightarrow> ret (Some msg)
        | Inr (cfg, metricsAuthConfig) \<Rightarrow>
          (let opts = consumer_options b fg serverConfig metricsAuthConfig
           in or_exit (perform (bt_NewManager b cfg opts) (ManagerMade opts)) ''unable to start manager'' (
              case make_client loadAPIKey_consumer b serverConfig ''submission-consumer'' of
                Inl msg \<Rightarrow> ret (Some msg)
              | Inr c \<Rightarrow> consumer_wire b serverConfig c)))
   }"

section \<open>Facts\<close>

text \<open>A run by a plan, which says of each step how it reports its error: a step that fails is the last
  one and the program exits; after the whole plan it ends as \<open>W\<close> says.\<close>

fun follows :: "('e list \<Rightarrow> string option \<Rightarrow> bool) \<Rightarrow> (string option \<Rightarrow> 'e) list \<Rightarrow> 'e list \<Rightarrow> string option \<Rightarrow> bool" where
  "follows W [] es r \<longleftrightarrow> W es r"
| "follows W (g # plan) es r \<longleftrightarrow> (\<exists>e. es = [g (Some e)]) \<and> r \<noteq> None
     \<or> (\<exists>rest. es = g None # rest \<and> follows W plan rest r)"

text \<open>The end of the provider, and that of the consumer.\<close>

definition returns :: "'w boot_step list \<Rightarrow> 'w boot_step list \<Rightarrow> string option \<Rightarrow> bool" where
  "returns last_steps es r \<longleftrightarrow> es = last_steps \<and> r = None"

text \<open>A failed step is the last one, and the program then exits.\<close>

definition stops_at_failure :: "'w boot_step list \<Rightarrow> string option \<Rightarrow> bool" where
  "stops_at_failure es r \<longleftrightarrow> (\<forall>pre e post. es = pre @ e # post \<longrightarrow> failed e \<longrightarrow> post = [] \<and> r \<noteq> None)"

lemma stops_after:
  assumes "stops_at_failure rest r" "\<forall>e\<in>set us. \<not> failed e"
  shows "stops_at_failure (us @ rest) r"
  unfolding stops_at_failure_def
proof (intro allI impI)
  fix pre e post assume "us @ rest = pre @ e # post" "failed e"
  with assms(2) obtain zs where "rest = zs @ e # post" by (auto simp: append_eq_append_conv2 append_eq_Cons_conv Cons_eq_append_conv)
  with assms(1) \<open>failed e\<close> show "post = [] \<and> r \<noteq> None" by (auto simp: stops_at_failure_def)
qed

lemma stops_one: "r \<noteq> None \<Longrightarrow> stops_at_failure [e] r" "stops_at_failure [] r" "\<not> failed e \<Longrightarrow> stops_at_failure [e] r"
  by (auto simp: stops_at_failure_def Cons_eq_append_conv)

lemma stops_follows:
  assumes "follows W plan es r" "\<And>g. g \<in> set plan \<Longrightarrow> \<not> failed (g None)" "\<And>rest. W rest r \<Longrightarrow> stops_at_failure rest r"
  shows "stops_at_failure es r"
  using assms
proof (induction plan arbitrary: es)
  case (Cons g plan)
  from Cons.prems(1) consider e where "es = [g (Some e)]" "r \<noteq> None" | rest where "es = [g None] @ rest" "follows W plan rest r" by auto
  then show ?case
  proof cases
    case 1
    then show ?thesis by (simp add: stops_one)
  next
    case 2
    have "stops_at_failure rest r" using Cons.IH [OF 2(2)] Cons.prems(2,3) by simp
    then show ?thesis using 2(1) Cons.prems(2) stops_after [of rest r "[g None]"] by simp
  qed
qed simp

lemma returns_stops: "returns [] es r \<Longrightarrow> stops_at_failure es r" "returns [Drained] es r \<Longrightarrow> stops_at_failure es r"
  by (simp_all add: returns_def stops_one)

text \<open>Where a run has made a step, it has made all that come before.\<close>

lemma follows_reaches:
  assumes "follows W (plan @ later) es r" "z \<in> set es \<and> P z \<or> r = None" "\<And>h y. h \<in> set plan \<Longrightarrow> \<not> P (h y)"
  shows "\<exists>rest. es = map (\<lambda>g. g None) plan @ rest \<and> follows W later rest r"
  using assms by (induction plan arbitrary: es) auto

lemma or_exit_follows:
  assumes "leaves k (follows W plan)"
  shows "leaves (or_exit (perform m g) msg k) (follows W (g # plan))"
  unfolding or_exit_def
  by (intro leaves_perform_bind leaves_option leaves_ret leaves_weaken [OF assms]) auto

lemma handler_follows:
  assumes "leaves k (follows W plan)"
  shows "leaves (or_exit (handler_SetupWithManager h) msg k) (follows W (HandlerRegistered Endpoint h # plan))"
proof -
  have "or_exit (handler_SetupWithManager h) msg k = do { remark (HandlerRegistered Endpoint h None); k }"
    by (rule state.expand) (simp add: fun_eq_iff or_exit_def handler_SetupWithManager_def run_simps)
  then show ?thesis by (simp only:) (intro leaves_remark_bind leaves_weaken [OF assms], auto)
qed

lemma or_exit_AddIndexers:
  assumes "leaves k (follows W plan)"
  shows "leaves (or_exit (AddIndexers (\<lambda>kind field keys. perform (m kind field keys) (IndexMade kind field))) msg k)
    (follows W (IndexMade ''BillingAccountBinding'' BindingBillingAccountRefField
      # IndexMade ''BillingAccountBinding'' BindingProjectRefField # IndexMade ''BillingAccount'' BillingAccountUIDField # plan))"
proof -
  have "or_exit (AddIndexers (\<lambda>kind field keys. perform (m kind field keys) (IndexMade kind field))) msg k =
    or_exit (perform (m ''BillingAccountBinding'' BindingBillingAccountRefField binding_account_keys)
      (IndexMade ''BillingAccountBinding'' BindingBillingAccountRefField)) msg (
    or_exit (perform (m ''BillingAccountBinding'' BindingProjectRefField binding_project_keys)
      (IndexMade ''BillingAccountBinding'' BindingProjectRefField)) msg (
    or_exit (perform (m ''BillingAccount'' BillingAccountUIDField account_uid_keys)
      (IndexMade ''BillingAccount'' BillingAccountUIDField)) msg k))"
    by (rule state.expand) (auto simp: fun_eq_iff or_exit_def AddIndexers_def run_simps split: prod.splits option.splits)
  then show ?thesis by (simp only:) (intro or_exit_follows assms)
qed

definition end_plan :: "(string option \<Rightarrow> 'w boot_step) list" where
  "end_plan = [CheckAdded ''healthz'', CheckAdded ''readyz'']"

lemma check_and_start_follows:
  "leaves k (follows W plan) \<Longrightarrow> leaves (check_and_start b k) (follows W (end_plan @ Started # plan))"
  unfolding check_and_start_def end_plan_def by (simp only: append.simps) (intro or_exit_follows)

text \<open>The steps between the manager and its start.\<close>

definition provider_plan :: "('v, 'w, 'cfg) boot \<Rightarrow> AmberfloProvider \<Rightarrow> 'w net client_value \<Rightarrow> (string option \<Rightarrow> 'w boot_step) list" where
  "provider_plan b serverConfig c =
     [ControllerMade (account_setup b serverConfig c), ControllerMade (meter_setup b c), ControllerMade (offer_setup b c),
      ControllerMade (entitlement_setup b c), IndexMade ''BillingAccountBinding'' BindingBillingAccountRefField,
      IndexMade ''BillingAccountBinding'' BindingProjectRefField, IndexMade ''BillingAccount'' BillingAccountUIDField]
     @ (case invoice_handler b serverConfig c of None \<Rightarrow> [] | Some h \<Rightarrow> [HandlerRegistered Endpoint h]) @ end_plan"

lemma provider_wire_follows: "leaves (provider_wire b serverConfig c) (follows (returns []) (provider_plan b serverConfig c @ [Started]))"
  unfolding provider_wire_def provider_plan_def Let_def append.simps append_assoc
  by (intro or_exit_follows or_exit_AddIndexers, cases "invoice_handler b serverConfig c")
    (simp_all add: check_and_start_follows leaves_ret handler_follows returns_def)

definition consumer_plan :: "AmberfloProvider \<Rightarrow> 'w net client_value \<Rightarrow> (string option \<Rightarrow> 'w boot_step) list" where
  "consumer_plan serverConfig c =
     [NatsConnected (na_URL (ap_Nats serverConfig)) (connectNATS_options (ap_Nats serverConfig)),
      InformerAsked ''BillingAccount'', InformerAsked ''MeterDefinition'',
      ConsumerAdded c (ap_SubmissionBatchSize serverConfig, ap_SubmissionRetryAfter serverConfig,
        ap_SubmissionAckWait serverConfig, ap_SubmissionFetchTimeout serverConfig)] @ end_plan"

lemma consumer_wire_follows:
  "leaves (consumer_wire b serverConfig c) (\<lambda>es r. if na_URL (ap_Nats serverConfig) = [] then es = [] \<and> r \<noteq> None
     else follows (returns [Drained]) (consumer_plan serverConfig c @ [Started]) es r)"
proof -
  have "leaves (do { remark Drained; ret None }) (follows (returns [Drained]) [])"
    by (intro leaves_remark_bind leaves_ret) (simp add: returns_def)
  note end_follows = check_and_start_follows [OF this]
  show ?thesis
  proof (cases "na_URL (ap_Nats serverConfig) = []")
    case True
    then show ?thesis by (simp add: consumer_wire_def leaves_ret)
  next
    case False
    show ?thesis
      unfolding consumer_wire_def consumer_plan_def connectNATS_def append.simps append_assoc if_not_P [OF False]
      by (intro or_exit_follows end_follows)
  qed
qed

text \<open>The shape both mains have.\<close>

definition program :: "('v, 'w, 'cfg) boot \<Rightarrow> string \<Rightarrow> (AmberfloProvider \<Rightarrow> 'cfg \<Rightarrow> manager_options)
    \<Rightarrow> (AmberfloProvider \<Rightarrow> string + 'w net client_value)
    \<Rightarrow> (AmberfloProvider \<Rightarrow> 'w net client_value \<Rightarrow> ('v, 'w boot_step, string option) act) \<Rightarrow> ('v, 'w boot_step, string option) act" where
  "program b path opts client wire = do {
     r \<leftarrow> load_config b path;
     case r of
       Inl msg \<Rightarrow> ret (Some msg)
     | Inr serverConfig \<Rightarrow>
       (case find_clusters b serverConfig of
          Inl msg \<Rightarrow> ret (Some msg)
        | Inr (cfg, auth) \<Rightarrow>
            or_exit (perform (bt_NewManager b cfg (opts serverConfig auth)) (ManagerMade (opts serverConfig auth))) ''unable to start manager''
              (case client serverConfig of Inl msg \<Rightarrow> ret (Some msg) | Inr c \<Rightarrow> wire serverConfig c))
   }"

lemma mains:
  "provider_main b fg = program b (fg_server_config fg) (provider_options b fg)
     (\<lambda>c. make_client loadAPIKey b c ''amberflo-provider'') (provider_wire b)"
  "consumer_main b fg = program b (fg_server_config fg) (consumer_options b fg)
     (\<lambda>c. make_client loadAPIKey_consumer b c ''submission-consumer'') (consumer_wire b)"
  unfolding provider_main_def consumer_main_def program_def Let_def by (rule refl)+

definition configured :: "('v, 'w, 'cfg) boot \<Rightarrow> string \<Rightarrow> 'w boot_step list \<Rightarrow> AmberfloProvider \<Rightarrow> bool" where
  "configured b path es serverConfig \<longleftrightarrow> (\<exists>data c. es = (if path = [] then [] else [ConfigRead path (Inr data)])
     \<and> bt_DecodeInto b (if path = [] then [] else data) = Inr c \<and> serverConfig = SetObjectDefaults (bt_dirs b) c)"

lemma load_config_leaves:
  "leaves (load_config b path) (\<lambda>es r. case r of
      Inr c \<Rightarrow> configured b path es c
    | Inl msg \<Rightarrow> es = [] \<or> (\<exists>x. es = [ConfigRead path x]))"
  unfolding load_config_def
  by (auto simp: configured_def intro!: leaves_ret leaves_perform_bind split: sum.splits)

text \<open>How a run of a program ends: before the manager is made, for want of a client, or on its plan.\<close>

definition program_run :: "('v, 'w, 'cfg) boot \<Rightarrow> string \<Rightarrow> (AmberfloProvider \<Rightarrow> 'cfg \<Rightarrow> manager_options)
    \<Rightarrow> (AmberfloProvider \<Rightarrow> string + 'w net client_value) \<Rightarrow> (AmberfloProvider \<Rightarrow> 'w net client_value \<Rightarrow> 'w boot_step list \<Rightarrow> string option \<Rightarrow> bool)
    \<Rightarrow> 'w boot_step list \<Rightarrow> string option \<Rightarrow> bool" where
  "program_run b path opts client W es r \<longleftrightarrow>
     (es = [] \<or> (\<exists>x. es = [ConfigRead path x])) \<and> r \<noteq> None
   \<or> (\<exists>us c cfg auth. configured b path us c \<and> find_clusters b c = Inr (cfg, auth)
       \<and> (r \<noteq> None \<and> (\<exists>x. es = us @ [ManagerMade (opts c auth) x])
          \<or> (\<exists>cl rest. client c = Inr cl \<and> W c cl rest r \<and> es = us @ ManagerMade (opts c auth) None # rest)))"

lemma program_run_stop:
  "configured b path us c \<Longrightarrow> find_clusters b c = Inr (cfg, auth) \<Longrightarrow>
     program_run b path opts client W (us @ [ManagerMade (opts c auth) x]) (Some msg)"
  unfolding program_run_def by blast

lemma program_run_wire:
  "configured b path us c \<Longrightarrow> find_clusters b c = Inr (cfg, auth) \<Longrightarrow> client c = Inr cl \<Longrightarrow> W c cl rest r \<Longrightarrow>
     program_run b path opts client W (us @ ManagerMade (opts c auth) None # rest) r"
  unfolding program_run_def by blast

lemma program_leaves:
  fixes b :: "('v, 'w, 'cfg) boot"
  assumes "\<And>c cl. leaves (wire c cl) (W c cl)"
  shows "leaves (program b path opts client wire) (program_run b path opts client W)"
  unfolding program_def
proof (rule leaves_bind, rule leaves_weaken [OF load_config_leaves])
  fix us :: "'w boot_step list" and r :: "string + AmberfloProvider"
  assume l: "case r of Inr c \<Rightarrow> configured b path us c | Inl msg \<Rightarrow> us = [] \<or> (\<exists>x. us = [ConfigRead path x])"
  show "leaves (case r of Inl msg \<Rightarrow> ret (Some msg) | Inr serverConfig \<Rightarrow>
       (case find_clusters b serverConfig of
          Inl msg \<Rightarrow> ret (Some msg)
        | Inr (cfg, auth) \<Rightarrow>
            or_exit (perform (bt_NewManager b cfg (opts serverConfig auth)) (ManagerMade (opts serverConfig auth))) ''unable to start manager''
              (case client serverConfig of Inl msg \<Rightarrow> ret (Some msg) | Inr c \<Rightarrow> wire serverConfig c)))
     (\<lambda>es. program_run b path opts client W (us @ es))"
  proof (cases r)
    case (Inl msg)
    with l show ?thesis by (auto simp: program_run_def intro!: leaves_ret)
  next
    case (Inr c)
    with l have c: "configured b path us c" by simp
    show ?thesis
    proof (cases "find_clusters b c")
      case (Inl msg)
      with c show ?thesis by (auto simp: Inr program_run_def configured_def intro!: leaves_ret)
    next
      case (Inr p)
      obtain cfg auth where p: "p = (cfg, auth)" by fastforce
      show ?thesis
        unfolding \<open>r = Inr c\<close> Inr p sum.case prod.case or_exit_def
        by (intro leaves_perform_bind leaves_option leaves_sum leaves_ret leaves_weaken [OF assms])
          (use c Inr p in \<open>auto intro: program_run_stop program_run_wire\<close>)
    qed
  qed
qed

lemma configured_ok: "configured b path us c \<Longrightarrow> e \<in> set us \<Longrightarrow> \<not> failed e \<and> (\<forall>x. e \<noteq> Started x)"
  by (auto simp: configured_def split: if_splits)

lemma program_run_stops:
  assumes "program_run b path opts client W es r" "\<And>c cl rest. W c cl rest r \<Longrightarrow> stops_at_failure rest r"
  shows "stops_at_failure es r"
  using assms(1) unfolding program_run_def
proof (elim disjE exE conjE)
  fix us c cfg auth cl rest assume "configured b path us c" "W c cl rest r" "es = us @ ManagerMade (opts c auth) None # rest"
  then show ?thesis using stops_after [OF assms(2), of c cl rest "us @ [ManagerMade (opts c auth) None]"] configured_ok by fastforce
next
  fix us c cfg auth x assume "configured b path us c" "r \<noteq> None" "es = us @ [ManagerMade (opts c auth) x]"
  then show ?thesis using configured_ok stops_after [OF stops_one(1)] by blast
qed (auto simp: stops_one)

lemma program_run_started:
  assumes "program_run b path opts client W es r" "r = None \<or> (\<exists>x. Started x \<in> set es)"
  obtains us c cfg auth cl rest where "configured b path us c" "find_clusters b c = Inr (cfg, auth)" "client c = Inr cl"
    "W c cl rest r" "es = us @ ManagerMade (opts c auth) None # rest" "r = None \<or> (\<exists>x. Started x \<in> set rest)"
  using assms(1) unfolding program_run_def
proof (elim disjE exE conjE)
  fix us c cfg auth cl rest
  assume run: "configured b path us c" "find_clusters b c = Inr (cfg, auth)" "client c = Inr cl" "W c cl rest r"
    "es = us @ ManagerMade (opts c auth) None # rest"
  have "r = None \<or> (\<exists>x. Started x \<in> set rest)" using assms(2) configured_ok [OF run(1)] by (auto simp: run(5))
  with run show thesis by (rule that)
next
  fix us c cfg auth x assume "configured b path us c" "r \<noteq> None" "es = us @ [ManagerMade (opts c auth) x]"
  then show thesis using assms(2) configured_ok [of b path us c] by auto
qed (use assms(2) in auto)

lemma plans_ok:
  "g \<in> set (provider_plan b c cl) \<Longrightarrow> \<not> failed (g None) \<and> (\<forall>x y. g x \<noteq> Started y)"
  "g \<in> set (consumer_plan c cl) \<Longrightarrow> \<not> failed (g None) \<and> (\<forall>x y. g x \<noteq> Started y)"
  by (auto simp: provider_plan_def consumer_plan_def end_plan_def split: option.splits)

lemma make_client_key:
  "make_client load b c agent = Inr cl \<Longrightarrow> \<exists>key src nc. load (bt_files b) (ap_AmberfloAPIKeyPath c) (bt_Getenv b ''AMBERFLO_API_KEY'') = Inr (key, src)
     \<and> trim_space key \<noteq> [] \<and> cl = NewInstrumentedClient (http_client nc) \<and> cl_apiKey nc = key"
proof -
  assume "make_client load b c agent = Inr cl"
  then obtain key src nc where n: "load (bt_files b) (ap_AmberfloAPIKeyPath c) (bt_Getenv b ''AMBERFLO_API_KEY'') = Inr (key, src)"
    "NewClient (bt_parse_url b) (bt_net b) (client_options c key (agent @ ''/'' @ bt_version b)) = Inr nc"
    "cl = NewInstrumentedClient (http_client nc)"
    by (auto simp: make_client_def split: sum.splits)
  moreover from n(2) have "trim_space key \<noteq> []" "cl_apiKey nc = key"
    by (auto simp: NewClient_def client_options_def split: if_splits option.splits)
  ultimately show ?thesis by blast
qed

lemma provider_main_leaves:
  "leaves (provider_main b fg) (program_run b (fg_server_config fg) (provider_options b fg)
     (\<lambda>c. make_client loadAPIKey b c ''amberflo-provider'') (\<lambda>c cl. follows (returns []) (provider_plan b c cl @ [Started])))"
  unfolding mains by (rule program_leaves, rule provider_wire_follows)

lemma consumer_main_leaves:
  "leaves (consumer_main b fg) (program_run b (fg_server_config fg) (consumer_options b fg)
     (\<lambda>c. make_client loadAPIKey_consumer b c ''submission-consumer'')
     (\<lambda>c cl es r. if na_URL (ap_Nats c) = [] then es = [] \<and> r \<noteq> None
        else follows (returns [Drained]) (consumer_plan c cl @ [Started]) es r))"
  unfolding mains by (rule program_leaves, rule consumer_wire_follows)

lemma follows_Started:
  assumes "follows W (plan @ [Started]) es r" "r = None \<or> (\<exists>x. Started x \<in> set es)" "\<And>g x y. g \<in> set plan \<Longrightarrow> g x \<noteq> Started y"
  obtains x rest where "es = map (\<lambda>g. g None) plan @ Started x # rest" "x \<noteq> None \<and> r \<noteq> None \<and> rest = [] \<or> x = None \<and> W rest r"
proof -
  have "\<exists>z. z \<in> set es \<and> (\<exists>y. z = Started y) \<or> r = None" using assms(2) by (cases "r = None") auto
  then obtain z where z: "z \<in> set es \<and> (\<exists>y. z = Started y) \<or> r = None" by (rule exE)
  have np: "\<not> (\<exists>y. h x = Started y)" if "h \<in> set plan" for h x using assms(3) [OF that, of x] by simp
  have "\<exists>us. es = map (\<lambda>g. g None) plan @ us \<and> follows W [Started] us r"
    using assms(1) z by (rule follows_reaches) (rule np)
  then show thesis
  proof (elim exE conjE)
    fix us assume es: "es = map (\<lambda>g. g None) plan @ us" and "follows W [Started] us r"
    then consider e where "us = [Started (Some e)]" "r \<noteq> None" | rest where "us = Started None # rest" "W rest r" by auto
    then show thesis
    proof cases
      case 1
      show thesis by (rule that [of "Some e" "[]"]) (simp_all add: es 1)
    next
      case 2
      show thesis by (rule that [of None rest]) (simp_all add: es 2)
    qed
  qed
qed

section \<open>Properties\<close>

text \<open>
  C25.  The start of the provider program.  A step that fails is the last one and the program exits;
  it returns normally only after its manager ran and stopped without an error; and when the manager
  is started, all of this has happened, in this order and nothing else: the configuration was read
  and completed with its defaults, the manager made, the four controllers set up over a client with a
  key that is not blank, the three field indexes registered, the webhook handler registered if it is
  configured and its secret was found, and the two health checks added.
\<close>

theorem provider_starts:
  assumes "run_state (provider_main b fg) s = (r, s')"
  shows "\<exists>es. ts_log s' = ts_log s @ es \<and> stops_at_failure es r
    \<and> (r = None \<longrightarrow> Started None \<in> set es)
    \<and> ((\<exists>x. Started x \<in> set es) \<longrightarrow> (\<exists>us c cfg auth key src nc x.
          configured b (fg_server_config fg) us c \<and> find_clusters b c = Inr (cfg, auth)
        \<and> loadAPIKey (bt_files b) (ap_AmberfloAPIKeyPath c) (bt_Getenv b ''AMBERFLO_API_KEY'') = Inr (key, src)
        \<and> trim_space key \<noteq> [] \<and> cl_apiKey nc = key
        \<and> es = us @ ManagerMade (provider_options b fg c auth) None
            # map (\<lambda>g. g None) (provider_plan b c (NewInstrumentedClient (http_client nc))) @ [Started x]))"
proof -
  from leavesD [OF provider_main_leaves assms] obtain es where es: "ts_log s' = ts_log s @ es"
    and run: "program_run b (fg_server_config fg) (provider_options b fg) (\<lambda>c. make_client loadAPIKey b c ''amberflo-provider'')
      (\<lambda>c cl. follows (returns []) (provider_plan b c cl @ [Started])) es r" by blast
  have "stops_at_failure es r"
    by (rule program_run_stops [OF run], erule stops_follows) (auto dest: plans_ok returns_stops)
  moreover have "(r = None \<longrightarrow> Started None \<in> set es) \<and> (\<exists>us c cfg auth key src nc x.
          configured b (fg_server_config fg) us c \<and> find_clusters b c = Inr (cfg, auth)
        \<and> loadAPIKey (bt_files b) (ap_AmberfloAPIKeyPath c) (bt_Getenv b ''AMBERFLO_API_KEY'') = Inr (key, src)
        \<and> trim_space key \<noteq> [] \<and> cl_apiKey nc = key
        \<and> es = us @ ManagerMade (provider_options b fg c auth) None
            # map (\<lambda>g. g None) (provider_plan b c (NewInstrumentedClient (http_client nc))) @ [Started x])"
    if st: "r = None \<or> (\<exists>x. Started x \<in> set es)"
  proof -
    obtain us c cfg auth cl rest where p: "configured b (fg_server_config fg) us c" "find_clusters b c = Inr (cfg, auth)"
      "make_client loadAPIKey b c ''amberflo-provider'' = Inr cl" "follows (returns []) (provider_plan b c cl @ [Started]) rest r"
      "es = us @ ManagerMade (provider_options b fg c auth) None # rest" "r = None \<or> (\<exists>x. Started x \<in> set rest)"
      by (rule program_run_started [OF run st])
    obtain x more where x: "rest = map (\<lambda>g. g None) (provider_plan b c cl) @ Started x # more"
      "x \<noteq> None \<and> r \<noteq> None \<and> more = [] \<or> x = None \<and> returns [] more r"
      by (rule follows_Started [OF p(4,6)]) (auto dest: plans_ok)
    then have "more = []" "r = None \<longrightarrow> x = None" by (auto simp: returns_def)
    with x(1) p make_client_key [OF p(3)] show ?thesis by fastforce
  qed
  ultimately show ?thesis using es by (intro exI [of _ es]) blast
qed

text \<open>
  C26.  The start of the submission consumer, alike: when its manager is started, the configuration
  names a NATS server and the connection stands, with the options of the configuration, both
  informers were there for the caches and the consumer was added with the configured sizes and
  delays; the connection is drained only after a manager that stopped without an error.
\<close>

theorem consumer_starts:
  assumes "run_state (consumer_main b fg) s = (r, s')"
  shows "\<exists>es. ts_log s' = ts_log s @ es \<and> stops_at_failure es r
    \<and> (r = None \<longrightarrow> Started None \<in> set es \<and> last es = Drained)
    \<and> ((\<exists>x. Started x \<in> set es) \<longrightarrow> (\<exists>us c cfg auth key src nc x.
          configured b (fg_server_config fg) us c \<and> find_clusters b c = Inr (cfg, auth) \<and> na_URL (ap_Nats c) \<noteq> []
        \<and> loadAPIKey_consumer (bt_files b) (ap_AmberfloAPIKeyPath c) (bt_Getenv b ''AMBERFLO_API_KEY'') = Inr (key, src)
        \<and> trim_space key \<noteq> [] \<and> cl_apiKey nc = key
        \<and> es = us @ ManagerMade (consumer_options b fg c auth) None
            # map (\<lambda>g. g None) (consumer_plan c (NewInstrumentedClient (http_client nc))) @ Started x # (if r = None then [Drained] else [])))"
proof -
  let ?W = "\<lambda>c cl es r. if na_URL (ap_Nats c) = [] then es = [] \<and> r \<noteq> None
        else follows (returns [Drained]) (consumer_plan c cl @ [Started]) es r"
  from leavesD [OF consumer_main_leaves assms] obtain es where es: "ts_log s' = ts_log s @ es"
    and run: "program_run b (fg_server_config fg) (consumer_options b fg)
      (\<lambda>c. make_client loadAPIKey_consumer b c ''submission-consumer'') ?W es r" by blast
  have "stops_at_failure rest r" if "?W c cl rest r" for c cl rest
  proof (cases "na_URL (ap_Nats c) = []")
    case True
    with that show ?thesis by (simp add: stops_one)
  next
    case False
    with that have "follows (returns [Drained]) (consumer_plan c cl @ [Started]) rest r" by simp
    then show ?thesis by (rule stops_follows) (auto dest: plans_ok returns_stops)
  qed
  then have "stops_at_failure es r" by (rule program_run_stops [OF run])
  moreover have "(r = None \<longrightarrow> Started None \<in> set es \<and> last es = Drained) \<and> (\<exists>us c cfg auth key src nc x.
          configured b (fg_server_config fg) us c \<and> find_clusters b c = Inr (cfg, auth) \<and> na_URL (ap_Nats c) \<noteq> []
        \<and> loadAPIKey_consumer (bt_files b) (ap_AmberfloAPIKeyPath c) (bt_Getenv b ''AMBERFLO_API_KEY'') = Inr (key, src)
        \<and> trim_space key \<noteq> [] \<and> cl_apiKey nc = key
        \<and> es = us @ ManagerMade (consumer_options b fg c auth) None
            # map (\<lambda>g. g None) (consumer_plan c (NewInstrumentedClient (http_client nc))) @ Started x # (if r = None then [Drained] else []))"
    if st: "r = None \<or> (\<exists>x. Started x \<in> set es)"
  proof -
    obtain us c cfg auth cl rest where p: "configured b (fg_server_config fg) us c" "find_clusters b c = Inr (cfg, auth)"
      "make_client loadAPIKey_consumer b c ''submission-consumer'' = Inr cl" "?W c cl rest r"
      "es = us @ ManagerMade (consumer_options b fg c auth) None # rest" "r = None \<or> (\<exists>x. Started x \<in> set rest)"
      by (rule program_run_started [OF run st])
    then have url: "na_URL (ap_Nats c) \<noteq> []" by (auto split: if_splits)
    with p(4) have f: "follows (returns [Drained]) (consumer_plan c cl @ [Started]) rest r" by simp
    obtain x more where x: "rest = map (\<lambda>g. g None) (consumer_plan c cl) @ Started x # more"
      "x \<noteq> None \<and> r \<noteq> None \<and> more = [] \<or> x = None \<and> returns [Drained] more r"
      by (rule follows_Started [OF f p(6)]) (auto dest: plans_ok)
    then have more: "more = (if r = None then [Drained] else [])" "r = None \<longrightarrow> x = None" by (auto simp: returns_def)
    from make_client_key [OF p(3)] obtain key src nc where
      key: "loadAPIKey_consumer (bt_files b) (ap_AmberfloAPIKeyPath c) (bt_Getenv b ''AMBERFLO_API_KEY'') = Inr (key, src)"
      "trim_space key \<noteq> []" "cl = NewInstrumentedClient (http_client nc)" "cl_apiKey nc = key" by blast
    have log: "es = us @ ManagerMade (consumer_options b fg c auth) None
        # map (\<lambda>g. g None) (consumer_plan c (NewInstrumentedClient (http_client nc))) @ Started x # (if r = None then [Drained] else [])"
      using p(5) x(1) more(1) key(3) by simp
    then have ends: "r = None \<longrightarrow> Started None \<in> set es \<and> last es = Drained" using more(2) by auto
    show ?thesis
      by (rule conjI [OF ends], rule exI [of _ us], rule exI [of _ c], rule exI [of _ cfg], rule exI [of _ auth],
        rule exI [of _ key], rule exI [of _ src], rule exI [of _ nc], rule exI [of _ x])
        (intro conjI p(1,2) url key(1,2,4) log)
  qed
  ultimately show ?thesis using es by (intro exI [of _ es]) blast
qed

definition sample_boot :: "(unit, invoices, unit) boot" where
  "sample_boot = \<lparr>bt_version = ''dev'', bt_ReadFile = (\<lambda>p. ret (Inl p)), bt_DecodeInto = (\<lambda>d. Inr nats_config), bt_dirs = (\<lambda>n. n),
     bt_files = (\<lambda>p. FileAbsent), bt_Getenv = (\<lambda>n. ''s3cret''), bt_GetConfig = Inr (), bt_BuildConfigFromFlags = (\<lambda>p. Inr ()),
     bt_NewKubeClient = (\<lambda>c. None), bt_describe = (\<lambda>c. []), bt_there = (\<lambda>d f. False), bt_NewManager = (\<lambda>c opts. ret None),
     bt_parse_url = (\<lambda>u. Some (''https'', ''app.amberflo.io'')), bt_net = amber, bt_Setup = (\<lambda>u. ret None),
     bt_IndexField = (\<lambda>k f g. ret None), bt_AddCheck = (\<lambda>n. ret None), bt_Connect = (\<lambda>os u. ret None),
     bt_Informer = (\<lambda>k. ret None), bt_Add = ret None, bt_Start = ret None, bt_account = sample_account_env,
     bt_meter = sample_meter_env, bt_offer = sample_offer_env, bt_entitlement = sample_entitlement_env (Inr (plain_account ''ns'' ''acme'' ''u1'')),
     bt_webhook = sample_webhook_env, bt_syncer = lifted memory_api\<rparr>"

lemma or_exit_calm:
  "(\<And>s. fst (run_state k s) = r) \<Longrightarrow> fst (run_state (or_exit (perform (ret None) g) msg k) s) = r"
  by (simp add: or_exit_def run_simps)

lemma sample_boots:
  "bt_Setup sample_boot u = ret None" "bt_IndexField sample_boot kind fld keys = ret None" "bt_AddCheck sample_boot n = ret None"
  "bt_Connect sample_boot os url = ret None" "bt_Informer sample_boot kind = ret None" "bt_Add sample_boot = ret None"
  "bt_Start sample_boot = ret None" "bt_NewManager sample_boot cfg opts = ret None"
  "find_clusters sample_boot c = Inr ((), ())"
  "load_config sample_boot [] = ret (Inr (SetObjectDefaults (\<lambda>n. n) nats_config))"
  by (simp_all add: sample_boot_def find_clusters_def RestConfig_def load_config_def)

lemma sample_key_loads:
  "\<exists>src. loadAPIKey (bt_files sample_boot) path (bt_Getenv sample_boot n) = Inr (''s3cret'', src)"
  "\<exists>src. loadAPIKey_consumer (bt_files sample_boot) path (bt_Getenv sample_boot n) = Inr (''s3cret'', src)"
  and sample_key_kept: "trim_space ''s3cret'' = ''s3cret''"
proof -
  show t: "trim_space ''s3cret'' = ''s3cret''" by code_simp
  then show "\<exists>src. loadAPIKey (bt_files sample_boot) path (bt_Getenv sample_boot n) = Inr (''s3cret'', src)"
    "\<exists>src. loadAPIKey_consumer (bt_files sample_boot) path (bt_Getenv sample_boot n) = Inr (''s3cret'', src)"
    by (simp_all add: loadAPIKey_def loadSecretValue_def loadAPIKey_consumer_def sample_boot_def Let_def)
qed

lemma sample_client:
  "\<exists>src. load (bt_files sample_boot) (ap_AmberfloAPIKeyPath c) (bt_Getenv sample_boot ''AMBERFLO_API_KEY'') = Inr (''s3cret'', src)
    \<Longrightarrow> \<exists>cl. make_client load sample_boot c agent = Inr cl"
  by (auto simp: make_client_def NewClient_def client_options_def sample_key_kept) (simp_all add: sample_boot_def)

lemma sample_checks: "(\<And>s. fst (run_state k s) = r) \<Longrightarrow> fst (run_state (check_and_start sample_boot k) s) = r"
  unfolding check_and_start_def sample_boots by (intro or_exit_calm)

lemma sample_provider: "fst (run_state (provider_main sample_boot default_flags) s) = None"
proof -
  obtain cl where cl: "make_client loadAPIKey sample_boot (SetObjectDefaults (\<lambda>n. n) nats_config) ''amberflo-provider'' = Inr cl"
    using sample_client sample_key_loads(1) by blast
  have ends: "fst (run_state (check_and_start sample_boot (ret None)) s) = None" for s
    :: "(unit, invoices boot_step) traced_state"
    by (rule sample_checks) (simp add: run_simps)
  have "fst (run_state (provider_wire sample_boot c cl) s) = None" for c s
    unfolding provider_wire_def Let_def sample_boots
    by (intro or_exit_calm)
      (cases "invoice_handler sample_boot c cl"; simp add: or_exit_def AddIndexers_def handler_SetupWithManager_def run_simps ends)
  then show ?thesis
    by (simp add: provider_main_def sample_boots run_simps default_flags_def cl Let_def)
      (intro or_exit_calm)
qed

theorem provider_starts_witness:
  "\<exists>s'. run_state (provider_main sample_boot default_flags) \<lparr>ts_world = (), ts_log = []\<rparr> = (None, s')
     \<and> Started None \<in> set (ts_log s') \<and> stops_at_failure (ts_log s') None"
proof -
  obtain s' where run: "run_state (provider_main sample_boot default_flags) \<lparr>ts_world = (), ts_log = []\<rparr> = (None, s')"
    by (metis sample_provider prod.collapse)
  from provider_starts [OF run] run show ?thesis by auto
qed

lemma sample_consumer_main: "fst (run_state (consumer_main sample_boot default_flags) s) = None"
proof -
  obtain cl where cl: "make_client loadAPIKey_consumer sample_boot (SetObjectDefaults (\<lambda>n. n) nats_config) ''submission-consumer'' = Inr cl"
    using sample_client sample_key_loads(2) by blast
  have url: "na_URL (ap_Nats (SetObjectDefaults (\<lambda>n. n) nats_config)) \<noteq> []"
    by (simp add: SetObjectDefaults_def SetDefaults_AmberfloProvider_def nats_config_def Let_def split: option.splits)
  have ends: "fst (run_state (check_and_start sample_boot (do { remark Drained; ret None })) s) = None" for s
    :: "(unit, invoices boot_step) traced_state"
    by (rule sample_checks) (simp add: run_simps)
  have "fst (run_state (consumer_wire sample_boot (SetObjectDefaults (\<lambda>n. n) nats_config) cl) s) = None" for s
    unfolding consumer_wire_def connectNATS_def sample_boots if_not_P [OF url]
    by (intro or_exit_calm ends)
  then show ?thesis
    by (simp add: consumer_main_def sample_boots run_simps default_flags_def cl Let_def)
      (intro or_exit_calm)
qed

theorem consumer_starts_witness:
  "\<exists>s'. run_state (consumer_main sample_boot default_flags) \<lparr>ts_world = (), ts_log = []\<rparr> = (None, s')
     \<and> Started None \<in> set (ts_log s') \<and> last (ts_log s') = Drained"
proof -
  obtain s' where run: "run_state (consumer_main sample_boot default_flags) \<lparr>ts_world = (), ts_log = []\<rparr> = (None, s')"
    by (metis sample_consumer_main prod.collapse)
  from consumer_starts [OF run] run show ?thesis by auto
qed

end
