(* ===== verification/Spec2Isabelle.thy ===== *)
theory Spec2Isabelle
  imports Customer CustomerPlan PaymentSwitch Meter PlanOps InvoicePhase Submission InvoiceSync AccountController
    MeterController OfferController EntitlementController Webhook Instrument Bootstrap ServingCerts Provider Backoff Indexers
    InvoiceFlow AccountFlow MeterFlow Startup
begin

text \<open>
  The Amberflo billing provider (github.com/datum-cloud/amberflo-provider): two programs that keep
  the billing objects of a Kubernetes API server and the Amberflo billing service in agreement.

  cmd/amberflo-provider runs four reconcilers and a webhook.  A reconciler reads one object (a
  billing account, a meter definition, an offer, an entitlement), asks the Amberflo client for what
  it calls for, and releases what it made when the object is deleted, guarded by a finalizer.  The
  webhook stores the invoices Amberflo announces.  cmd/submission-consumer takes usage events from
  JetStream and posts them to Amberflo.  Both use the client of internal/amberflo.

  \<^bold>\<open>The layers and their theories.\<close>
  \<^item> Prelude, GoTime, Sha, Float64, Json, Url: what the sources use of Go and its standard
    library.  A map of strings is an association list; integers that are only passed on are \<open>int\<close>,
    and where the width matters \<open>wrap64\<close> or \<open>in_int64\<close> says so; a string is its bytes.  Sha is SHA-1
    and SHA-256 on 32-bit words; Float64 is binary64 with correct rounding; Json is the reader and
    writer of encoding/json with the decoding into structs.
  \<^item> Errors (amberflo/errors.go), Transport (client.go, ratelimit.go): error values, their
    classification, and \<open>doJSON\<close> with its retries over an HTTP exchange that is an operation on the
    world.  The state \<open>net\<close> is the world and the log of requests, outcomes and sleeps.  Backoff:
    the default sleep and jitter of the client, with the floating-point arithmetic of the jitter.
  \<^item> Customer, CustomerPlan, PaymentSwitch, Meter, ProductPlan and PlanOps, InvoiceApi: the
    files customer.go, customer_plan.go, payment_switch.go and ingest.go, meter.go, product_plan.go,
    invoice.go, one definition per function under its name.
  \<^item> Instrument (metrics.go): the Client interface as a record of operations, the client over
    HTTP, and the wrapper that records each call.
  \<^item> InvoicePhase, InvoiceSync (internal/invoice): phases, amounts and names of invoices, and the
    syncer that writes them to the API server.
  \<^item> Kube: the objects, errors and finalizers of the API server, and the programs over it: an
    \<open>act\<close> runs on a world and leaves a trace of its calls with their answers.
  \<^item> FinalizerProtocol: the abstract protocol the reconcilers share, a step relation on one object.
  \<^item> StripeSwitch (stripe_customer.go), AccountController, Reconcilers, MeterController,
    OfferController, EntitlementController: internal/controller.
  \<^item> Webhook (internal/webhook), Submission (internal/submission with its two caches).
  \<^item> Indexers (indexers.go): the field indexes the lookups by UID and by account rely on.
  \<^item> Bootstrap, ServingCerts (internal/config and the two main.go): configuration, credentials,
    serving certificates, and how the programs put the parts together.
  \<^item> Provider: the two programs as wholes, from an event or a deletion down to the HTTP exchange.
    InvoiceFlow: the webhook as a whole, from the request to the objects of the API server.
    AccountFlow: the sync of an account as a whole, from the API server to what Amberflo keeps.
    MeterFlow: the deletion of a meter definition as a whole.  The three rest on Exchanges, which
    says what a call keeps and why it fails, whichever exchanges it makes.
  \<^item> Startup: the functions main of the two programs and SetupWithManager of the controllers.  Each
    call of the manager is a step that may fail; \<open>os.Exit(1)\<close> ends the run with a message.

  \<^bold>\<open>What stands for code outside the repository.\<close>  The HTTP exchange, the rate limiter, sleeping,
  the clock and the jitter are fields of \<open>client\<close>; the API server, the controller library and the
  event recorder are fields of \<open>account_env\<close>, \<open>meter_env\<close>, \<open>offer_env\<close>, \<open>entitlement_env\<close>,
  \<open>webhook_env\<close> and \<open>invoice_api\<close>; CloudEvents, ULID and the crypto libraries are records too.  The
  properties of runs hold for every such record.  Where a library is relied on, the law has a name:
  \<open>finalizer_laws\<close>, the laws of the invoice API in InvoiceSync, \<open>undisturbed\<close> (no cancellation),
  \<open>draws_unit\<close> (the random source), \<open>serves\<close> (a listing by index),
  \<open>customer_store\<close> (a server that keeps the customer it was sent), \<open>kube_only\<close> (the API server does
  not change what Amberflo keeps, also \<open>kube_apart\<close>), \<open>only_writes\<close> (Amberflo changes customers only on a
  write to /customers), \<open>apart\<close> (it does not touch the API server), \<open>meter_store\<close> (Amberflo lists,
  updates and deletes the meters it has, ids not empty and API names unique).

  \<^bold>\<open>Interfaces.\<close>  \<open>json_call\<close> states the contract of a JSON call for the operations above it;
  \<open>keyed_cache\<close> that of an informer-fed index, interpreted by both caches; \<open>guarded_reconciler\<close> that
  of a run that obeys the finalizer protocol, interpreted by the four reconcilers, whose properties
  \<open>..._never_leaks\<close> are its facts.

  \<^bold>\<open>What the lemmas show.\<close>  Laws of programs: \<open>leaves\<close> relates the calls and the result of an \<open>act\<close>,
  \<open>keeps\<close> preserves a property of world and trace, \<open>traced\<close> and \<open>sends_only\<close> bound the requests of
  a client operation.  Over these: how often a call is retried and what it returns; that ensuring
  is idempotent, assigning leaves one plan, meters are never renamed; that what the reconcilers ask
  for is what the object says, in which order, that failures which may pass come back and that
  nothing is left behind in Amberflo in any interleaving with deletions; that the webhook does
  nothing for an unauthorized request and stores exactly the invoices an event stands for; that the meter
  of a deleted definition is gone; that every usage message is acknowledged or put back exactly
  once, and acknowledged only after it was accepted or can never be; that the default jitter stays
  within a quarter of the exponential delay; that the indexed lookups find what a full listing does;
  that a program stops at the first failure of its start and its manager runs on nothing half set
  up (\<open>follows\<close> reads a run against the plan of its steps).

  \<^bold>\<open>Bounds.\<close>  \<open>json_parse\<close> recurses on fuel 2 * length + 2; \<open>parse_fuel\<close> shows more changes nothing.
  \<open>attempt_loop\<close> counts the attempts left, as the source does.  The loop of \<open>Start\<close> runs on the list
  of what the fetches give until the context is cancelled, so it ends with the list.  All other
  loops are over lists.

  \<^bold>\<open>Not modelled.\<close>  Logging, Prometheus registries and elapsed times; the parsing of the command
  line, the codec of the configuration file, and what the manager does with the controllers, indexes
  and checks it is given; the generated deep copies; the HTTP and TLS stacks.  Sleep and jitter of a client are any, except
  in Backoff, where they are the defaults.  ParseFloat reads decimal numerals
  only (no hexadecimal, underscore, Inf or NaN); int64 of a float out of range is a parameter;
  strings are not checked for UTF-8; in error texts \<open>%q\<close> is written as a JSON string and library
  errors may be shortened; decoding a slice over an old one does not reuse its elements.
  The protocol reads the object at the start of a run; deletions come in between, stale reads do
  not.  Forced deletions give the customer up on purpose and are outside \<open>account_runs\<close>.  Caches
  change between batches, not within one.
\<close>

end
